theory Spec2Isabelle
  imports Main "HOL-Library.Word" "HOL-Library.AList"
begin

unbundle bit_operations_syntax

section \<open>Bytes and slices\<close>

type_synonym byte = "8 word"

text \<open>
  Python's \<^verbatim>\<open>xs[start:]\<close> for an integer \<open>start\<close>: a negative start counts from
  the end and is clamped at the front of the list, a start past the end gives the
  empty list.
\<close>

definition py_slice_from :: "'a list \<Rightarrow> int \<Rightarrow> 'a list" where
  "py_slice_from xs start =
     (let n = int (length xs);
          s = (if start < 0 then max (n + start) 0 else min start n)
      in drop (nat s) xs)"

section \<open>Error statistics (utils/error_handler.py)\<close>

text \<open>
  \<^verbatim>\<open>ErrorStats.get_recent_errors\<close> returns \<^verbatim>\<open>self.error_history[-limit:]\<close>.
\<close>

definition get_recent_errors :: "'e list \<Rightarrow> int \<Rightarrow> 'e list" where
  "get_recent_errors error_history limit = py_slice_from error_history (- limit)"

section \<open>Obfuscator: XOR transforms (tools/obfuscator.py)\<close>

text \<open>
  \<^verbatim>\<open>_xor_encrypt\<close> draws one key byte with \<^verbatim>\<open>random.randint(1, 255)\<close> and returns
  \<^verbatim>\<open>bytes(b ^ key for b in data)\<close>. The drawn key is a parameter here.
\<close>

definition xor_encrypt :: "byte \<Rightarrow> byte list \<Rightarrow> byte list" where
  "xor_encrypt key data = map (\<lambda>b. b XOR key) data"

text \<open>
  \<^verbatim>\<open>_custom_xor_encrypt\<close> draws four key bytes and walks \<^verbatim>\<open>enumerate(data)\<close>,
  appending \<^verbatim>\<open>b ^ key[i % len(key)]\<close>. The drawn key is a parameter here; the loop
  carries the index \<open>i\<close>. The source's key always has four bytes, so the index is
  in range.
\<close>

fun custom_xor_loop :: "byte list \<Rightarrow> nat \<Rightarrow> byte list \<Rightarrow> byte list" where
  "custom_xor_loop key i [] = []"
| "custom_xor_loop key i (b # bs) =
     (b XOR (key ! (i mod length key))) # custom_xor_loop key (Suc i) bs"

definition custom_xor_encrypt :: "byte list \<Rightarrow> byte list \<Rightarrow> byte list" where
  "custom_xor_encrypt key data = custom_xor_loop key 0 data"

section \<open>Errors (utils/error_handler.py)\<close>

text \<open>
  The exceptions the code raises and catches with \<^verbatim>\<open>except Exception\<close>. The four
  concrete kinds of \<^verbatim>\<open>BedToolsError\<close> carry their message; their code, severity and
  category are the ones their constructors set. \<open>BedToolsError\<close> stands for an instance
  of the base class or of any further subclass, with its class name, its message and
  the attributes \<^verbatim>\<open>error_code\<close>, \<^verbatim>\<open>severity\<close> and \<^verbatim>\<open>category\<close>. \<open>OtherException\<close>
  is an exception that is no \<^verbatim>\<open>BedToolsError\<close>, with its class name and message.
  \<^verbatim>\<open>KeyboardInterrupt\<close> and the like, which do not derive from \<^verbatim>\<open>Exception\<close>, are
  not modelled.
\<close>

datatype exn =
    ValidationError string
  | SecurityError string
  | PluginError string
  | OperationError string
  | BedToolsError string string string string string
  | OtherException string string

fun exn_str :: "exn \<Rightarrow> string" where
  "exn_str (ValidationError m) = m"
| "exn_str (SecurityError m) = m"
| "exn_str (PluginError m) = m"
| "exn_str (OperationError m) = m"
| "exn_str (BedToolsError cls m code sev cat) = m"
| "exn_str (OtherException cls m) = m"

text \<open>\<^verbatim>\<open>error.__class__.__name__\<close>.\<close>

fun class_name :: "exn \<Rightarrow> string" where
  "class_name (ValidationError m) = ''ValidationError''"
| "class_name (SecurityError m) = ''SecurityError''"
| "class_name (PluginError m) = ''PluginError''"
| "class_name (OperationError m) = ''OperationError''"
| "class_name (BedToolsError cls m code sev cat) = cls"
| "class_name (OtherException cls m) = cls"

text \<open>\<^verbatim>\<open>isinstance(error, BedToolsError)\<close>.\<close>

fun is_bedtools_error :: "exn \<Rightarrow> bool" where
  "is_bedtools_error (OtherException cls m) = False"
| "is_bedtools_error e = True"

text \<open>
  The attributes \<^verbatim>\<open>error_code\<close>, \<^verbatim>\<open>severity\<close> and \<^verbatim>\<open>category\<close> that
  \<^verbatim>\<open>BedToolsError.__init__\<close> sets. An exception of another family is taken to be
  an object without them, as the exceptions of Python and of the libraries are.
\<close>

fun error_attributes :: "exn \<Rightarrow> (string \<times> string \<times> string) option" where
  "error_attributes (ValidationError m) = Some (''ERR_VALIDATION'', ''WARNING'', ''VALIDATION'')"
| "error_attributes (SecurityError m) = Some (''ERR_SECURITY'', ''CRITICAL'', ''SECURITY'')"
| "error_attributes (PluginError m) = Some (''ERR_PLUGIN'', ''ERROR'', ''PLUGIN'')"
| "error_attributes (OperationError m) = Some (''ERR_OPERATION'', ''ERROR'', ''BUSINESS'')"
| "error_attributes (BedToolsError cls m code sev cat) = Some (code, sev, cat)"
| "error_attributes (OtherException cls m) = None"

text \<open>
  The structured result \<^verbatim>\<open>ErrorHandler.handle_error\<close> returns. The fields that depend
  on the clock or the call stack (\<^verbatim>\<open>timestamp\<close>, \<^verbatim>\<open>traceback\<close>), \<^verbatim>\<open>details\<close> and
  \<^verbatim>\<open>context\<close> are left out, as are the statistics, the recovery attempt and the log
  lines, which touch other singletons only.
\<close>

record error_result =
  res_status :: string
  res_error_code :: string
  res_message :: string
  res_type :: string
  res_severity :: string
  res_category :: string

definition attribute_error_code :: "string \<Rightarrow> exn" where
  \<comment> \<open>Python's error for reading \<^verbatim>\<open>error_code\<close> from an object of class \<open>cls\<close> without it\<close>
  "attribute_error_code cls =
     OtherException ''AttributeError''
       ([CHR 0x27] @ cls @ [CHR 0x27] @ '' object has no attribute '' @
        [CHR 0x27] @ ''error_code'' @ [CHR 0x27])"

text \<open>
  The four registered handlers build the result from the attributes of the error and
  differ in the \<^verbatim>\<open>type\<close> they report; \<^verbatim>\<open>_handle_default_error\<close> reports fixed values.
\<close>

definition named_handler_result :: "string \<Rightarrow> string \<Rightarrow> string \<Rightarrow> string \<Rightarrow> string \<Rightarrow> error_result" where
  "named_handler_result kind m code sev cat =
     \<lparr>res_status = ''error'', res_error_code = code, res_message = m,
      res_type = kind, res_severity = sev, res_category = cat\<rparr>"

definition default_handler_result :: "string \<Rightarrow> error_result" where
  "default_handler_result m =
     \<lparr>res_status = ''error'', res_error_code = ''ERR_UNKNOWN'', res_message = m,
      res_type = ''unknown'', res_severity = ''ERROR'', res_category = ''SYSTEM''\<rparr>"

text \<open>
  \<^verbatim>\<open>ErrorHandler.handle_error\<close>. The handler is looked up in the table of registered
  handlers by \<^verbatim>\<open>error.__class__.__name__\<close>, whatever the class is, with
  \<^verbatim>\<open>_handle_default_error\<close> for a name that is not registered. A registered handler
  reads \<^verbatim>\<open>error.error_code\<close> first; on an exception that is no \<^verbatim>\<open>BedToolsError\<close> but
  whose class has one of the four registered names this raises \<^verbatim>\<open>AttributeError\<close>, and
  \<open>handle_error\<close> raises.
\<close>

definition handler_kind :: "string \<Rightarrow> string option" where
  \<comment> \<open>the \<^verbatim>\<open>type\<close> reported by the handler registered for a class name, if there is one\<close>
  "handler_kind cls =
     (if cls = ''ValidationError'' then Some ''validation''
      else if cls = ''SecurityError'' then Some ''security''
      else if cls = ''PluginError'' then Some ''plugin''
      else if cls = ''OperationError'' then Some ''operation''
      else None)"

definition handle_error :: "exn \<Rightarrow> exn + error_result" where
  "handle_error error =
     (case handler_kind (class_name error) of
        None \<Rightarrow> Inr (default_handler_result (exn_str error))
      | Some kind \<Rightarrow>
          (case error_attributes error of
             None \<Rightarrow> Inl (attribute_error_code (class_name error))
           | Some (code, sev, cat) \<Rightarrow>
               Inr (named_handler_result kind (exn_str error) code sev cat)))"

text \<open>
  The decorator \<^verbatim>\<open>@error_handler\<close>: the wrapped function's value is passed on; an
  exception is caught and what \<open>handle_error\<close> returns is returned in its place; an
  exception raised by \<open>handle_error\<close> leaves the decorated function.
\<close>

datatype 'a returned = Value 'a | ErrorResult error_result

definition error_handler :: "(exn + 'a) \<times> 's \<Rightarrow> (exn + 'a returned) \<times> 's" where
  "error_handler rs =
     (case fst rs of
        Inr v \<Rightarrow> (Inr (Value v), snd rs)
      | Inl e \<Rightarrow>
          (case handle_error e of
             Inr r \<Rightarrow> (Inr (ErrorResult r), snd rs)
           | Inl e' \<Rightarrow> (Inl e', snd rs)))"

section \<open>Python values\<close>

text \<open>
  The values a JSON document or a schema literal is made of. A float is kept as the
  exact fraction it stands for (numerator, positive denominator); NaN and the
  infinities are not modelled. A dictionary is an association list with distinct
  string keys, in insertion order.
\<close>

datatype pyval =
    PNone
  | PBool bool
  | PInt int
  | PFloat int int
  | PStr string
  | PList "pyval list"
  | PDict "(string \<times> pyval) list"

text \<open>Numbers compare by value across \<^verbatim>\<open>bool\<close>, \<^verbatim>\<open>int\<close> and \<^verbatim>\<open>float\<close>.\<close>

fun py_number :: "pyval \<Rightarrow> (int \<times> int) option" where
  "py_number (PBool b) = Some (if b then 1 else 0, 1)"
| "py_number (PInt i) = Some (i, 1)"
| "py_number (PFloat n d) = Some (n, d)"
| "py_number v = None"

fun py_eq :: "pyval \<Rightarrow> pyval \<Rightarrow> bool" where
  "py_eq (PStr s) w = (w = PStr s)"
| "py_eq PNone w = (w = PNone)"
| "py_eq (PList xs) w = (case w of PList ys \<Rightarrow> list_all2 py_eq xs ys | _ \<Rightarrow> False)"
| "py_eq (PDict d) w =
     (case w of
        PDict d' \<Rightarrow>
          length d = length d' \<and>
          list_all (\<lambda>(k, v). case map_of d' k of None \<Rightarrow> False | Some v' \<Rightarrow> py_eq v v') d
      | _ \<Rightarrow> False)"
| "py_eq v w =
     (case (py_number v, py_number w) of
        (Some (n, d), Some (n', d')) \<Rightarrow> n * d' = n' * d
      | _ \<Rightarrow> False)"

fun py_truthy :: "pyval \<Rightarrow> bool" where
  "py_truthy PNone = False"
| "py_truthy (PBool b) = b"
| "py_truthy (PInt i) = (i \<noteq> 0)"
| "py_truthy (PFloat n d) = (n \<noteq> 0)"
| "py_truthy (PStr s) = (s \<noteq> [])"
| "py_truthy (PList xs) = (xs \<noteq> [])"
| "py_truthy (PDict d) = (d \<noteq> [])"

definition py_substring :: "string \<Rightarrow> string \<Rightarrow> bool" where
  "py_substring p s = list_ex (\<lambda>i. take (length p) (drop i s) = p) [0..<Suc (length s)]"

definition type_error :: exn where
  "type_error = OtherException ''TypeError'' []"

definition attribute_error :: exn where
  "attribute_error = OtherException ''AttributeError'' []"

text \<open>\<^verbatim>\<open>item in container\<close>.\<close>

fun py_contains :: "pyval \<Rightarrow> pyval \<Rightarrow> exn + bool" where
  "py_contains (PDict d) (PStr k) = Inr (k \<in> fst ` set d)"
| "py_contains (PDict d) (PList xs) = Inl type_error"
| "py_contains (PDict d) (PDict d') = Inl type_error"
| "py_contains (PDict d) item = Inr False"
| "py_contains (PList xs) item = Inr (list_ex (\<lambda>x. py_eq x item) xs)"
| "py_contains (PStr s) (PStr p) = Inr (py_substring p s)"
| "py_contains (PStr s) item = Inl type_error"
| "py_contains container item = Inl type_error"

text \<open>\<^verbatim>\<open>container[key]\<close> for a string key.\<close>

fun py_getitem :: "pyval \<Rightarrow> string \<Rightarrow> exn + pyval" where
  "py_getitem (PDict d) k =
     (case map_of d k of Some v \<Rightarrow> Inr v | None \<Rightarrow> Inl (OtherException ''KeyError'' k))"
| "py_getitem container k = Inl type_error"

section \<open>The configuration a tool holds\<close>

text \<open>
  \<^verbatim>\<open>ToolBase.__init__\<close> stores the \<^verbatim>\<open>ConfigManager\<close> singleton in \<^verbatim>\<open>self.config\<close>; it
  is truthy, so \<^verbatim>\<open>_initialize\<close> keeps it, and it cannot be subscripted.
  \<^verbatim>\<open>initialize(config)\<close> with a configuration stores that dictionary instead. The
  tools read \<^verbatim>\<open>self.config[section][key]\<close>, which raises \<^verbatim>\<open>TypeError\<close> on the
  manager object and on a section that is no dictionary, and \<^verbatim>\<open>KeyError\<close> on a
  missing section or key.
\<close>

datatype tool_config = ConfigManagerObject | ConfigDict "(string \<times> pyval) list"

definition not_subscriptable :: exn where
  "not_subscriptable =
     OtherException ''TypeError''
       ([CHR 0x27] @ ''ConfigManager'' @ [CHR 0x27] @ '' object is not subscriptable'')"

definition config_lookup :: "tool_config \<Rightarrow> string \<Rightarrow> string \<Rightarrow> exn + pyval" where
  "config_lookup cfg sect key =
     (case cfg of
        ConfigManagerObject \<Rightarrow> Inl not_subscriptable
      | ConfigDict d \<Rightarrow>
          (case py_getitem (PDict d) sect of
             Inl e \<Rightarrow> Inl e
           | Inr sub \<Rightarrow> py_getitem sub key))"

section \<open>Obfuscator: RC4 (tools/obfuscator.py)\<close>

text \<open>
  \<^verbatim>\<open>_rc4_encrypt\<close> draws sixteen key bytes (a parameter here), keeps the S-box as a
  Python list of integers and the indices \<open>i\<close>, \<open>j\<close> as integers reduced
  \<^verbatim>\<open>% 256\<close>. The tuple assignment \<^verbatim>\<open>S[i], S[j] = S[j], S[i]\<close> reads both
  entries first and then stores \<open>S[i]\<close> before \<open>S[j]\<close>.
\<close>

definition swap_entries :: "nat list \<Rightarrow> nat \<Rightarrow> nat \<Rightarrow> nat list" where
  "swap_entries S i j = S[i := S ! j, j := S ! i]"

definition ksa_step :: "byte list \<Rightarrow> nat \<Rightarrow> nat list \<times> nat \<Rightarrow> nat list \<times> nat" where
  "ksa_step key i Sj =
     (let S = fst Sj;
          j = (snd Sj + S ! i + unat (key ! (i mod length key))) mod 256
      in (swap_entries S i j, j))"

definition rc4_init :: "byte list \<Rightarrow> nat list" where
  "rc4_init key = fst (fold (ksa_step key) [0..<256] ([0..<256], 0))"

fun rc4_loop :: "nat list \<Rightarrow> nat \<Rightarrow> nat \<Rightarrow> byte list \<Rightarrow> byte list" where
  "rc4_loop S i j [] = []"
| "rc4_loop S i j (b # bs) =
     (let i' = (i + 1) mod 256;
          j' = (j + S ! i') mod 256;
          S' = swap_entries S i' j';
          k = S' ! ((S' ! i' + S' ! j') mod 256)
      in (b XOR of_nat k) # rc4_loop S' i' j' bs)"

definition rc4_encrypt :: "byte list \<Rightarrow> byte list \<Rightarrow> byte list" where
  "rc4_encrypt key data = rc4_loop (rc4_init key) 0 0 data"

subsection \<open>RC4 reference\<close>

text \<open>
  The reference follows the description of the cipher rather than the code: the state
  is a permutation of the byte values, \<open>i\<close> and \<open>j\<close> are bytes whose addition wraps,
  the key schedule runs through the 256 positions with a 16-byte key, and the generator
  emits one keystream byte per step.
\<close>

definition ref_swap :: "(byte \<Rightarrow> byte) \<Rightarrow> byte \<Rightarrow> byte \<Rightarrow> (byte \<Rightarrow> byte)" where
  "ref_swap P a b = P(a := P b, b := P a)"

fun ref_schedule :: "byte list \<Rightarrow> nat \<Rightarrow> (byte \<Rightarrow> byte) \<times> byte" where
  "ref_schedule key 0 = (\<lambda>x. x, 0)"
| "ref_schedule key (Suc n) =
     (case ref_schedule key n of
        (P, j) \<Rightarrow> (let j' = j + P (of_nat n) + key ! (n mod 16)
                  in (ref_swap P (of_nat n) j', j')))"

fun ref_keystream :: "(byte \<Rightarrow> byte) \<Rightarrow> byte \<Rightarrow> byte \<Rightarrow> nat \<Rightarrow> byte list" where
  "ref_keystream P i j 0 = []"
| "ref_keystream P i j (Suc n) =
     (let i' = i + 1;
          j' = j + P i';
          P' = ref_swap P i' j'
      in P' (P' i' + P' j') # ref_keystream P' i' j' n)"

definition rc4_reference_keystream :: "byte list \<Rightarrow> nat \<Rightarrow> byte list" where
  "rc4_reference_keystream key n = ref_keystream (fst (ref_schedule key 256)) 0 0 n"

definition rc4_reference :: "byte list \<Rightarrow> byte list \<Rightarrow> byte list" where
  "rc4_reference key data =
     map (\<lambda>(b, k). b XOR k) (zip data (rc4_reference_keystream key (length data)))"

subsection \<open>Relating the S-box list to the reference permutation\<close>

text \<open>
  A well-formed S-box is a list of 256 byte values; it stands for the permutation
  that sends the byte \<open>w\<close> to the entry at index \<open>w\<close>.
\<close>

definition sbox_ok :: "nat list \<Rightarrow> bool" where
  "sbox_ok S \<longleftrightarrow> length S = 256 \<and> (\<forall>x \<in> set S. x < 256)"

definition sbox_abs :: "nat list \<Rightarrow> byte \<Rightarrow> byte" where
  "sbox_abs S = (\<lambda>w. of_nat (S ! unat w))"

section \<open>PE injector: trampoline (tools/pe_injector.py)\<close>

text \<open>
  \<^verbatim>\<open>int.to_bytes(4, byteorder='little', signed=True)\<close>: OverflowError outside
  the signed 32-bit range, otherwise the four bytes of the two's complement value,
  least significant first.
\<close>

fun le_bytes :: "nat \<Rightarrow> int \<Rightarrow> byte list" where
  "le_bytes 0 u = []"
| "le_bytes (Suc n) u = word_of_int (u mod 256) # le_bytes n (u div 256)"

definition to_bytes4_le_signed :: "int \<Rightarrow> exn + byte list" where
  "to_bytes4_le_signed x =
     (if - (2 ^ 31) \<le> x \<and> x < 2 ^ 31
      then Inr (le_bytes 4 (x mod 2 ^ 32))
      else Inl (OtherException ''OverflowError'' ''int too big to convert''))"

text \<open>The inverse reading, \<^verbatim>\<open>int.from_bytes(bs, 'little', signed=True)\<close> on four bytes.\<close>

fun le_value :: "byte list \<Rightarrow> int" where
  "le_value [] = 0"
| "le_value (b # bs) = uint b + 256 * le_value bs"

definition from_bytes4_le_signed :: "byte list \<Rightarrow> int" where
  "from_bytes4_le_signed bs =
     (let u = le_value bs in if u < 2 ^ 31 then u else u - 2 ^ 32)"

definition create_return_jump :: "int \<Rightarrow> int \<Rightarrow> exn + byte list" where
  "create_return_jump from_addr to_addr =
     (let relative_addr = to_addr - (from_addr + 5)
      in case to_bytes4_le_signed relative_addr of
           Inl e \<Rightarrow> Inl e
         | Inr bs \<Rightarrow> Inr (0xE9 # bs))"


section \<open>PE injector: code caves (tools/pe_injector.py)\<close>

text \<open>
  The PE structure comes from the external \<^verbatim>\<open>pefile\<close> library. A section is taken
  with the fields the search reads: its characteristics, its virtual address and the
  bytes \<^verbatim>\<open>section.get_data()\<close> returns.
\<close>

record pe_section =
  Characteristics :: "32 word"
  VirtualAddress :: nat
  section_data :: "byte list"

definition is_executable :: "pe_section \<Rightarrow> bool" where
  "is_executable s \<longleftrightarrow> Characteristics s AND 0x20000000 \<noteq> 0"

definition is_filler :: "byte \<Rightarrow> bool" where
  "is_filler b \<longleftrightarrow> b = 0 \<or> b = 0xCC"

text \<open>
  The inner loop of \<^verbatim>\<open>_find_code_cave\<close>: advance \<open>pos\<close> while it is inside the data,
  on a filler byte, and fewer than \<open>sz\<close> bytes from \<open>cave_start\<close>.
\<close>

function extend_cave :: "byte list \<Rightarrow> int \<Rightarrow> nat \<Rightarrow> nat \<Rightarrow> nat" where
  "extend_cave data sz cave_start pos =
     (if pos < length data \<and> is_filler (data ! pos) \<and> int pos - int cave_start < sz
      then extend_cave data sz cave_start (pos + 1)
      else pos)"
  by pat_completeness auto
termination
  by (relation "measure (\<lambda>(data, sz, cave_start, pos). length data - pos)") auto

declare extend_cave.simps [simp del]

text \<open>
  The outer loop over one section: at a filler byte the run is measured; a run of
  \<open>size\<close> bytes is returned as (start, length), otherwise the scan goes on one
  byte after the place where the inner loop stopped.
\<close>

function scan_section :: "byte list \<Rightarrow> int \<Rightarrow> nat \<Rightarrow> (nat \<times> nat) option" where
  "scan_section data sz pos =
     (if pos < length data then
        (if is_filler (data ! pos) then
           (let cave_start = pos;
                pos' = extend_cave data sz cave_start pos
            in if int pos' - int cave_start \<ge> sz
               then Some (cave_start, pos' - cave_start)
               else scan_section data sz (pos' + 1))
         else scan_section data sz (pos + 1))
      else None)"
  by pat_completeness auto
termination
proof (relation "measure (\<lambda>(data, sz, pos). length data - pos)")
  show "wf (measure (\<lambda>(data, sz, pos). length data - pos))"
    by simp
next
  fix data :: "byte list" and sz :: int and pos x xa :: nat
  assume a: "pos < length data" and x: "x = pos" and xa: "xa = extend_cave data sz x pos"
  have ge: "p \<le> extend_cave d s c p" for d s c p
    by (induction d s c p rule: extend_cave.induct) (subst extend_cave.simps, auto)
  from ge [of pos data sz pos] a
  show "((data, sz, xa + 1), (data, sz, pos)) \<in>
        measure (\<lambda>(data, sz, pos). length data - pos)"
    by (simp add: x xa)
next
  fix data :: "byte list" and sz :: int and pos :: nat
  assume "pos < length data"
  then show "((data, sz, pos + 1), (data, sz, pos)) \<in>
        measure (\<lambda>(data, sz, pos). length data - pos)"
    by simp
qed

declare scan_section.simps [simp del]

text \<open>
  The loop over \<^verbatim>\<open>pe.sections\<close>; \<^verbatim>\<open>(None, None)\<close> is \<open>None\<close>, a match is the
  pair of the cave's virtual address and its measured length.
\<close>

fun find_code_cave :: "pe_section list \<Rightarrow> int \<Rightarrow> (nat \<times> nat) option" where
  "find_code_cave [] sz = None"
| "find_code_cave (s # ss) sz =
     (if is_executable s then
        (case scan_section (section_data s) sz 0 of
           Some (cave_start, n) \<Rightarrow> Some (VirtualAddress s + cave_start, n)
         | None \<Rightarrow> find_code_cave ss sz)
      else find_code_cave ss sz)"

text \<open>What the search is specified to find: a run of \<open>n\<close> filler bytes starting at \<open>p\<close>.\<close>

definition cave_at :: "byte list \<Rightarrow> nat \<Rightarrow> nat \<Rightarrow> bool" where
  "cave_at data n p \<longleftrightarrow> p + n \<le> length data \<and> (\<forall>k < n. is_filler (data ! (p + k)))"

text \<open>
  \<^verbatim>\<open>_inject_code_cave\<close>. The image is taken with the fields the strategy touches;
  \<^verbatim>\<open>pe.get_offset_from_rva\<close> belongs to \<^verbatim>\<open>pefile\<close> and is a parameter. The test
  \<^verbatim>\<open>if not cave_rva\<close> is true for \<^verbatim>\<open>None\<close> and for the address 0. The flag
  \<^verbatim>\<open>self.config["injection"]["preserve_entry"]\<close> is read inside the \<^verbatim>\<open>try\<close>, after
  the cave was found. The body of the \<^verbatim>\<open>try\<close> comes first; \<^verbatim>\<open>except Exception\<close>
  turns every failure into \<open>False\<close>.
\<close>

record pe_image =
  sections :: "pe_section list"
  image_data :: "byte list"
  AddressOfEntryPoint :: nat

definition msg_no_code_cave :: string where
  \<comment> \<open>the source's message: no code cave that is large enough was found\<close>
  "msg_no_code_cave =
     [CHR 0xE6, CHR 0x9C, CHR 0xAA, CHR 0xE6, CHR 0x89, CHR 0xBE, CHR 0xE5, CHR 0x88, CHR 0xB0,
      CHR 0xE8, CHR 0xB6, CHR 0xB3, CHR 0xE5, CHR 0xA4, CHR 0x9F, CHR 0xE5, CHR 0xA4, CHR 0xA7,
      CHR 0xE7, CHR 0x9A, CHR 0x84, CHR 0xE4, CHR 0xBB, CHR 0xA3, CHR 0xE7, CHR 0xA0, CHR 0x81,
      CHR 0xE6, CHR 0xB4, CHR 0x9E]"

definition msg_injection_failed :: string where
  \<comment> \<open>the source's message: injection failed\<close>
  "msg_injection_failed =
     [CHR 0xE6, CHR 0xB3, CHR 0xA8, CHR 0xE5, CHR 0x85, CHR 0xA5, CHR 0xE5, CHR 0xA4, CHR 0xB1,
      CHR 0xE8, CHR 0xB4, CHR 0xA5]"

definition inject_code_cave_try ::
  "(nat \<Rightarrow> exn + nat) \<Rightarrow> tool_config \<Rightarrow> pe_image \<Rightarrow> byte list \<Rightarrow> exn + pe_image" where
  "inject_code_cave_try get_offset_from_rva cfg pe shellcode =
     (case find_code_cave (sections pe) (int (length shellcode) + 5) of
        None \<Rightarrow> Inl (OperationError msg_no_code_cave)
      | Some (cave_rva, cave_size) \<Rightarrow>
          if cave_rva = 0 then Inl (OperationError msg_no_code_cave)
          else
            (case get_offset_from_rva cave_rva of
               Inl e \<Rightarrow> Inl e
             | Inr cave_offset \<Rightarrow>
                 (case config_lookup cfg ''injection'' ''preserve_entry'' of
                    Inl e \<Rightarrow> Inl e
                  | Inr preserve_entry \<Rightarrow>
                      if py_truthy preserve_entry then
                        (case create_return_jump (int (cave_rva + length shellcode))
                                (int (AddressOfEntryPoint pe)) of
                           Inl e \<Rightarrow> Inl e
                         | Inr jmp_code \<Rightarrow>
                             Inr (pe\<lparr>image_data :=
                                      take cave_offset (image_data pe) @ shellcode @ jmp_code @
                                      drop (cave_offset + length shellcode + length jmp_code)
                                        (image_data pe),
                                    AddressOfEntryPoint := cave_rva\<rparr>))
                      else
                        Inr (pe\<lparr>image_data :=
                                 take cave_offset (image_data pe) @ shellcode @
                                 drop (cave_offset + length shellcode) (image_data pe),
                               AddressOfEntryPoint := cave_rva\<rparr>))))"

definition inject_code_cave ::
  "(nat \<Rightarrow> exn + nat) \<Rightarrow> tool_config \<Rightarrow> pe_image \<Rightarrow> byte list \<Rightarrow> bool \<times> pe_image" where
  "inject_code_cave get_offset_from_rva cfg pe shellcode =
     (case inject_code_cave_try get_offset_from_rva cfg pe shellcode of
        Inl e \<Rightarrow> (False, pe)
      | Inr pe' \<Rightarrow> (True, pe'))"

text \<open>
  The strategy dispatch of \<^verbatim>\<open>PEInjector.inject\<close> and the check that follows it
  (\<^verbatim>\<open>if not success: raise OperationError\<close>), for a method name already read from the
  configuration. The two other strategies are parameters.
\<close>

definition inject_strategy ::
  "(pe_image \<Rightarrow> byte list \<Rightarrow> bool \<times> pe_image) \<Rightarrow>
   (pe_image \<Rightarrow> byte list \<Rightarrow> bool \<times> pe_image) \<Rightarrow>
   (nat \<Rightarrow> exn + nat) \<Rightarrow> string \<Rightarrow> tool_config \<Rightarrow> pe_image \<Rightarrow> byte list \<Rightarrow>
   exn + pe_image" where
  "inject_strategy inject_new_section inject_existing_section get_offset_from_rva
       method cfg pe shellcode =
     (let r = (if method = ''new_section'' then inject_new_section pe shellcode
               else if method = ''code_cave''
                 then inject_code_cave get_offset_from_rva cfg pe shellcode
               else inject_existing_section pe shellcode)
      in if \<not> fst r then Inl (OperationError msg_injection_failed) else Inr (snd r))"

text \<open>The configuration \<^verbatim>\<open>PEInjector._initialize\<close> names as its default.\<close>

definition pe_default_config :: tool_config where
  "pe_default_config = ConfigDict
     [(''injection'', PDict
        [(''method'', PStr ''new_section''), (''encryption'', PStr ''xor''),
         (''preserve_entry'', PBool True), (''backup'', PBool True)]),
      (''anti_analysis'', PDict
        [(''anti_debug'', PBool True), (''anti_vm'', PBool True),
         (''sleep_check'', PBool True)]),
      (''obfuscation'', PDict
        [(''level'', PStr ''advanced''), (''junk_code'', PBool True),
         (''fake_api'', PBool True), (''string_encryption'', PBool True)])]"

section \<open>Tool framework (core/tool_base.py)\<close>

datatype ToolStatus =
    UNINITIALIZED | INITIALIZING | READY | RUNNING | PAUSED | ERROR | CLEANING | CLEANED

text \<open>What an f-string prints for a member of the enumeration (\<^verbatim>\<open>str\<close> of the member).\<close>

fun status_str :: "ToolStatus \<Rightarrow> string" where
  "status_str UNINITIALIZED = ''ToolStatus.UNINITIALIZED''"
| "status_str INITIALIZING = ''ToolStatus.INITIALIZING''"
| "status_str READY = ''ToolStatus.READY''"
| "status_str RUNNING = ''ToolStatus.RUNNING''"
| "status_str PAUSED = ''ToolStatus.PAUSED''"
| "status_str ERROR = ''ToolStatus.ERROR''"
| "status_str CLEANING = ''ToolStatus.CLEANING''"
| "status_str CLEANED = ''ToolStatus.CLEANED''"

text \<open>
  \<^verbatim>\<open>ProgressInfo\<close>, without the open-ended \<^verbatim>\<open>details\<close> mapping. The clock reading
  \<^verbatim>\<open>time.time()\<close> is a parameter of type \<open>'t\<close>.
\<close>

record 't ProgressInfo =
  current :: int
  total :: int
  progress_message :: string
  start_time :: 't
  last_update_time :: 't

definition progress_start :: "'t \<Rightarrow> 't ProgressInfo \<Rightarrow> 't ProgressInfo" where
  "progress_start now p = p\<lparr>start_time := now, last_update_time := now\<rparr>"

text \<open>
  The state of a tool that \<^verbatim>\<open>execute\<close> reads and writes: the name supplied by the
  concrete tool, the status, the progress tracker and the last error. The record is
  extensible, so a concrete tool may carry more state, which \<^verbatim>\<open>_execute\<close> may change.
\<close>

record 't tool =
  tool_name :: string
  status :: ToolStatus
  progress :: "'t ProgressInfo"
  last_error :: "exn option"

definition msg_state_incorrect :: "string \<Rightarrow> ToolStatus \<Rightarrow> string" where
  \<comment> \<open>the source's f-string: tool, the name, status incorrect, the status\<close>
  "msg_state_incorrect nm st =
     [CHR 0xE5, CHR 0xB7, CHR 0xA5, CHR 0xE5, CHR 0x85, CHR 0xB7] @ '' '' @ nm @ '' '' @
     [CHR 0xE7, CHR 0x8A, CHR 0xB6, CHR 0xE6, CHR 0x80, CHR 0x81, CHR 0xE4, CHR 0xB8, CHR 0x8D,
      CHR 0xE6, CHR 0xAD, CHR 0xA3, CHR 0xE7, CHR 0xA1, CHR 0xAE] @ '': '' @ status_str st"

text \<open>
  The body of \<^verbatim>\<open>ToolBase.execute\<close>. The abstract \<^verbatim>\<open>_execute\<close> is a parameter: given
  the arguments and the tool it returns a value or raises, and hands back the tool as
  it left it.
\<close>

definition execute_body ::
  "('a \<Rightarrow> ('t, 'z) tool_scheme \<Rightarrow> (exn + 'r) \<times> ('t, 'z) tool_scheme) \<Rightarrow>
   't \<Rightarrow> 'a \<Rightarrow> ('t, 'z) tool_scheme \<Rightarrow> (exn + 'r) \<times> ('t, 'z) tool_scheme" where
  "execute_body execute_impl now args self =
     (if status self \<noteq> READY
      then (Inl (OperationError (msg_state_incorrect (tool_name self) (status self))), self)
      else
        (let self1 = self\<lparr>status := RUNNING\<rparr>;
             self2 = self1\<lparr>progress := progress_start now (progress self1)\<rparr>
         in case execute_impl args self2 of
              (Inr result, self3) \<Rightarrow> (Inr result, self3\<lparr>status := READY\<rparr>)
            | (Inl e, self3) \<Rightarrow> (Inl e, self3\<lparr>status := ERROR, last_error := Some e\<rparr>)))"

text \<open>\<^verbatim>\<open>execute\<close> as callers see it, under \<^verbatim>\<open>@error_handler\<close>.\<close>

definition execute ::
  "('a \<Rightarrow> ('t, 'z) tool_scheme \<Rightarrow> (exn + 'r) \<times> ('t, 'z) tool_scheme) \<Rightarrow>
   't \<Rightarrow> 'a \<Rightarrow> ('t, 'z) tool_scheme \<Rightarrow> (exn + 'r returned) \<times> ('t, 'z) tool_scheme" where
  "execute execute_impl now args self = error_handler (execute_body execute_impl now args self)"

text \<open>A tool as \<^verbatim>\<open>ToolBase.__init__\<close> leaves it.\<close>

definition fresh_tool :: "string \<Rightarrow> nat tool" where
  "fresh_tool nm =
     \<lparr>tool_name = nm, status = UNINITIALIZED,
      progress = \<lparr>current = 0, total = 0, progress_message = [], start_time = 0,
                  last_update_time = 0\<rparr>,
      last_error = None\<rparr>"

text \<open>
  Two concrete \<^verbatim>\<open>_execute\<close> bodies for the examples: one returns the number of its
  arguments, the other raises a \<^verbatim>\<open>ValueError\<close>; neither touches the tool.
\<close>

definition counting_execute ::
  "string list \<Rightarrow> nat tool \<Rightarrow> (exn + nat) \<times> nat tool" where
  "counting_execute args self = (Inr (length args), self)"

definition failing_execute ::
  "string list \<Rightarrow> nat tool \<Rightarrow> (exn + nat) \<times> nat tool" where
  "failing_execute args self = (Inl (OtherException ''ValueError'' ''bad''), self)"

section \<open>Plugin manager (plugins/plugin_manager.py)\<close>

text \<open>
  Dictionaries whose order matters are association lists with distinct keys;
  \<open>AList.update\<close> overwrites in place or appends, as assignment to a Python
  dictionary does, and \<open>AList.delete\<close> is \<^verbatim>\<open>del\<close>.
\<close>

fun py_join :: "string \<Rightarrow> string list \<Rightarrow> string" where
  "py_join sep [] = []"
| "py_join sep [x] = x"
| "py_join sep (x # y # ys) = x @ sep @ py_join sep (y # ys)"

record PluginMetadata =
  meta_name :: string
  meta_version :: string
  meta_description :: string
  author :: string
  dependencies :: "(string \<times> string) list"
  required_version :: string
  load_order :: int
  enabled :: bool

text \<open>
  A plugin instance. \<^verbatim>\<open>cleanup\<close> is abstract in \<^verbatim>\<open>PluginBase\<close>; what the plugin's
  own \<^verbatim>\<open>cleanup\<close> does is given by \<open>cleanup_outcome\<close>: \<open>None\<close> when it returns,
  \<open>Some e\<close> when it raises \<open>e\<close>.
\<close>

record PluginBase =
  metadata :: PluginMetadata
  initialized :: bool
  cleanup_outcome :: "exn option"

text \<open>
  The manager's tables. \<open>cleanup_calls\<close> is not a field of the source: it records, in
  order, the plugins whose \<^verbatim>\<open>cleanup\<close> has been invoked, which is the effect of the call
  \<^verbatim>\<open>plugin.cleanup()\<close>.
\<close>

record 't PluginManager =
  plugins :: "(string \<times> PluginBase) list"
  metadata_cache :: "(string \<times> PluginMetadata) list"
  file_watchers :: "(string \<times> 't) list"
  disabled_plugins :: "string list"
  cleanup_calls :: "string list"

fun find_dependent_loop :: "string \<Rightarrow> (string \<times> PluginMetadata) list \<Rightarrow> string list" where
  "find_dependent_loop plugin_name [] = []"
| "find_dependent_loop plugin_name ((name, md) # rest) =
     (if plugin_name \<in> fst ` set (dependencies md)
      then name # find_dependent_loop plugin_name rest
      else find_dependent_loop plugin_name rest)"

definition find_dependent_plugins :: "('t, 'z) PluginManager_scheme \<Rightarrow> string \<Rightarrow> string list" where
  "find_dependent_plugins self plugin_name =
     find_dependent_loop plugin_name (metadata_cache self)"

definition msg_cannot_unload :: "string \<Rightarrow> string list \<Rightarrow> string" where
  \<comment> \<open>the source's f-string: cannot unload plugin, the name, these plugins depend on it, the list\<close>
  "msg_cannot_unload plugin_name dependents =
     [CHR 0xE6, CHR 0x97, CHR 0xA0, CHR 0xE6, CHR 0xB3, CHR 0x95, CHR 0xE5, CHR 0x8D, CHR 0xB8,
      CHR 0xE8, CHR 0xBD, CHR 0xBD, CHR 0xE6, CHR 0x8F, CHR 0x92, CHR 0xE4, CHR 0xBB, CHR 0xB6] @
     '' '' @ plugin_name @
     [CHR 0xEF, CHR 0xBC, CHR 0x8C, CHR 0xE4, CHR 0xBB, CHR 0xA5, CHR 0xE4, CHR 0xB8, CHR 0x8B,
      CHR 0xE6, CHR 0x8F, CHR 0x92, CHR 0xE4, CHR 0xBB, CHR 0xB6, CHR 0xE4, CHR 0xBE, CHR 0x9D,
      CHR 0xE8, CHR 0xB5, CHR 0x96, CHR 0xE5, CHR 0xAE, CHR 0x83] @
     '': '' @ py_join '', '' dependents"

definition msg_unload_failed :: "string \<Rightarrow> string \<Rightarrow> string" where
  \<comment> \<open>the source's f-string: unloading plugin, the name, failed, the text of the cause\<close>
  "msg_unload_failed plugin_name cause =
     [CHR 0xE5, CHR 0x8D, CHR 0xB8, CHR 0xE8, CHR 0xBD, CHR 0xBD, CHR 0xE6, CHR 0x8F, CHR 0x92,
      CHR 0xE4, CHR 0xBB, CHR 0xB6] @
     '' '' @ plugin_name @ '' '' @
     [CHR 0xE5, CHR 0xA4, CHR 0xB1, CHR 0xE8, CHR 0xB4, CHR 0xA5] @ '': '' @ cause"

text \<open>The body of the \<^verbatim>\<open>try\<close> in \<^verbatim>\<open>unload_plugin\<close>.\<close>

definition unload_plugin_try ::
  "string \<Rightarrow> ('t, 'z) PluginManager_scheme \<Rightarrow> (exn + bool) \<times> ('t, 'z) PluginManager_scheme" where
  "unload_plugin_try plugin_name self =
     (let dependents = find_dependent_plugins self plugin_name
      in if dependents \<noteq> []
         then (Inl (PluginError (msg_cannot_unload plugin_name dependents)), self)
         else
           (case map_of (plugins self) plugin_name of
              None \<Rightarrow> (Inl (OtherException ''KeyError'' plugin_name), self)
            | Some plugin \<Rightarrow>
                (let called = self\<lparr>cleanup_calls := cleanup_calls self @ [plugin_name]\<rparr>
                 in case cleanup_outcome plugin of
                      Some e \<Rightarrow> (Inl e, called)
                    | None \<Rightarrow>
                        (Inr True,
                         called\<lparr>plugins := AList.delete plugin_name (plugins called),
                                metadata_cache :=
                                  AList.delete plugin_name (metadata_cache called),
                                file_watchers :=
                                  AList.delete plugin_name (file_watchers called)\<rparr>))))"

text \<open>
  \<^verbatim>\<open>unload_plugin\<close> below the decorator: every exception of the \<^verbatim>\<open>try\<close> body is
  re-raised as a Plugin error that quotes it.
\<close>

definition unload_plugin_body ::
  "string \<Rightarrow> ('t, 'z) PluginManager_scheme \<Rightarrow> (exn + bool) \<times> ('t, 'z) PluginManager_scheme" where
  "unload_plugin_body plugin_name self =
     (if plugin_name \<in> fst ` set (plugins self) then
        (case unload_plugin_try plugin_name self of
           (Inl e, self') \<Rightarrow>
             (Inl (PluginError (msg_unload_failed plugin_name (exn_str e))), self')
         | (Inr v, self') \<Rightarrow> (Inr v, self'))
      else (Inr False, self))"

definition unload_plugin ::
  "string \<Rightarrow> ('t, 'z) PluginManager_scheme \<Rightarrow>
   (exn + bool returned) \<times> ('t, 'z) PluginManager_scheme" where
  "unload_plugin plugin_name self = error_handler (unload_plugin_body plugin_name self)"

text \<open>Plugins and a manager for the examples.\<close>

definition plugin_named :: "string \<Rightarrow> (string \<times> string) list \<Rightarrow> exn option \<Rightarrow> PluginBase" where
  "plugin_named nm deps outcome =
     \<lparr>metadata = \<lparr>meta_name = nm, meta_version = ''1.0.0'', meta_description = [],
                  author = ''Unknown'', dependencies = deps, required_version = ''1.0.0'',
                  load_order = 100, enabled = True\<rparr>,
      initialized = True, cleanup_outcome = outcome\<rparr>"

definition manager_with :: "PluginBase list \<Rightarrow> nat PluginManager" where
  "manager_with ps =
     \<lparr>plugins = map (\<lambda>p. (meta_name (metadata p), p)) ps,
      metadata_cache = map (\<lambda>p. (meta_name (metadata p), metadata p)) ps,
      file_watchers = map (\<lambda>p. (meta_name (metadata p), 0)) ps,
      disabled_plugins = [], cleanup_calls = []\<rparr>"

section \<open>Configuration (config/config_manager.py)\<close>

subsection \<open>ConfigValidator\<close>

text \<open>
  \<^verbatim>\<open>isinstance(value, type_map.get(expected_type, object))\<close>: a name outside the table
  maps to \<^verbatim>\<open>object\<close>, which every value is an instance of; \<^verbatim>\<open>bool\<close> is a subclass of
  \<^verbatim>\<open>int\<close>.
\<close>

fun isinstance_named :: "pyval \<Rightarrow> string \<Rightarrow> bool" where
  "isinstance_named v t =
     (if t = ''str'' then (case v of PStr _ \<Rightarrow> True | _ \<Rightarrow> False)
      else if t = ''int'' then (case v of PInt _ \<Rightarrow> True | PBool _ \<Rightarrow> True | _ \<Rightarrow> False)
      else if t = ''float'' then (case v of PFloat _ _ \<Rightarrow> True | _ \<Rightarrow> False)
      else if t = ''bool'' then (case v of PBool _ \<Rightarrow> True | _ \<Rightarrow> False)
      else if t = ''list'' then (case v of PList _ \<Rightarrow> True | _ \<Rightarrow> False)
      else if t = ''dict'' then (case v of PDict _ \<Rightarrow> True | _ \<Rightarrow> False)
      else True)"

definition msg_missing_item :: "string \<Rightarrow> string" where
  \<comment> \<open>the source's f-string: required configuration item missing, the key\<close>
  "msg_missing_item key =
     [CHR 0xE7, CHR 0xBC, CHR 0xBA, CHR 0xE5, CHR 0xB0, CHR 0x91, CHR 0xE5, CHR 0xBF, CHR 0x85,
      CHR 0xE9, CHR 0x9C, CHR 0x80, CHR 0xE7, CHR 0x9A, CHR 0x84, CHR 0xE9, CHR 0x85, CHR 0x8D,
      CHR 0xE7, CHR 0xBD, CHR 0xAE, CHR 0xE9, CHR 0xA1, CHR 0xB9] @ '': '' @ key"

definition msg_wrong_type :: "string \<Rightarrow> string \<Rightarrow> string" where
  \<comment> \<open>the source's f-string: configuration item, the key, has the wrong type, expected, the type\<close>
  "msg_wrong_type key expected_type =
     [CHR 0xE9, CHR 0x85, CHR 0x8D, CHR 0xE7, CHR 0xBD, CHR 0xAE, CHR 0xE9, CHR 0xA1, CHR 0xB9] @
     '' '' @ key @ '' '' @
     [CHR 0xE7, CHR 0xB1, CHR 0xBB, CHR 0xE5, CHR 0x9E, CHR 0x8B, CHR 0xE9, CHR 0x94, CHR 0x99,
      CHR 0xE8, CHR 0xAF, CHR 0xAF, CHR 0xEF, CHR 0xBC, CHR 0x8C, CHR 0xE6, CHR 0x9C, CHR 0x9F,
      CHR 0xE6, CHR 0x9C, CHR 0x9B] @ '' '' @ expected_type"

definition msg_not_allowed :: "string \<Rightarrow> string" where
  \<comment> \<open>the source's f-string: the value of configuration item, the key, must be one of;
      the printed list of allowed values that follows in the source is left out\<close>
  "msg_not_allowed key =
     [CHR 0xE9, CHR 0x85, CHR 0x8D, CHR 0xE7, CHR 0xBD, CHR 0xAE, CHR 0xE9, CHR 0xA1, CHR 0xB9] @
     '' '' @ key @ '' '' @
     [CHR 0xE7, CHR 0x9A, CHR 0x84, CHR 0xE5, CHR 0x80, CHR 0xBC, CHR 0xE5, CHR 0xBF, CHR 0x85,
      CHR 0xE9, CHR 0xA1, CHR 0xBB, CHR 0xE6, CHR 0x98, CHR 0xAF, CHR 0xE4, CHR 0xBB, CHR 0xA5,
      CHR 0xE4, CHR 0xB8, CHR 0x8B, CHR 0xE4, CHR 0xB9, CHR 0x8B, CHR 0xE4, CHR 0xB8, CHR 0x80] @
     '': ''"

definition msg_validation_failed :: string where
  \<comment> \<open>the source's message: configuration validation failed\<close>
  "msg_validation_failed =
     [CHR 0xE9, CHR 0x85, CHR 0x8D, CHR 0xE7, CHR 0xBD, CHR 0xAE, CHR 0xE9, CHR 0xAA, CHR 0x8C,
      CHR 0xE8, CHR 0xAF, CHR 0x81, CHR 0xE5, CHR 0xA4, CHR 0xB1, CHR 0xE8, CHR 0xB4, CHR 0xA5]"

text \<open>
  \<^verbatim>\<open>ConfigValidator._validate_type\<close>. The expected type is whatever the schema holds
  under \<^verbatim>\<open>"type"\<close>; a list or a dictionary there cannot be looked up in the table.
\<close>

fun validate_type :: "pyval \<Rightarrow> pyval \<Rightarrow> string \<Rightarrow> exn + unit" where
  "validate_type v (PStr expected_type) key =
     (if \<not> isinstance_named v expected_type
      then Inl (ValidationError (msg_wrong_type key expected_type))
      else Inr ())"
| "validate_type v (PList xs) key = Inl type_error"
| "validate_type v (PDict d) key = Inl type_error"
| "validate_type v expected_type key = Inr ()"

text \<open>\<^verbatim>\<open>ToolBase._validate_type\<close>: the same table, an Operation error on a mismatch.\<close>

fun tool_validate_type :: "pyval \<Rightarrow> pyval \<Rightarrow> string \<Rightarrow> exn + unit" where
  "tool_validate_type v (PStr expected_type) key =
     (if \<not> isinstance_named v expected_type
      then Inl (OperationError (msg_wrong_type key expected_type))
      else Inr ())"
| "tool_validate_type v (PList xs) key = Inl type_error"
| "tool_validate_type v (PDict d) key = Inl type_error"
| "tool_validate_type v expected_type key = Inr ()"

definition validate_values :: "pyval \<Rightarrow> pyval \<Rightarrow> string \<Rightarrow> exn + unit" where
  "validate_values v valid_values key =
     (case py_contains valid_values v of
        Inl e \<Rightarrow> Inl e
      | Inr found \<Rightarrow> if \<not> found then Inl (ValidationError (msg_not_allowed key)) else Inr ())"

text \<open>
  \<^verbatim>\<open>ConfigValidator._validate_dict\<close>, as a loop over the items of the schema
  (\<open>validate_items\<close>) whose body for a key that is present is \<open>validate_entry\<close>. A
  nested \<^verbatim>\<open>"schema"\<close> that is not a dictionary has no \<^verbatim>\<open>items\<close>.
\<close>

function validate_items :: "pyval \<Rightarrow> (string \<times> pyval) list \<Rightarrow> exn + unit"
  and validate_entry :: "pyval \<Rightarrow> string \<Rightarrow> pyval \<Rightarrow> exn + unit" where
  "validate_items config [] = Inr ()"
| "validate_items config ((key, value_schema) # rest) =
     (case py_contains config (PStr key) of
        Inl e \<Rightarrow> Inl e
      | Inr present \<Rightarrow>
          if \<not> present then
            (if (case value_schema of
                   PDict vs \<Rightarrow>
                     py_truthy (case map_of vs ''required'' of None \<Rightarrow> PBool True | Some r \<Rightarrow> r)
                 | _ \<Rightarrow> False)
             then Inl (ValidationError (msg_missing_item key))
             else validate_items config rest)
          else
            (case py_getitem config key of
               Inl e \<Rightarrow> Inl e
             | Inr v \<Rightarrow>
                 (case validate_entry v key value_schema of
                    Inl e \<Rightarrow> Inl e
                  | Inr u \<Rightarrow> validate_items config rest)))"
| "validate_entry v key (PDict vs) =
     (case (case map_of vs ''type'' of
              None \<Rightarrow> Inr ()
            | Some expected_type \<Rightarrow> validate_type v expected_type key) of
        Inl e \<Rightarrow> Inl e
      | Inr u \<Rightarrow>
          (case (case map_of vs ''values'' of
                   None \<Rightarrow> Inr ()
                 | Some valid_values \<Rightarrow> validate_values v valid_values key) of
             Inl e \<Rightarrow> Inl e
           | Inr u \<Rightarrow>
               (case map_of vs ''schema'' of
                  None \<Rightarrow> Inr ()
                | Some (PDict sub) \<Rightarrow> validate_items v sub
                | Some other \<Rightarrow> Inl attribute_error)))"
| "validate_entry v key PNone = validate_type v PNone key"
| "validate_entry v key (PBool b) = validate_type v (PBool b) key"
| "validate_entry v key (PInt i) = validate_type v (PInt i) key"
| "validate_entry v key (PFloat n d) = validate_type v (PFloat n d) key"
| "validate_entry v key (PStr s) = validate_type v (PStr s) key"
| "validate_entry v key (PList xs) = validate_type v (PList xs) key"
  by pat_completeness auto
termination
proof (relation "measure (\<lambda>x. case x of
         Inl (config, items) \<Rightarrow> 2 * size (PDict items)
       | Inr (v, key, value_schema) \<Rightarrow> 2 * size value_schema + 1)")
  have look: "map_of vs k = Some w \<Longrightarrow> size w < size (PDict vs)"
    for vs :: "(string \<times> pyval) list" and k w
    by (induction vs) (auto split: if_splits)
  fix v :: pyval and key :: string and vs sub :: "(string \<times> pyval) list"
    and x y :: unit and xa :: "unit" and x2 :: pyval
  assume "map_of vs ''schema'' = Some x2" and "x2 = PDict sub"
  then show "(Inl (v, sub), Inr (v, key, PDict vs)) \<in> measure (\<lambda>x. case x of
         Inl (config, items) \<Rightarrow> 2 * size (PDict items)
       | Inr (v, key, value_schema) \<Rightarrow> 2 * size value_schema + 1)"
    using look [of vs "''schema''" "PDict sub"] by simp
qed auto

definition validate :: "pyval \<Rightarrow> pyval \<Rightarrow> exn + bool" where
  \<comment> \<open>\<^verbatim>\<open>ConfigValidator.validate\<close>: only a Validation error is turned into \<open>False\<close>\<close>
  "validate schema config =
     (case (case schema of
              PDict items \<Rightarrow> validate_items config items
            | _ \<Rightarrow> Inl attribute_error) of
        Inr u \<Rightarrow> Inr True
      | Inl (ValidationError m) \<Rightarrow> Inr False
      | Inl e \<Rightarrow> Inl e)"

subsection \<open>ConfigManager\<close>

definition get_config_schema :: pyval where
  "get_config_schema = PDict
     [(''ui'', PDict
        [(''type'', PStr ''dict''),
         (''schema'', PDict
            [(''theme'', PDict
                [(''type'', PStr ''str''),
                 (''values'', PList [PStr ''dark'', PStr ''light''])]),
             (''language'', PDict
                [(''type'', PStr ''str''),
                 (''values'', PList [PStr ''zh_CN'', PStr ''en_US''])]),
             (''window_size'', PDict
                [(''type'', PStr ''dict''),
                 (''schema'', PDict
                    [(''width'', PDict [(''type'', PStr ''int'')]),
                     (''height'', PDict [(''type'', PStr ''int'')])])])])]),
      (''injection'', PDict
        [(''type'', PStr ''dict''),
         (''schema'', PDict
            [(''default_method'', PDict
                [(''type'', PStr ''str''),
                 (''values'', PList [PStr ''new_section'', PStr ''code_cave'',
                                      PStr ''existing_section''])]),
             (''encryption_type'', PDict
                [(''type'', PStr ''str''),
                 (''values'', PList [PStr ''xor'', PStr ''custom_xor'', PStr ''rc4'',
                                      PStr ''aes''])]),
             (''obfuscation_level'', PDict
                [(''type'', PStr ''str''),
                 (''values'', PList [PStr ''low'', PStr ''medium'', PStr ''high'',
                                      PStr ''extreme''])])])]),
      (''process'', PDict
        [(''type'', PStr ''dict''),
         (''schema'', PDict
            [(''refresh_interval'', PDict [(''type'', PStr ''int'')]),
             (''show_system_processes'', PDict [(''type'', PStr ''bool'')])])]),
      (''security'', PDict
        [(''type'', PStr ''dict''),
         (''schema'', PDict
            [(''backup_files'', PDict [(''type'', PStr ''bool'')]),
             (''verify_signatures'', PDict [(''type'', PStr ''bool'')]),
             (''log_operations'', PDict [(''type'', PStr ''bool'')])])]),
      (''plugins'', PDict
        [(''type'', PStr ''dict''),
         (''schema'', PDict
            [(''enabled'', PDict [(''type'', PStr ''list'')]),
             (''auto_update'', PDict [(''type'', PStr ''bool'')])])])]"

definition default_items :: "(string \<times> pyval) list" where
  \<comment> \<open>the items of the dictionary \<^verbatim>\<open>_get_default_config\<close> returns\<close>
  "default_items =
     [(''ui'', PDict
        [(''theme'', PStr ''dark''),
         (''language'', PStr ''zh_CN''),
         (''window_size'', PDict [(''width'', PInt 1200), (''height'', PInt 800)])]),
      (''injection'', PDict
        [(''default_method'', PStr ''new_section''),
         (''encryption_type'', PStr ''xor''),
         (''obfuscation_level'', PStr ''medium'')]),
      (''process'', PDict
        [(''refresh_interval'', PInt 5),
         (''show_system_processes'', PBool False)]),
      (''security'', PDict
        [(''backup_files'', PBool True),
         (''verify_signatures'', PBool True),
         (''log_operations'', PBool True)]),
      (''plugins'', PDict
        [(''enabled'', PList []),
         (''auto_update'', PBool True)])]"

definition get_default_config :: pyval where
  "get_default_config = PDict default_items"

definition current_version :: string where
  "current_version = ''1.0.0''"

definition validate_version :: "pyval \<Rightarrow> bool" where
  "validate_version version = py_eq version (PStr current_version)"

definition startswith_underscore :: "string \<Rightarrow> bool" where
  \<comment> \<open>\<^verbatim>\<open>key.startswith('_')\<close>\<close>
  "startswith_underscore key = (take 1 key = ''_'')"

text \<open>
  \<^verbatim>\<open>_migrate_config\<close>: start from the defaults and walk the items of the old
  configuration; \<^verbatim>\<open>items\<close> exists on a dictionary only.
\<close>

definition migrate_step :: "string \<times> pyval \<Rightarrow> (string \<times> pyval) list \<Rightarrow> (string \<times> pyval) list" where
  "migrate_step kv new_config =
     (if fst kv \<in> fst ` set new_config \<and> \<not> startswith_underscore (fst kv)
      then AList.update (fst kv) (snd kv) new_config
      else new_config)"

fun migrate_config :: "pyval \<Rightarrow> exn + pyval" where
  "migrate_config (PDict old_config) = Inr (PDict (fold migrate_step old_config default_items))"
| "migrate_config other = Inl attribute_error"

text \<open>
  The settings file: absent, present but not parseable as JSON, or holding a JSON
  value. Writing the file is assumed to succeed.
\<close>

datatype settings_file = Absent | Unreadable | Stored pyval

record config_manager =
  config :: pyval
  settings :: settings_file

text \<open>
  \<^verbatim>\<open>save_config\<close> is decorated as well, so a failure inside it (a configuration that
  is no dictionary has no usable \<^verbatim>\<open>copy\<close>) never reaches \<^verbatim>\<open>load_config\<close>.
\<close>

definition save_config :: "config_manager \<Rightarrow> config_manager" where
  "save_config self =
     (case config self of
        PDict items \<Rightarrow>
          self\<lparr>settings := Stored (PDict (AList.update ''_version'' (PStr current_version) items))\<rparr>
      | _ \<Rightarrow> self)"

text \<open>The body of the \<^verbatim>\<open>try\<close> in \<^verbatim>\<open>load_config\<close>, in its two halves.\<close>

definition load_config_read :: "config_manager \<Rightarrow> exn + config_manager" where
  "load_config_read self =
     (case settings self of
        Absent \<Rightarrow> Inr (self\<lparr>config := get_default_config\<rparr>)
      | Unreadable \<Rightarrow> Inl (OtherException ''JSONDecodeError'' [])
      | Stored loaded_config \<Rightarrow>
          (case loaded_config of
             PDict items \<Rightarrow>
               if validate_version
                    (case map_of items ''_version'' of None \<Rightarrow> PStr ''0.0.0'' | Some v \<Rightarrow> v)
               then Inr (self\<lparr>config := loaded_config\<rparr>)
               else (case migrate_config loaded_config of
                       Inl e \<Rightarrow> Inl e
                     | Inr new_config \<Rightarrow> Inr (self\<lparr>config := new_config\<rparr>))
           | _ \<Rightarrow> Inl attribute_error))"

definition load_config_try :: "config_manager \<Rightarrow> (exn + unit) \<times> config_manager" where
  "load_config_try self =
     (case load_config_read self of
        Inl e \<Rightarrow> (Inl e, self)
      | Inr self1 \<Rightarrow>
          (case validate get_config_schema (config self1) of
             Inl e \<Rightarrow> (Inl e, self1)
           | Inr valid \<Rightarrow>
               if \<not> valid then (Inl (ValidationError msg_validation_failed), self1)
               else (Inr (), save_config self1)))"

definition load_config_body :: "config_manager \<Rightarrow> (exn + unit) \<times> config_manager" where
  "load_config_body self =
     (case load_config_try self of
        (Inl e, self') \<Rightarrow> (Inl e, self'\<lparr>config := get_default_config\<rparr>)
      | (Inr u, self') \<Rightarrow> (Inr u, self'))"

definition load_config :: "config_manager \<Rightarrow> (exn + unit returned) \<times> config_manager" where
  "load_config self = error_handler (load_config_body self)"

text \<open>
  Stored files for the examples: a stale file with two keys of the default schema, an
  unknown key and a private key; and a stale file whose \<^verbatim>\<open>ui\<close> entry is a number.
\<close>

definition stale_settings :: "(string \<times> pyval) list" where
  "stale_settings =
     [(''_version'', PStr ''0.9.0''),
      (''ui'', PDict
        [(''theme'', PStr ''light''),
         (''language'', PStr ''en_US''),
         (''window_size'', PDict [(''width'', PInt 800), (''height'', PInt 600)])]),
      (''obsolete'', PInt 1),
      (''process'', PDict
        [(''refresh_interval'', PInt 10),
         (''show_system_processes'', PBool True)]),
      (''_private'', PInt 2)]"

definition migrated_settings :: "(string \<times> pyval) list" where
  "migrated_settings =
     [(''ui'', PDict
        [(''theme'', PStr ''light''),
         (''language'', PStr ''en_US''),
         (''window_size'', PDict [(''width'', PInt 800), (''height'', PInt 600)])]),
      (''injection'', PDict
        [(''default_method'', PStr ''new_section''),
         (''encryption_type'', PStr ''xor''),
         (''obfuscation_level'', PStr ''medium'')]),
      (''process'', PDict
        [(''refresh_interval'', PInt 10),
         (''show_system_processes'', PBool True)]),
      (''security'', PDict
        [(''backup_files'', PBool True),
         (''verify_signatures'', PBool True),
         (''log_operations'', PBool True)]),
      (''plugins'', PDict
        [(''enabled'', PList []),
         (''auto_update'', PBool True)])]"

definition broken_settings :: "(string \<times> pyval) list" where
  "broken_settings = [(''_version'', PStr ''0.9.0''), (''ui'', PInt 5)]"

text \<open>
  \<open>config_with path v c\<close> is the configuration \<open>c\<close> after the nested assignment
  \<^verbatim>\<open>c[k1][k2]...[kn] = v\<close> along \<open>path\<close>, a missing dictionary on the way being
  created; where something that is no dictionary is in the way, \<open>c\<close> is left as it is.
  It builds the configurations in which a given key holds a given value.
\<close>

fun config_with :: "string list \<Rightarrow> pyval \<Rightarrow> pyval \<Rightarrow> pyval" where
  "config_with [] v c = v"
| "config_with (k # ks) v (PDict d) =
     PDict (AList.update k
              (config_with ks v (case map_of d k of Some c' \<Rightarrow> c' | None \<Rightarrow> PDict [])) d)"
| "config_with (k # ks) v c = c"

section \<open>Process injector (tools/process_injector.py)\<close>

text \<open>
  The native calls the injector makes through \<^verbatim>\<open>ctypes.windll.kernel32\<close>, with the
  arguments that vary. A run of the tool is observed through the list of calls it has
  made, in order.
\<close>

datatype call =
    OpenProcess int bool int
  | VirtualAllocEx int int nat int int
  | WriteProcessMemory int int "byte list" nat
  | CreateRemoteThread int int
  | OpenThread int bool int
  | QueueUserAPC int int int
  | SuspendThread int
  | GetThreadContext int
  | ResumeThread int
  | CloseHandle int

text \<open>
  What lies outside the program: the file system, the process table, and the
  operating system's answer to each native call, which may depend on the calls made
  before and may itself be an exception.
\<close>

record os_env =
  path_exists :: "string \<Rightarrow> bool"
  pid_exists :: "int \<Rightarrow> bool"
  read_file :: "string \<Rightarrow> exn + byte list"
  kernel32 :: "call list \<Rightarrow> call \<Rightarrow> exn + int"
  process_threads :: "call list \<Rightarrow> int \<Rightarrow> exn + int list"

text \<open>
  A step of the injector takes the calls made so far and returns a value or raises,
  together with the calls made after it. The combinators are Python's sequencing,
  \<^verbatim>\<open>raise\<close>, \<^verbatim>\<open>try ... finally\<close> and \<^verbatim>\<open>try ... except Exception\<close>.
\<close>

type_synonym 'a step = "call list \<Rightarrow> (exn + 'a) \<times> call list"

definition ret :: "'a \<Rightarrow> 'a step" where
  "ret v = (\<lambda>tr. (Inr v, tr))"

definition raise :: "exn \<Rightarrow> 'a step" where
  "raise e = (\<lambda>tr. (Inl e, tr))"

definition lift :: "exn + 'a \<Rightarrow> 'a step" where
  "lift r = (\<lambda>tr. (r, tr))"

definition and_then :: "'a step \<Rightarrow> ('a \<Rightarrow> 'b step) \<Rightarrow> 'b step" where
  "and_then m f = (\<lambda>tr. case m tr of (Inl e, tr') \<Rightarrow> (Inl e, tr') | (Inr v, tr') \<Rightarrow> f v tr')"

definition try_finally :: "'a step \<Rightarrow> 'b step \<Rightarrow> 'a step" where
  "try_finally m fin =
     (\<lambda>tr. case m tr of
             (r, tr') \<Rightarrow>
               (case fin tr' of (Inl e, tr'') \<Rightarrow> (Inl e, tr'') | (Inr u, tr'') \<Rightarrow> (r, tr'')))"

definition try_except :: "'a step \<Rightarrow> (exn \<Rightarrow> 'a step) \<Rightarrow> 'a step" where
  "try_except m handler =
     (\<lambda>tr. case m tr of (Inl e, tr') \<Rightarrow> handler e tr' | (Inr v, tr') \<Rightarrow> (Inr v, tr'))"

definition native :: "os_env \<Rightarrow> call \<Rightarrow> int step" where
  "native env c = (\<lambda>tr. (kernel32 env tr c, tr @ [c]))"

definition threads_of :: "os_env \<Rightarrow> int \<Rightarrow> int list step" where
  \<comment> \<open>the thread ids of \<^verbatim>\<open>psutil.Process(pid).threads()\<close>\<close>
  "threads_of env pid = (\<lambda>tr. (process_threads env tr pid, tr))"

definition PROCESS_ALL_ACCESS :: int where "PROCESS_ALL_ACCESS = 0x1F0FFF"
definition MEM_COMMIT :: int where "MEM_COMMIT = 0x1000"
definition MEM_RESERVE :: int where "MEM_RESERVE = 0x2000"
definition PAGE_EXECUTE_READWRITE :: int where "PAGE_EXECUTE_READWRITE = 0x40"

fun nat_digits :: "nat \<Rightarrow> string" where
  "nat_digits n =
     (if n < 10 then [char_of (48 + n)]
      else nat_digits (n div 10) @ [char_of (48 + n mod 10)])"

definition py_str_int :: "int \<Rightarrow> string" where
  "py_str_int i = (if i < 0 then ''-'' @ nat_digits (nat (- i)) else nat_digits (nat i))"

definition msg_shellcode_missing :: "string \<Rightarrow> string" where
  \<comment> \<open>the source's f-string: shellcode file does not exist, the path\<close>
  "msg_shellcode_missing path =
     ''Shellcode'' @
     [CHR 0xE6, CHR 0x96, CHR 0x87, CHR 0xE4, CHR 0xBB, CHR 0xB6, CHR 0xE4, CHR 0xB8, CHR 0x8D,
      CHR 0xE5, CHR 0xAD, CHR 0x98, CHR 0xE5, CHR 0x9C, CHR 0xA8] @ '': '' @ path"

definition msg_no_process :: "int \<Rightarrow> string" where
  \<comment> \<open>the source's f-string: process does not exist, the pid\<close>
  "msg_no_process pid =
     [CHR 0xE8, CHR 0xBF, CHR 0x9B, CHR 0xE7, CHR 0xA8, CHR 0x8B, CHR 0xE4, CHR 0xB8, CHR 0x8D,
      CHR 0xE5, CHR 0xAD, CHR 0x98, CHR 0xE5, CHR 0x9C, CHR 0xA8] @ '': '' @ py_str_int pid"

definition msg_cannot_open :: "int \<Rightarrow> string" where
  \<comment> \<open>the source's f-string: cannot open process, the pid\<close>
  "msg_cannot_open pid =
     [CHR 0xE6, CHR 0x97, CHR 0xA0, CHR 0xE6, CHR 0xB3, CHR 0x95, CHR 0xE6, CHR 0x89, CHR 0x93,
      CHR 0xE5, CHR 0xBC, CHR 0x80, CHR 0xE8, CHR 0xBF, CHR 0x9B, CHR 0xE7, CHR 0xA8, CHR 0x8B] @
     '': '' @ py_str_int pid"

definition msg_alloc_failed :: string where
  \<comment> \<open>the source's message: memory allocation failed\<close>
  "msg_alloc_failed =
     [CHR 0xE5, CHR 0x86, CHR 0x85, CHR 0xE5, CHR 0xAD, CHR 0x98, CHR 0xE5, CHR 0x88, CHR 0x86,
      CHR 0xE9, CHR 0x85, CHR 0x8D, CHR 0xE5, CHR 0xA4, CHR 0xB1, CHR 0xE8, CHR 0xB4, CHR 0xA5]"

definition msg_write_failed :: string where
  \<comment> \<open>the source's message: writing memory failed\<close>
  "msg_write_failed =
     [CHR 0xE5, CHR 0x86, CHR 0x99, CHR 0xE5, CHR 0x85, CHR 0xA5, CHR 0xE5, CHR 0x86, CHR 0x85,
      CHR 0xE5, CHR 0xAD, CHR 0x98, CHR 0xE5, CHR 0xA4, CHR 0xB1, CHR 0xE8, CHR 0xB4, CHR 0xA5]"

text \<open>
  The injector reads its configuration where it needs it, with
  \<^verbatim>\<open>self.config[section][key]\<close>; a lookup that raises does so at that point of the run.
\<close>

definition config_get :: "tool_config \<Rightarrow> string \<Rightarrow> string \<Rightarrow> pyval step" where
  "config_get cfg sect key = lift (config_lookup cfg sect key)"

definition encrypt_shellcode :: "tool_config \<Rightarrow> byte list \<Rightarrow> byte list step" where
  "encrypt_shellcode cfg shellcode =
     and_then (config_get cfg ''injection'' ''encryption'')
       (\<lambda>method. if py_eq method (PStr ''xor'') then ret (map (\<lambda>b. b XOR 0xAA) shellcode)
                  else ret shellcode)"

definition hide_thread :: "int \<Rightarrow> unit step" where
  \<comment> \<open>\<^verbatim>\<open>_hide_thread\<close>, a stub without effect\<close>
  "hide_thread h_process = ret ()"

definition protect_memory :: "int \<Rightarrow> int \<Rightarrow> nat \<Rightarrow> unit step" where
  \<comment> \<open>\<^verbatim>\<open>_protect_memory\<close>, a stub without effect\<close>
  "protect_memory h_process addr sz = ret ()"

text \<open>
  The four methods. Each of the first three catches every exception, also the one of
  a configuration lookup, and answers \<open>False\<close>.
\<close>

definition classic_injection :: "os_env \<Rightarrow> tool_config \<Rightarrow> int \<Rightarrow> int \<Rightarrow> bool step" where
  "classic_injection env cfg h_process shellcode_addr =
     try_except
       (and_then (native env (CreateRemoteThread h_process shellcode_addr))
          (\<lambda>created.
             if created = 0 then ret False
             else and_then (config_get cfg ''protection'' ''hide_thread'')
                    (\<lambda>hide. and_then (if py_truthy hide then hide_thread h_process else ret ())
                       (\<lambda>u. ret True))))
       (\<lambda>e. ret False)"

fun open_threads :: "os_env \<Rightarrow> int list \<Rightarrow> int list step" where
  "open_threads env [] = ret []"
| "open_threads env (thread_id # rest) =
     and_then (native env (OpenThread 0x0020 False thread_id))
       (\<lambda>h_thread. and_then (open_threads env rest)
          (\<lambda>hs. ret (if h_thread \<noteq> 0 then h_thread # hs else hs)))"

fun queue_apcs :: "os_env \<Rightarrow> int \<Rightarrow> int list \<Rightarrow> bool \<Rightarrow> bool step" where
  "queue_apcs env shellcode_addr [] success = ret success"
| "queue_apcs env shellcode_addr (h_thread # rest) success =
     and_then (native env (QueueUserAPC shellcode_addr h_thread 0))
       (\<lambda>queued. and_then (native env (CloseHandle h_thread))
          (\<lambda>closed. queue_apcs env shellcode_addr rest (success \<or> queued \<noteq> 0)))"

definition apc_injection :: "os_env \<Rightarrow> int \<Rightarrow> int \<Rightarrow> int \<Rightarrow> bool step" where
  "apc_injection env h_process shellcode_addr pid =
     try_except
       (and_then (threads_of env pid)
          (\<lambda>thread_ids. and_then (open_threads env thread_ids)
             (\<lambda>threads. if threads = [] then ret False
                        else queue_apcs env shellcode_addr threads False)))
       (\<lambda>e. ret False)"

fun first_thread :: "os_env \<Rightarrow> int list \<Rightarrow> int option step" where
  "first_thread env [] = ret None"
| "first_thread env (thread_id # rest) =
     and_then (native env (OpenThread 0x0022 False thread_id))
       (\<lambda>h_thread. if h_thread \<noteq> 0 then ret (Some h_thread) else first_thread env rest)"

definition thread_hijack ::
  "os_env \<Rightarrow> tool_config \<Rightarrow> int \<Rightarrow> int \<Rightarrow> int \<Rightarrow> bool step" where
  "thread_hijack env cfg h_process shellcode_addr pid =
     try_except
       (and_then (threads_of env pid)
          (\<lambda>thread_ids. and_then (first_thread env thread_ids)
             (\<lambda>target_thread.
                case target_thread of
                  None \<Rightarrow> ret False
                | Some h_thread \<Rightarrow>
                    try_finally
                      (and_then (native env (SuspendThread h_thread))
                         (\<lambda>suspended.
                            if suspended = - 1 then ret False
                            else and_then (native env (GetThreadContext h_thread))
                                   (\<lambda>got.
                                      if got = 0 then ret False
                                      else and_then (native env (ResumeThread h_thread))
                                             (\<lambda>resumed.
                                                and_then
                                                  (config_get cfg ''protection'' ''hide_thread'')
                                                  (\<lambda>hide.
                                                     and_then
                                                       (if py_truthy hide
                                                        then hide_thread h_process else ret ())
                                                       (\<lambda>u. ret True))))))
                      (native env (CloseHandle h_thread)))))
       (\<lambda>e. ret False)"

definition module_injection :: "int \<Rightarrow> int \<Rightarrow> bool step" where
  "module_injection h_process shellcode_addr = ret False"

text \<open>
  \<^verbatim>\<open>inject\<close>: first the part inside \<^verbatim>\<open>try ... finally\<close>, which runs with the open
  process handle, then the whole body, then the decorated method. The configuration
  is what \<^verbatim>\<open>self.config\<close> holds at the call. The progress updates assign fields of the
  progress tracker, make no native call and are left out.
\<close>

definition inject_with_handle ::
  "os_env \<Rightarrow> tool_config \<Rightarrow> int \<Rightarrow> int \<Rightarrow> byte list \<Rightarrow> bool step" where
  "inject_with_handle env cfg pid h_process shellcode0 =
     and_then (config_get cfg ''injection'' ''encryption'')
       (\<lambda>encryption.
          and_then (if \<not> py_eq encryption (PStr ''none'')
                    then encrypt_shellcode cfg shellcode0 else ret shellcode0)
            (\<lambda>shellcode.
               and_then
                 (native env (VirtualAllocEx h_process 0 (length shellcode)
                                (MEM_COMMIT OR MEM_RESERVE) PAGE_EXECUTE_READWRITE))
                 (\<lambda>shellcode_addr.
                    if shellcode_addr = 0 then raise (OperationError msg_alloc_failed)
                    else and_then
                           (native env (WriteProcessMemory h_process shellcode_addr shellcode
                                          (length shellcode)))
                           (\<lambda>written.
                              if written = 0 then raise (OperationError msg_write_failed)
                              else and_then (config_get cfg ''injection'' ''method'')
                                     (\<lambda>method.
                                        and_then
                                          (if py_eq method (PStr ''classic'')
                                             then classic_injection env cfg h_process
                                                    shellcode_addr
                                           else if py_eq method (PStr ''apc'')
                                             then apc_injection env h_process shellcode_addr pid
                                           else if py_eq method (PStr ''thread_hijack'')
                                             then thread_hijack env cfg h_process
                                                    shellcode_addr pid
                                           else module_injection h_process shellcode_addr)
                                          (\<lambda>success.
                                             if \<not> success
                                             then raise (OperationError msg_injection_failed)
                                             else and_then
                                                    (config_get cfg ''protection''
                                                       ''protect_memory'')
                                                    (\<lambda>protect.
                                                       and_then
                                                         (if py_truthy protect
                                                          then protect_memory h_process
                                                                 shellcode_addr
                                                                 (length shellcode)
                                                          else ret ())
                                                         (\<lambda>u. ret True))))))))"

definition inject_body :: "os_env \<Rightarrow> tool_config \<Rightarrow> int \<Rightarrow> string \<Rightarrow> bool step" where
  "inject_body env cfg pid shellcode_file =
     try_except
       (if \<not> path_exists env shellcode_file
          then raise (OperationError (msg_shellcode_missing shellcode_file))
        else if \<not> pid_exists env pid
          then raise (OperationError (msg_no_process pid))
        else and_then (lift (read_file env shellcode_file))
               (\<lambda>shellcode.
                  and_then (native env (OpenProcess PROCESS_ALL_ACCESS False pid))
                    (\<lambda>h_process.
                       if h_process = 0 then raise (OperationError (msg_cannot_open pid))
                       else try_finally
                              (inject_with_handle env cfg pid h_process shellcode)
                              (native env (CloseHandle h_process)))))
       (\<lambda>e. raise e)"

definition inject ::
  "os_env \<Rightarrow> tool_config \<Rightarrow> int \<Rightarrow> string \<Rightarrow> (exn + bool returned) \<times> call list" where
  "inject env cfg pid shellcode_file = error_handler (inject_body env cfg pid shellcode_file [])"

text \<open>A step only ever adds calls to those made before it.\<close>

definition extends :: "'a step \<Rightarrow> bool" where
  "extends m \<longleftrightarrow> (\<forall>tr. \<exists>more. snd (m tr) = tr @ more)"

text \<open>
  Two environments for the examples. In both the file and the process exist and
  \<^verbatim>\<open>OpenProcess\<close> answers with the handle 77; in the first every later call succeeds,
  in the second \<^verbatim>\<open>VirtualAllocEx\<close> answers 0.
\<close>

definition cooperative_env :: os_env where
  "cooperative_env =
     \<lparr>path_exists = (\<lambda>p. True), pid_exists = (\<lambda>p. True),
      read_file = (\<lambda>p. Inr [0x90, 0xC3]),
      kernel32 = (\<lambda>tr c. case c of
                    OpenProcess a i p \<Rightarrow> Inr 77
                  | VirtualAllocEx h a n t p \<Rightarrow> Inr 0x4000
                  | _ \<Rightarrow> Inr 1),
      process_threads = (\<lambda>tr p. Inr [])\<rparr>"

definition failing_alloc_env :: os_env where
  "failing_alloc_env =
     \<lparr>path_exists = (\<lambda>p. True), pid_exists = (\<lambda>p. True),
      read_file = (\<lambda>p. Inr [0x90, 0xC3]),
      kernel32 = (\<lambda>tr c. case c of
                    OpenProcess a i p \<Rightarrow> Inr 77
                  | VirtualAllocEx h a n t p \<Rightarrow> Inr 0
                  | _ \<Rightarrow> Inr 1),
      process_threads = (\<lambda>tr p. Inr [])\<rparr>"

text \<open>
  The configuration \<^verbatim>\<open>ProcessInjector._initialize\<close> names as its default, which a
  caller may pass to \<^verbatim>\<open>initialize\<close>.
\<close>

definition classic_config :: tool_config where
  "classic_config = ConfigDict
     [(''injection'', PDict [(''method'', PStr ''classic''), (''encryption'', PStr ''xor'')]),
      (''process'', PDict [(''filter_system'', PBool True), (''target_arch'', PStr ''any'')]),
      (''protection'', PDict
         [(''hide_thread'', PBool True), (''clear_header'', PBool True),
          (''protect_memory'', PBool True)])]"

section \<open>Auxiliary facts\<close>

lemma handle_error_simps [simp]:
  "handle_error (ValidationError m) =
     Inr \<lparr>res_status = ''error'', res_error_code = ''ERR_VALIDATION'', res_message = m,
          res_type = ''validation'', res_severity = ''WARNING'',
          res_category = ''VALIDATION''\<rparr>"
  "handle_error (SecurityError m) =
     Inr \<lparr>res_status = ''error'', res_error_code = ''ERR_SECURITY'', res_message = m,
          res_type = ''security'', res_severity = ''CRITICAL'',
          res_category = ''SECURITY''\<rparr>"
  "handle_error (PluginError m) =
     Inr \<lparr>res_status = ''error'', res_error_code = ''ERR_PLUGIN'', res_message = m,
          res_type = ''plugin'', res_severity = ''ERROR'', res_category = ''PLUGIN''\<rparr>"
  "handle_error (OperationError m) =
     Inr \<lparr>res_status = ''error'', res_error_code = ''ERR_OPERATION'', res_message = m,
          res_type = ''operation'', res_severity = ''ERROR'',
          res_category = ''BUSINESS''\<rparr>"
  by (simp_all add: handle_error_def handler_kind_def named_handler_result_def)

lemma handle_error_unregistered:
  "handler_kind (class_name e) = None \<Longrightarrow>
   handle_error e =
     Inr \<lparr>res_status = ''error'', res_error_code = ''ERR_UNKNOWN'', res_message = exn_str e,
          res_type = ''unknown'', res_severity = ''ERROR'', res_category = ''SYSTEM''\<rparr>"
  by (simp add: handle_error_def default_handler_result_def)

lemma handle_error_returns:
  assumes "is_bedtools_error e \<or> handler_kind (class_name e) = None"
  shows "\<exists>r. handle_error e = Inr r \<and> res_status r = ''error'' \<and> res_message r = exn_str e"
proof (cases "handler_kind (class_name e)")
  case None
  then show ?thesis by (simp add: handle_error_unregistered)
next
  case (Some kind)
  with assms have "is_bedtools_error e" by simp
  then obtain code sev cat where "error_attributes e = Some (code, sev, cat)"
    by (cases e) simp_all
  with Some show ?thesis by (simp add: handle_error_def named_handler_result_def)
qed

text \<open>
  An exception of another family whose class has a registered name makes the handler,
  and with it every decorated function, raise \<^verbatim>\<open>AttributeError\<close>.
\<close>

lemma handle_error_name_clash:
  "handler_kind cls \<noteq> None \<Longrightarrow>
   handle_error (OtherException cls m) = Inl (attribute_error_code cls)"
  by (auto simp: handle_error_def)

lemma error_handler_name_clash:
  "handler_kind cls \<noteq> None \<Longrightarrow>
   error_handler (Inl (OtherException cls m), s) = (Inl (attribute_error_code cls), s)"
  by (simp add: error_handler_def handle_error_name_clash)

lemma xor_twice: "(a XOR k) XOR k = (a::byte)"
  by (simp add: xor.assoc)

lemma custom_xor_loop_twice: "custom_xor_loop key i (custom_xor_loop key i d) = d"
  by (induction d arbitrary: i) (auto simp: xor_twice)

lemma custom_xor_loop_length: "length (custom_xor_loop key i d) = length d"
  by (induction d arbitrary: i) auto

lemma custom_xor_loop_nth:
  "n < length d \<Longrightarrow> custom_xor_loop key i d ! n = d ! n XOR key ! ((i + n) mod length key)"
proof (induction d arbitrary: i n)
  case Nil
  then show ?case by simp
next
  case (Cons b bs)
  show ?case
  proof (cases n)
    case 0
    then show ?thesis by simp
  next
    case (Suc m)
    with Cons.prems have "m < length bs" by simp
    from Cons.IH [OF this, of "Suc i"] Suc show ?thesis by simp
  qed
qed

lemma le_bytes_length: "length (le_bytes n u) = n"
  by (induction n arbitrary: u) auto

lemma uint_byte_mod: "uint (word_of_int (u mod 256) :: byte) = u mod 256"
  by (simp add: uint_word_of_int)

lemma le_value_le_bytes: "0 \<le> u \<Longrightarrow> u < 256 ^ n \<Longrightarrow> le_value (le_bytes n u) = u"
proof (induction n arbitrary: u)
  case 0
  then show ?case by simp
next
  case (Suc n)
  have "u div 256 < 256 ^ n"
    using Suc.prems by (simp add: div_less_iff_less_mult mult.commute)
  moreover have "0 \<le> u div 256" using Suc.prems by simp
  ultimately have "le_value (le_bytes n (u div 256)) = u div 256"
    by (rule Suc.IH[rotated])
  then show ?case by (simp add: uint_byte_mod)
qed

lemma from_to_bytes4:
  assumes "- (2 ^ 31) \<le> x" "x < 2 ^ 31"
  shows "from_bytes4_le_signed (le_bytes 4 (x mod 2 ^ 32)) = x"
proof -
  define u where "u = x mod 2 ^ 32"
  have u: "0 \<le> u" "u < 256 ^ 4" by (simp_all add: u_def)
  have v: "le_value (le_bytes 4 u) = u" using u by (rule le_value_le_bytes)
  have "u = (if 0 \<le> x then x else x + 2 ^ 32)"
  proof (cases "0 \<le> x")
    case True
    then show ?thesis using assms by (simp add: u_def)
  next
    case False
    then have "(x + 2 ^ 32) mod 2 ^ 32 = x + 2 ^ 32"
      using assms by (intro mod_pos_pos_trivial) simp_all
    then show ?thesis using False by (simp add: u_def)
  qed
  then show ?thesis
    using assms unfolding from_bytes4_le_signed_def u_def[symmetric] v Let_def
    by (simp split: if_splits)
qed

lemma unat_byte_less: "unat (w :: byte) < 256"
  using unsigned_less [of w, where 'a = nat] by simp

lemma unat_of_nat_byte: "n < 256 \<Longrightarrow> unat (of_nat n :: byte) = n"
  by (simp add: unat_of_nat)

lemma sbox_ok_nth: "sbox_ok S \<Longrightarrow> n < 256 \<Longrightarrow> S ! n < 256"
  by (simp add: sbox_ok_def)

lemma sbox_abs_of_nat: "sbox_ok S \<Longrightarrow> n < 256 \<Longrightarrow> unat (sbox_abs S (of_nat n)) = S ! n"
  by (simp add: sbox_abs_def unat_of_nat_byte sbox_ok_nth)

lemma sbox_ok_swap: "sbox_ok S \<Longrightarrow> a < 256 \<Longrightarrow> b < 256 \<Longrightarrow> sbox_ok (swap_entries S a b)"
  unfolding sbox_ok_def swap_entries_def
  by (auto dest!: set_update_subset_insert [THEN subsetD])

lemma sbox_abs_swap:
  assumes "sbox_ok S" "a < 256" "b < 256"
  shows "sbox_abs (swap_entries S a b) = ref_swap (sbox_abs S) (of_nat a) (of_nat b)"
proof
  fix w :: byte
  have len: "length S = 256" using assms(1) by (simp add: sbox_ok_def)
  have w: "unat w < 256" by (rule unat_byte_less)
  have eqa: "w = of_nat a \<longleftrightarrow> unat w = a"
    using assms(2) by (auto simp: word_unat_eq_iff unat_of_nat_byte)
  have eqb: "w = of_nat b \<longleftrightarrow> unat w = b"
    using assms(3) by (auto simp: word_unat_eq_iff unat_of_nat_byte)
  show "sbox_abs (swap_entries S a b) w = ref_swap (sbox_abs S) (of_nat a) (of_nat b) w"
    using assms w len
    by (simp add: sbox_abs_def swap_entries_def ref_swap_def eqa eqb unat_of_nat_byte
        nth_list_update)
qed

lemma sbox_ok_init: "sbox_ok [0..<256]"
  by (simp add: sbox_ok_def)

lemma sbox_abs_init: "sbox_abs [0..<256] = (\<lambda>x. x)"
proof
  fix w :: byte
  show "sbox_abs [0..<256] w = w"
    using unat_byte_less [of w] by (simp add: sbox_abs_def)
qed

lemma ksa_prefix:
  assumes "length key = 16" "n \<le> 256"
  shows "sbox_ok (fst (fold (ksa_step key) [0..<n] ([0..<256], 0))) \<and>
         snd (fold (ksa_step key) [0..<n] ([0..<256], 0)) < 256 \<and>
         ref_schedule key n =
           (sbox_abs (fst (fold (ksa_step key) [0..<n] ([0..<256], 0))),
            of_nat (snd (fold (ksa_step key) [0..<n] ([0..<256], 0))))"
  using assms(2)
proof (induction n)
  case 0
  then show ?case by (simp add: sbox_ok_init sbox_abs_init)
next
  case (Suc n)
  define st where "st = fold (ksa_step key) [0..<n] ([0..<256], 0)"
  define S where "S = fst st"
  define j where "j = snd st"
  define j' where "j' = (j + S ! n + unat (key ! (n mod length key))) mod 256"
  from Suc have n: "n < 256" by simp
  from Suc have ih: "sbox_ok S" "j < 256" "ref_schedule key n = (sbox_abs S, of_nat j)"
    by (simp_all add: st_def S_def j_def)
  have step: "fold (ksa_step key) [0..<Suc n] ([0..<256], 0) = (swap_entries S n j', j')"
    by (simp add: ksa_step_def st_def [symmetric] S_def [symmetric] j_def [symmetric]
        j'_def Let_def)
  have j'lt: "j' < 256" by (simp add: j'_def)
  have "of_nat j' = (of_nat j + sbox_abs S (of_nat n) + key ! (n mod 16) :: byte)"
  proof -
    have "unat (of_nat j + sbox_abs S (of_nat n) + key ! (n mod 16) :: byte) = j'"
      using ih(1,2) n assms(1)
      by (simp add: unat_word_ariths sbox_abs_of_nat unat_of_nat_byte j'_def mod_simps)
    then show ?thesis by (simp add: word_unat_eq_iff unat_of_nat_byte j'lt)
  qed
  then have "ref_schedule key (Suc n) = (sbox_abs (swap_entries S n j'), of_nat j')"
    using ih n j'lt by (simp add: Let_def sbox_abs_swap)
  with step j'lt ih(1) n show ?case
    by (simp add: sbox_ok_swap)
qed

lemma prga_refines:
  assumes "sbox_ok S" "i < 256" "j < 256"
  shows "rc4_loop S i j data =
         map (\<lambda>(b, k). b XOR k)
           (zip data (ref_keystream (sbox_abs S) (of_nat i) (of_nat j) (length data)))"
  using assms
proof (induction data arbitrary: S i j)
  case Nil
  then show ?case by simp
next
  case (Cons b bs)
  define i' where "i' = (i + 1) mod 256"
  define j' where "j' = (j + S ! i') mod 256"
  define S' where "S' = swap_entries S i' j'"
  have lt: "i' < 256" "j' < 256" by (simp_all add: i'_def j'_def)
  have ok: "sbox_ok S'" using Cons.prems(1) lt by (simp add: S'_def sbox_ok_swap)
  have wi: "(of_nat i + 1 :: byte) = of_nat i'"
  proof -
    have "unat (of_nat i + 1 :: byte) = i'"
      using Cons.prems(2) by (simp add: unat_word_ariths unat_of_nat_byte i'_def)
    then show ?thesis by (simp add: word_unat_eq_iff unat_of_nat_byte lt)
  qed
  have wj: "(of_nat j + sbox_abs S (of_nat i') :: byte) = of_nat j'"
  proof -
    have "unat (of_nat j + sbox_abs S (of_nat i') :: byte) = j'"
      using Cons.prems lt by (simp add: unat_word_ariths unat_of_nat_byte sbox_abs_of_nat j'_def)
    then show ?thesis by (simp add: word_unat_eq_iff unat_of_nat_byte lt)
  qed
  have abs': "ref_swap (sbox_abs S) (of_nat i') (of_nat j') = sbox_abs S'"
    using Cons.prems(1) lt by (simp add: S'_def sbox_abs_swap)
  have k: "sbox_abs S' (sbox_abs S' (of_nat i') + sbox_abs S' (of_nat j')) =
           of_nat (S' ! ((S' ! i' + S' ! j') mod 256))"
  proof -
    have "unat (sbox_abs S' (of_nat i') + sbox_abs S' (of_nat j')) = (S' ! i' + S' ! j') mod 256"
      using ok lt by (simp add: unat_word_ariths sbox_abs_of_nat)
    then show ?thesis by (simp add: sbox_abs_def)
  qed
  have tail: "rc4_loop S' i' j' bs =
         map (\<lambda>(b, k). b XOR k)
           (zip bs (ref_keystream (sbox_abs S') (of_nat i') (of_nat j') (length bs)))"
    using ok lt by (rule Cons.IH)
  have src: "rc4_loop S i j (b # bs) =
      (b XOR of_nat (S' ! ((S' ! i' + S' ! j') mod 256))) # rc4_loop S' i' j' bs"
    by (simp add: i'_def j'_def S'_def Let_def)
  have ref: "ref_keystream (sbox_abs S) (of_nat i) (of_nat j) (Suc (length bs)) =
      sbox_abs S' (sbox_abs S' (of_nat i') + sbox_abs S' (of_nat j')) #
      ref_keystream (sbox_abs S') (of_nat i') (of_nat j') (length bs)"
    unfolding ref_keystream.simps Let_def wi wj abs' ..
  have len: "length (b # bs) = Suc (length bs)" by simp
  show ?case
    unfolding src len ref k tail by simp
qed

lemma rc4_refines:
  assumes "length key = 16"
  shows "rc4_encrypt key data = rc4_reference key data"
proof -
  have p: "sbox_ok (rc4_init key)" "fst (ref_schedule key 256) = sbox_abs (rc4_init key)"
    using ksa_prefix [OF assms, of 256] by (simp_all add: rc4_init_def)
  show ?thesis
    using prga_refines [OF p(1), of 0 0 data]
    by (simp add: rc4_encrypt_def rc4_reference_def rc4_reference_keystream_def p(2))
qed

lemma ref_keystream_length: "length (ref_keystream P i j n) = n"
  by (induction n arbitrary: P i j) (auto simp: Let_def)

text \<open>
  A known answer: with the key \<open>01 02 ... 10\<close> the keystream starts \<open>9a c7 cc 9a\<close>
  (the first bytes of the 128-bit test vector of RFC 6229).
\<close>

lemma rc4_encrypt_known_answer:
  "rc4_encrypt [1, 2, 3, 4, 5, 6, 7, 8, 9, 10, 11, 12, 13, 14, 15, 16] [0, 0, 0, 0] =
   [0x9a, 0xc7, 0xcc, 0x9a]"
  by code_simp

lemma extend_cave_facts:
  "p \<le> length data \<Longrightarrow> c \<le> p \<Longrightarrow> int p - int c \<le> sz \<Longrightarrow>
   p \<le> extend_cave data sz c p \<and>
   extend_cave data sz c p \<le> length data \<and>
   int (extend_cave data sz c p) - int c \<le> sz \<and>
   (\<forall>q. p \<le> q \<and> q < extend_cave data sz c p \<longrightarrow> is_filler (data ! q)) \<and>
   (extend_cave data sz c p = length data \<or>
    \<not> is_filler (data ! extend_cave data sz c p) \<or>
    int (extend_cave data sz c p) - int c = sz)"
proof (induction data sz c p rule: extend_cave.induct)
  case (1 data sz cave_start pos)
  let ?go = "pos < length data \<and> is_filler (data ! pos) \<and> int pos - int cave_start < sz"
  show ?case
  proof (cases ?go)
    case True
    then have e: "extend_cave data sz cave_start pos = extend_cave data sz cave_start (pos + 1)"
      by (subst extend_cave.simps) simp
    have ih: "pos + 1 \<le> extend_cave data sz cave_start (pos + 1) \<and>
      extend_cave data sz cave_start (pos + 1) \<le> length data \<and>
      int (extend_cave data sz cave_start (pos + 1)) - int cave_start \<le> sz \<and>
      (\<forall>q. pos + 1 \<le> q \<and> q < extend_cave data sz cave_start (pos + 1) \<longrightarrow>
           is_filler (data ! q)) \<and>
      (extend_cave data sz cave_start (pos + 1) = length data \<or>
       \<not> is_filler (data ! extend_cave data sz cave_start (pos + 1)) \<or>
       int (extend_cave data sz cave_start (pos + 1)) - int cave_start = sz)"
      using True "1.prems" by (intro "1.IH") auto
    have fill: "is_filler (data ! q)"
      if "pos \<le> q" "q < extend_cave data sz cave_start (pos + 1)" for q
    proof (cases "q = pos")
      case True
      then show ?thesis using \<open>?go\<close> by simp
    next
      case False
      then show ?thesis using that ih by auto
    qed
    show ?thesis unfolding e using ih fill by auto
  next
    case False
    then have e: "extend_cave data sz cave_start pos = pos"
      by (subst extend_cave.simps) auto
    show ?thesis unfolding e using False "1.prems" by auto
  qed
qed

lemma cave_at_needs_filler: "0 < n \<Longrightarrow> cave_at data n p \<Longrightarrow> p < length data \<and> is_filler (data ! p)"
  unfolding cave_at_def by (metis add.right_neutral add_lessD1 less_add_same_cancel1 order_less_le_trans)

lemma cave_at_covers:
  "cave_at data n p \<Longrightarrow> p \<le> e \<Longrightarrow> e < p + n \<Longrightarrow> e < length data \<and> is_filler (data ! e)"
proof -
  assume c: "cave_at data n p" and le: "p \<le> e" and lt: "e < p + n"
  from le lt have k: "e - p < n" "p + (e - p) = e" by simp_all
  from c k(1) have "is_filler (data ! (p + (e - p)))" unfolding cave_at_def by blast
  moreover from c lt have "e < length data" unfolding cave_at_def by simp
  ultimately show ?thesis by (simp add: k(2))
qed

lemma scan_section_spec:
  "0 < sz \<Longrightarrow>
   (case scan_section data sz pos of
      None \<Rightarrow> (\<forall>p \<ge> pos. \<not> cave_at data (nat sz) p)
    | Some (st, n) \<Rightarrow>
        pos \<le> st \<and> int n = sz \<and> cave_at data n st \<and>
        (\<forall>p. pos \<le> p \<and> p < st \<longrightarrow> \<not> cave_at data (nat sz) p))"
proof (induction data sz pos rule: scan_section.induct)
  case (1 data sz pos)
  note pos = \<open>0 < sz\<close>
  show ?case
  proof (cases "pos < length data")
    case False
    then have "scan_section data sz pos = None"
      by (subst scan_section.simps) simp
    moreover have "\<not> cave_at data (nat sz) p" if "pos \<le> p" for p
      using cave_at_needs_filler [of "nat sz" data p] that False pos by auto
    ultimately show ?thesis by simp
  next
    case inside: True
    show ?thesis
    proof (cases "is_filler (data ! pos)")
      case False
      then have e: "scan_section data sz pos = scan_section data sz (pos + 1)"
        using inside by (subst scan_section.simps) simp
      have here: "\<not> cave_at data (nat sz) pos"
        using cave_at_needs_filler [of "nat sz" data pos] False pos by auto
      have ih: "case scan_section data sz (pos + 1) of
          None \<Rightarrow> (\<forall>p \<ge> pos + 1. \<not> cave_at data (nat sz) p)
        | Some (st, n) \<Rightarrow>
            pos + 1 \<le> st \<and> int n = sz \<and> cave_at data n st \<and>
            (\<forall>p. pos + 1 \<le> p \<and> p < st \<longrightarrow> \<not> cave_at data (nat sz) p)"
        using inside False pos by (intro "1.IH"(2)) simp_all
      have step: "\<not> cave_at data (nat sz) p" if "pos \<le> p" "\<not> pos + 1 \<le> p" for p
        using that here by (cases "p = pos") simp_all
      show ?thesis
        unfolding e using ih step
        by (auto split: option.splits)
    next
      case True
      define e where "e = extend_cave data sz pos pos"
      have f: "pos \<le> e" "e \<le> length data" "int e - int pos \<le> sz"
        "\<And>q. pos \<le> q \<Longrightarrow> q < e \<Longrightarrow> is_filler (data ! q)"
        "e = length data \<or> \<not> is_filler (data ! e) \<or> int e - int pos = sz"
        using extend_cave_facts [of pos data pos sz] inside pos
        by (simp_all add: e_def)
      show ?thesis
      proof (cases "int e - int pos \<ge> sz")
        case found: True
        then have r: "scan_section data sz pos = Some (pos, e - pos)"
          using inside True
          by (subst scan_section.simps) (simp add: e_def Let_def)
        have len: "int (e - pos) = sz" using found f(1,3) by simp
        have "cave_at data (e - pos) pos"
          unfolding cave_at_def using f(1,2,4) by simp
        then show ?thesis using r len by auto
      next
        case short: False
        then have r: "scan_section data sz pos = scan_section data sz (e + 1)"
          using inside True
          by (subst scan_section.simps) (simp add: e_def Let_def)
        have stop: "e = length data \<or> \<not> is_filler (data ! e)"
          using f(5) short by auto
        have ih: "case scan_section data sz (e + 1) of
            None \<Rightarrow> (\<forall>p \<ge> e + 1. \<not> cave_at data (nat sz) p)
          | Some (st, n) \<Rightarrow>
              e + 1 \<le> st \<and> int n = sz \<and> cave_at data n st \<and>
              (\<forall>p. e + 1 \<le> p \<and> p < st \<longrightarrow> \<not> cave_at data (nat sz) p)"
          using inside True short pos
          by (intro "1.IH"(1) [of pos e]) (simp_all add: e_def)
        have skip: "\<not> cave_at data (nat sz) p" if "pos \<le> p" "\<not> e + 1 \<le> p" for p
        proof
          assume c: "cave_at data (nat sz) p"
          have "p \<le> e" using that by simp
          moreover have "e < p + nat sz" using short that(1) f(1) by linarith
          ultimately have "e < length data \<and> is_filler (data ! e)"
            using c by (rule cave_at_covers [rotated])
          with stop show False by auto
        qed
        show ?thesis
          unfolding r using ih skip f(1)
          by (auto split: option.splits)
      qed
    qed
  qed
qed


lemma find_code_cave_None:
  "0 < sz \<Longrightarrow>
   find_code_cave ss sz = None \<longleftrightarrow>
   (\<forall>s \<in> set ss. is_executable s \<longrightarrow> (\<forall>p. \<not> cave_at (section_data s) (nat sz) p))"
proof (induction ss)
  case Nil
  then show ?case by simp
next
  case (Cons s ss)
  have sp: "case scan_section (section_data s) sz 0 of
           None \<Rightarrow> (\<forall>p \<ge> 0. \<not> cave_at (section_data s) (nat sz) p)
         | Some (st, n) \<Rightarrow>
             0 \<le> st \<and> int n = sz \<and> cave_at (section_data s) n st \<and>
             (\<forall>p. 0 \<le> p \<and> p < st \<longrightarrow> \<not> cave_at (section_data s) (nat sz) p)"
    using Cons.prems by (rule scan_section_spec)
  show ?case
  proof (cases "scan_section (section_data s) sz 0")
    case None
    with sp Cons show ?thesis by auto
  next
    case (Some r)
    obtain st n where r: "r = (st, n)" by (cases r)
    from sp Some r have "cave_at (section_data s) (nat sz) st" by auto
    with Some r Cons show ?thesis by auto
  qed
qed

lemma find_code_cave_Some:
  "0 < sz \<Longrightarrow> find_code_cave ss sz = Some (va, n) \<Longrightarrow>
   \<exists>pre s post p. ss = pre @ s # post \<and> is_executable s \<and>
     (\<forall>t \<in> set pre. is_executable t \<longrightarrow> (\<forall>q. \<not> cave_at (section_data t) (nat sz) q)) \<and>
     cave_at (section_data s) (nat sz) p \<and>
     (\<forall>q < p. \<not> cave_at (section_data s) (nat sz) q) \<and>
     va = VirtualAddress s + p \<and> int n = sz"
proof (induction ss)
  case Nil
  then show ?case by simp
next
  case (Cons s ss)
  have sp: "case scan_section (section_data s) sz 0 of
           None \<Rightarrow> (\<forall>p \<ge> 0. \<not> cave_at (section_data s) (nat sz) p)
         | Some (st, n) \<Rightarrow>
             0 \<le> st \<and> int n = sz \<and> cave_at (section_data s) n st \<and>
             (\<forall>p. 0 \<le> p \<and> p < st \<longrightarrow> \<not> cave_at (section_data s) (nat sz) p)"
    using Cons.prems(1) by (rule scan_section_spec)
  let ?here = "is_executable s \<and> scan_section (section_data s) sz 0 \<noteq> None"
  show ?case
  proof (cases ?here)
    case True
    then obtain st m where r: "scan_section (section_data s) sz 0 = Some (st, m)" by auto
    with True Cons.prems(2) have v: "va = VirtualAddress s + st" "n = m" by simp_all
    from sp r have f: "int m = sz" "cave_at (section_data s) m st"
      "\<forall>p < st. \<not> cave_at (section_data s) (nat sz) p" by auto
    from f(1) have "nat sz = m" by simp
    with f v True have "s # ss = [] @ s # ss \<and> is_executable s \<and>
     (\<forall>t \<in> set []. is_executable t \<longrightarrow> (\<forall>q. \<not> cave_at (section_data t) (nat sz) q)) \<and>
     cave_at (section_data s) (nat sz) st \<and>
     (\<forall>q < st. \<not> cave_at (section_data s) (nat sz) q) \<and>
     va = VirtualAddress s + st \<and> int n = sz" by simp
    then show ?thesis by blast
  next
    case False
    then have rest: "find_code_cave ss sz = Some (va, n)"
      using Cons.prems(2) by (auto split: option.splits)
    have none: "is_executable s \<longrightarrow> (\<forall>q. \<not> cave_at (section_data s) (nat sz) q)"
    proof
      assume "is_executable s"
      with False have "scan_section (section_data s) sz 0 = None" by blast
      with sp show "\<forall>q. \<not> cave_at (section_data s) (nat sz) q" by simp
    qed
    from Cons.IH [OF Cons.prems(1) rest]
    obtain pre t post p where h: "ss = pre @ t # post" "is_executable t"
      "\<forall>u \<in> set pre. is_executable u \<longrightarrow> (\<forall>q. \<not> cave_at (section_data u) (nat sz) q)"
      "cave_at (section_data t) (nat sz) p"
      "\<forall>q < p. \<not> cave_at (section_data t) (nat sz) q"
      "va = VirtualAddress t + p" "int n = sz" by blast
    have "s # ss = (s # pre) @ t # post \<and> is_executable t \<and>
     (\<forall>u \<in> set (s # pre). is_executable u \<longrightarrow> (\<forall>q. \<not> cave_at (section_data u) (nat sz) q)) \<and>
     cave_at (section_data t) (nat sz) p \<and>
     (\<forall>q < p. \<not> cave_at (section_data t) (nat sz) q) \<and>
     va = VirtualAddress t + p \<and> int n = sz"
      using h none by simp
    then show ?thesis by blast
  qed
qed

lemma cave_in_padding:
  assumes "\<forall>b \<in> set pre \<union> set post. \<not> is_filler b" "0 < n"
  shows "cave_at (pre @ replicate 40 0 @ post) n p \<longleftrightarrow> length pre \<le> p \<and> p + n \<le> length pre + 40"
proof
  assume c: "cave_at (pre @ replicate 40 0 @ post) n p"
  have a: "length pre \<le> p"
  proof (rule ccontr)
    assume "\<not> length pre \<le> p"
    then have "p < length pre" by simp
    then have "(pre @ replicate 40 0 @ post) ! p \<in> set pre" by (simp add: nth_append)
    moreover have "is_filler ((pre @ replicate 40 0 @ post) ! p)"
      using cave_at_needs_filler [OF assms(2) c] by simp
    ultimately show False using assms(1) by auto
  qed
  have b: "p + n \<le> length pre + 40"
  proof (rule ccontr)
    assume "\<not> p + n \<le> length pre + 40"
    then have lt: "length pre + 40 < p + n" by simp
    define e where "e = max p (length pre + 40)"
    have "p \<le> e" "e < p + n" using lt assms(2) by (simp_all add: e_def)
    with c have e: "e < length (pre @ replicate 40 0 @ post)"
      "is_filler ((pre @ replicate 40 0 @ post) ! e)"
      using cave_at_covers by blast+
    have "length pre + 40 \<le> e" by (simp add: e_def)
    with e(1) have "(pre @ replicate 40 0 @ post) ! e = post ! (e - length pre - 40)"
      "e - length pre - 40 < length post"
      by (auto simp: nth_append)
    then have "(pre @ replicate 40 0 @ post) ! e \<in> set post" by simp
    with e(2) assms(1) show False by auto
  qed
  from a b show "length pre \<le> p \<and> p + n \<le> length pre + 40" ..
next
  assume r: "length pre \<le> p \<and> p + n \<le> length pre + 40"
  have "is_filler ((pre @ replicate 40 0 @ post) ! (p + k))" if "k < n" for k
  proof -
    have "(pre @ replicate 40 0 @ post) ! (p + k) = 0"
      using r that by (auto simp: nth_append)
    then show ?thesis by (simp add: is_filler_def)
  qed
  then show "cave_at (pre @ replicate 40 0 @ post) n p"
    using r by (simp add: cave_at_def)
qed

lemma padded_section_search:
  assumes np: "\<forall>b \<in> set pre \<union> set post. \<not> is_filler b"
    and ex: "is_executable s" and d: "section_data s = pre @ replicate 40 0 @ post"
  shows "find_code_cave [s] 35 = Some (VirtualAddress s + length pre, 35)"
    and "find_code_cave [s] 41 = None"
proof -
  have c35: "cave_at (section_data s) 35 p \<longleftrightarrow> length pre \<le> p \<and> p + 35 \<le> length pre + 40" for p
    unfolding d using np by (rule cave_in_padding) simp
  have c41: "\<not> cave_at (section_data s) 41 p" for p
    unfolding d using cave_in_padding [OF np, of 41 p] by simp
  show "find_code_cave [s] 41 = None"
    using find_code_cave_None [of 41 "[s]"] c41 by simp
  have "find_code_cave [s] 35 \<noteq> None"
    using find_code_cave_None [of 35 "[s]"] ex c35 [of "length pre"] by auto
  then obtain va n where r: "find_code_cave [s] 35 = Some (va, n)" by auto
  from find_code_cave_Some [OF _ r]
  obtain pre' t post' p where h: "[s] = pre' @ t # post'"
      "cave_at (section_data t) (nat 35) p"
      "\<forall>q < p. \<not> cave_at (section_data t) (nat 35) q"
      "va = VirtualAddress t + p" "int n = 35" by auto
  from h(1) have t: "t = s" by (cases pre') simp_all
  from h(2) c35 [of p] have ge: "length pre \<le> p" by (simp add: t)
  have "\<not> length pre < p" using h(3) c35 [of "length pre"] by (auto simp: t)
  with ge have "p = length pre" by simp
  with r h(4,5) t show "find_code_cave [s] 35 = Some (VirtualAddress s + length pre, 35)"
    by simp
qed

lemma no_cave_injection_fails:
  assumes "find_code_cave (sections pe) (int (length shellcode) + 5) = None"
  shows "inject_code_cave off cfg pe shellcode = (False, pe)"
    and "inject_strategy ns es off ''code_cave'' cfg pe shellcode =
         Inl (OperationError msg_injection_failed)"
  using assms
  by (simp_all add: inject_code_cave_def inject_code_cave_try_def inject_strategy_def)


text \<open>
  Where the configuration cannot be read, a cave that was found is lost as well: the
  lookup of \<^verbatim>\<open>preserve_entry\<close> raises inside the \<^verbatim>\<open>try\<close>.
\<close>

lemma inject_code_cave_unreadable_config:
  "inject_code_cave off ConfigManagerObject pe shellcode = (False, pe)"
  by (simp add: inject_code_cave_def inject_code_cave_try_def config_lookup_def
      split: option.splits sum.splits)

text \<open>
  When \<^verbatim>\<open>_execute\<close> raises an exception of another family whose class has a registered
  name, the tool ends in the error state like for any exception, and the decorated
  \<^verbatim>\<open>execute\<close> raises \<^verbatim>\<open>AttributeError\<close>.
\<close>

lemma execute_name_clash:
  assumes "status self = READY" and "handler_kind cls \<noteq> None"
    and "impl args (self\<lparr>status := RUNNING, progress := progress_start now (progress self)\<rparr>) =
           (Inl (OtherException cls m), self')"
  shows "execute impl now args self =
           (Inl (attribute_error_code cls),
            self'\<lparr>status := ERROR, last_error := Some (OtherException cls m)\<rparr>)"
  using assms
  by (simp add: execute_def execute_body_def Let_def error_handler_name_clash)

lemma py_join_contains:
  "x \<in> set xs \<Longrightarrow> \<exists>pre post. py_join sep xs = pre @ x @ post"
proof (induction sep xs rule: py_join.induct)
  case (1 sep)
  then show ?case by simp
next
  case (2 sep y)
  then have "py_join sep [y] = [] @ x @ []" by simp
  then show ?case by blast
next
  case (3 sep y z zs)
  show ?case
  proof (cases "x = y")
    case True
    then have "py_join sep (y # z # zs) = [] @ x @ (sep @ py_join sep (z # zs))" by simp
    then show ?thesis by blast
  next
    case False
    with 3 obtain pre post where "py_join sep (z # zs) = pre @ x @ post" by auto
    then have "py_join sep (y # z # zs) = (y @ sep @ pre) @ x @ post" by simp
    then show ?thesis by blast
  qed
qed

lemma find_dependent_loop_set:
  "set (find_dependent_loop a cache) =
   {n. \<exists>md. (n, md) \<in> set cache \<and> a \<in> fst ` set (dependencies md)}"
  by (induction a cache rule: find_dependent_loop.induct) auto

lemma unload_blocked:
  assumes "plugin_name \<in> fst ` set (plugins self)"
    and "find_dependent_plugins self plugin_name \<noteq> []"
  shows "unload_plugin_body plugin_name self =
     (Inl (PluginError (msg_unload_failed plugin_name
        (msg_cannot_unload plugin_name (find_dependent_plugins self plugin_name)))), self)"
  using assms by (simp add: unload_plugin_body_def unload_plugin_try_def Let_def)

lemma blocked_message_names:
  assumes "(n, md) \<in> set (metadata_cache self)"
    and "plugin_name \<in> fst ` set (dependencies md)"
  shows "\<exists>pre post. msg_unload_failed plugin_name
        (msg_cannot_unload plugin_name (find_dependent_plugins self plugin_name)) =
        pre @ n @ post"
proof -
  have "n \<in> set (find_dependent_plugins self plugin_name)"
    using assms by (auto simp: find_dependent_plugins_def find_dependent_loop_set)
  then obtain pre post where
    "py_join '', '' (find_dependent_plugins self plugin_name) = pre @ n @ post"
    using py_join_contains by blast
  then show ?thesis
    unfolding msg_unload_failed_def msg_cannot_unload_def
    by (metis append.assoc)
qed

text \<open>
  What the validator raises besides a Validation error are errors of Python itself,
  whose class names have no registered handler.
\<close>

lemma python_errors_unregistered [simp]:
  "handler_kind (class_name type_error) = None"
  "handler_kind (class_name attribute_error) = None"
  "handler_kind (class_name (OtherException ''KeyError'' k)) = None"
  by (simp_all add: type_error_def attribute_error_def handler_kind_def)

lemma py_contains_error:
  "py_contains c i = Inl e \<Longrightarrow> e = type_error"
  by (induction c i rule: py_contains.induct) auto

lemma py_getitem_error:
  "py_getitem c k = Inl e \<Longrightarrow> handler_kind (class_name e) = None"
  by (cases c) (auto simp: handler_kind_def type_error_def split: option.splits)

lemma validate_type_error:
  "validate_type v t key = Inl e \<Longrightarrow>
   (\<exists>m. e = ValidationError m) \<or> handler_kind (class_name e) = None"
  by (cases t) (auto split: if_splits)

lemma validate_values_error:
  "validate_values v vals key = Inl e \<Longrightarrow>
   (\<exists>m. e = ValidationError m) \<or> handler_kind (class_name e) = None"
  by (auto simp: validate_values_def dest!: py_contains_error split: sum.splits if_splits)

lemma validate_items_entry_error:
  "validate_items c items = Inl e \<Longrightarrow>
     (\<exists>m. e = ValidationError m) \<or> handler_kind (class_name e) = None"
  "validate_entry v key vs = Inl e \<Longrightarrow>
     (\<exists>m. e = ValidationError m) \<or> handler_kind (class_name e) = None"
proof (induction c items and v key vs rule: validate_items_validate_entry.induct)
  case (1 c)
  then show ?case by simp
next
  case (2 c key value_schema rest)
  show ?case
  proof (cases "py_contains c (PStr key)")
    case (Inl e')
    with "2.prems" have "e = type_error" by (auto dest: py_contains_error)
    then show ?thesis by simp
  next
    case present: (Inr present)
    show ?thesis
    proof (cases present)
      case False
      with "2.prems" present "2.IH"(1) [of present] show ?thesis
        by (auto split: if_splits)
    next
      case True
      show ?thesis
      proof (cases "py_getitem c key")
        case (Inl e')
        with "2.prems" present True have "e = e'" by simp
        with Inl show ?thesis by (auto dest: py_getitem_error)
      next
        case v: (Inr v)
        show ?thesis
        proof (cases "validate_entry v key value_schema")
          case (Inl e')
          with "2.prems" present True v have "e = e'" by simp
          with Inl "2.IH"(2) [OF present _ v] True show ?thesis by simp
        next
          case (Inr u)
          with "2.prems" present True v have "validate_items c rest = Inl e" by simp
          with "2.IH"(3) [OF present _ v Inr] True show ?thesis by simp
        qed
      qed
    qed
  qed
next
  case (3 v key vs)
  let ?t = "case map_of vs ''type'' of None \<Rightarrow> Inr ()
            | Some expected_type \<Rightarrow> validate_type v expected_type key"
  let ?v = "case map_of vs ''values'' of None \<Rightarrow> Inr ()
            | Some valid_values \<Rightarrow> validate_values v valid_values key"
  show ?case
  proof (cases ?t)
    case (Inl e')
    with "3.prems" have "e = e'" by simp
    with Inl show ?thesis by (auto dest: validate_type_error split: option.splits)
  next
    case t: (Inr u)
    show ?thesis
    proof (cases ?v)
      case (Inl e')
      with "3.prems" t have "e = e'" by simp
      with Inl show ?thesis by (auto dest: validate_values_error split: option.splits)
    next
      case vv: (Inr u')
      show ?thesis
      proof (cases "map_of vs ''schema''")
        case None
        with "3.prems" t vv show ?thesis by simp
      next
        case (Some sch)
        show ?thesis
        proof (cases sch)
          case (PDict sub)
          with "3.prems" t vv Some have "validate_items v sub = Inl e" by simp
          with "3.IH" [OF t vv Some PDict] show ?thesis by simp
        qed (use "3.prems" t vv Some in auto)
      qed
    qed
  qed
qed (auto split: if_splits)

lemma validate_error:
  assumes "validate schema c = Inl e"
  shows "handler_kind (class_name e) = None"
proof -
  define r where
    "r = (case schema of PDict items \<Rightarrow> validate_items c items | _ \<Rightarrow> Inl attribute_error)"
  from assms have re: "r = Inl e" and nv: "\<forall>m. e \<noteq> ValidationError m"
    unfolding validate_def r_def [symmetric] by (auto split: sum.splits exn.splits)
  from re have "(\<exists>m. e = ValidationError m) \<or> handler_kind (class_name e) = None"
    unfolding r_def
    by (auto dest: validate_items_entry_error(1) split: pyval.splits)
  with nv show ?thesis by blast
qed

lemma py_eq_str: "py_eq v (PStr s) \<longleftrightarrow> v = PStr s"
  by (cases v) (auto split: prod.splits option.splits)

lemma update_keys: "k \<in> fst ` set al \<Longrightarrow> map fst (AList.update k v al) = map fst al"
  by (induction al) auto

lemma migrate_step_keys: "map fst (migrate_step kv d) = map fst d"
  by (simp add: migrate_step_def update_keys)

lemma migrate_step_dom: "fst ` set (migrate_step kv d) = fst ` set d"
  using migrate_step_keys [of kv d] by (metis list.set_map)

lemma migrate_fold_keys: "map fst (fold migrate_step old d) = map fst d"
  by (induction old arbitrary: d) (simp_all add: migrate_step_keys)

lemma migrate_step_lookup:
  "map_of (migrate_step (k0, v0) d) k =
   (if k = k0 \<and> k0 \<in> fst ` set d \<and> \<not> startswith_underscore k0 then Some v0 else map_of d k)"
  by (simp add: migrate_step_def update_conv')

lemma migrate_fold_lookup:
  "distinct (map fst old) \<Longrightarrow>
   map_of (fold migrate_step old d) k =
   (if k \<in> fst ` set d \<and> \<not> startswith_underscore k \<and> k \<in> fst ` set old
    then map_of old k else map_of d k)"
proof (induction old arbitrary: d)
  case Nil
  then show ?case by simp
next
  case (Cons kv rest)
  obtain k0 v0 where kv: "kv = (k0, v0)" by (cases kv)
  from Cons.prems have d: "distinct (map fst rest)" and n: "k0 \<notin> fst ` set rest"
    by (simp_all add: kv)
  have ih: "map_of (fold migrate_step rest (migrate_step kv d)) k =
   (if k \<in> fst ` set d \<and> \<not> startswith_underscore k \<and> k \<in> fst ` set rest
    then map_of rest k else map_of (migrate_step kv d) k)"
    using Cons.IH [OF d, of "migrate_step kv d"] by (simp add: migrate_step_dom)
  show ?case
  proof (cases "k = k0")
    case True
    then show ?thesis using ih n by (simp add: kv migrate_step_lookup)
  next
    case False
    then show ?thesis using ih by (simp add: kv migrate_step_lookup)
  qed
qed

lemma load_config_stale:
  assumes s: "settings self = Stored (PDict old)"
    and v: "map_of old ''_version'' \<noteq> Some (PStr current_version)"
  shows "load_config_read self =
         Inr (self\<lparr>config := PDict (fold migrate_step old default_items)\<rparr>)"
proof -
  have "\<not> validate_version
          (case map_of old ''_version'' of None \<Rightarrow> PStr ''0.0.0'' | Some v \<Rightarrow> v)"
    using v by (auto simp: validate_version_def py_eq_str current_version_def split: option.splits)
  then show ?thesis using s by (simp add: load_config_read_def)
qed

lemma load_config_stale_valid:
  assumes s: "settings self = Stored (PDict old)"
    and v: "map_of old ''_version'' \<noteq> Some (PStr current_version)"
    and ok: "validate get_config_schema (PDict (fold migrate_step old default_items)) = Inr True"
  shows "load_config self =
     (Inr (Value ()),
      self\<lparr>config := PDict (fold migrate_step old default_items),
           settings := Stored (PDict (AList.update ''_version'' (PStr current_version)
                                        (fold migrate_step old default_items)))\<rparr>)"
  unfolding load_config_def load_config_body_def load_config_try_def
    load_config_stale [OF s v]
  using ok by (simp add: save_config_def error_handler_def)

lemma load_config_stale_invalid:
  assumes s: "settings self = Stored (PDict old)"
    and v: "map_of old ''_version'' \<noteq> Some (PStr current_version)"
    and bad: "validate get_config_schema (PDict (fold migrate_step old default_items)) \<noteq> Inr True"
  shows "\<exists>r. load_config self = (Inr (ErrorResult r), self\<lparr>config := get_default_config\<rparr>)"
proof (cases "validate get_config_schema (PDict (fold migrate_step old default_items))")
  case (Inl e)
  from validate_error [OF Inl] have "handler_kind (class_name e) = None" .
  with Inl show ?thesis
    unfolding load_config_def load_config_body_def load_config_try_def
      load_config_stale [OF s v]
    by (simp add: error_handler_def handle_error_unregistered)
next
  case (Inr b)
  with bad have "b = False" by simp
  with Inr show ?thesis
    unfolding load_config_def load_config_body_def load_config_try_def
      load_config_stale [OF s v]
    by (simp add: error_handler_def)
qed

lemma validate_items_update_cong:
  assumes "\<And>vs. (k, vs) \<in> set items \<Longrightarrow> validate_entry v k vs = validate_entry v' k vs"
  shows "validate_items (PDict (AList.update k v d)) items =
         validate_items (PDict (AList.update k v' d)) items"
  using assms
proof (induction items)
  case Nil
  then show ?case by simp
next
  case (Cons kv rest)
  obtain key value_schema where kv: "kv = (key, value_schema)" by (cases kv)
  have ih: "validate_items (PDict (AList.update k v d)) rest =
            validate_items (PDict (AList.update k v' d)) rest"
    using Cons.prems by (intro Cons.IH) simp
  show ?case
  proof (cases "key = k")
    case True
    have e: "validate_entry v k value_schema = validate_entry v' k value_schema"
      using Cons.prems [of value_schema] by (simp add: kv True)
    show ?thesis
      by (simp add: kv True dom_update update_conv' e ih cong: sum.case_cong)
  next
    case False
    then show ?thesis
      by (simp add: kv dom_update update_conv' ih cong: sum.case_cong)
  qed
qed


lemma validate_items_at_int_key:
  "validate_items (PDict (AList.update k (PBool b) d)) [(k, PDict [(''type'', PStr ''int'')])] = Inr ()"
  by (simp add: dom_update update_conv')


lemma validate_items_config_with:
  assumes "\<And>vs c. (k, vs) \<in> set items \<Longrightarrow>
             validate_entry (config_with ks v c) k vs = validate_entry (config_with ks v' c) k vs"
  shows "validate_items (config_with (k # ks) v c) items =
         validate_items (config_with (k # ks) v' c) items"
proof (cases c)
  case (PDict d)
  show ?thesis
    unfolding PDict config_with.simps
    by (rule validate_items_update_cong) (rule assms)
qed simp_all

lemma validate_entry_dict_config_with:
  assumes "\<And>c. validate_items (config_with (k # ks) v c) sub =
               validate_items (config_with (k # ks) v' c) sub"
  shows "validate_entry (config_with (k # ks) v c) key
           (PDict [(''type'', PStr ''dict''), (''schema'', PDict sub)]) =
         validate_entry (config_with (k # ks) v' c) key
           (PDict [(''type'', PStr ''dict''), (''schema'', PDict sub)])"
proof (cases c)
  case (PDict d)
  have "validate_items (config_with (k # ks) v (PDict d)) sub =
        validate_items (config_with (k # ks) v' (PDict d)) sub"
    by (rule assms)
  then show ?thesis
    unfolding PDict by simp
qed simp_all

lemma validate_entry_bool_for_int:
  "validate_entry (config_with [] (PBool b) c) key (PDict [(''type'', PStr ''int'')]) =
   validate_entry (config_with [] (PInt n) c) key (PDict [(''type'', PStr ''int'')])"
  by simp

lemma validate_window_size_bool:
  assumes k: "k = ''width'' \<or> k = ''height''"
  shows "validate get_config_schema (config_with [''ui'', ''window_size'', k] (PBool b) cfg) =
         validate get_config_schema (config_with [''ui'', ''window_size'', k] (PInt n) cfg)"
proof -
  let ?ws = "[(''width'', PDict [(''type'', PStr ''int'')]),
              (''height'', PDict [(''type'', PStr ''int'')])]"
  have 1: "validate_items (config_with [k] (PBool b) c) ?ws =
           validate_items (config_with [k] (PInt n) c) ?ws" for c
  proof (rule validate_items_config_with)
    fix vs c
    assume "(k, vs) \<in> set ?ws"
    then have "vs = PDict [(''type'', PStr ''int'')]" by auto
    then show "validate_entry (config_with [] (PBool b) c) k vs =
               validate_entry (config_with [] (PInt n) c) k vs"
      by (simp only: validate_entry_bool_for_int)
  qed
  have 2: "validate_entry (config_with [k] (PBool b) c) key
             (PDict [(''type'', PStr ''dict''), (''schema'', PDict ?ws)]) =
           validate_entry (config_with [k] (PInt n) c) key
             (PDict [(''type'', PStr ''dict''), (''schema'', PDict ?ws)])" for c key
    by (rule validate_entry_dict_config_with) (rule 1)
  let ?ui = "[(''theme'', PDict
                [(''type'', PStr ''str''),
                 (''values'', PList [PStr ''dark'', PStr ''light''])]),
             (''language'', PDict
                [(''type'', PStr ''str''),
                 (''values'', PList [PStr ''zh_CN'', PStr ''en_US''])]),
             (''window_size'', PDict
                [(''type'', PStr ''dict''), (''schema'', PDict ?ws)])]"
  have 3: "validate_items (config_with [''window_size'', k] (PBool b) c) ?ui =
           validate_items (config_with [''window_size'', k] (PInt n) c) ?ui" for c
  proof (rule validate_items_config_with)
    fix vs c
    assume "(''window_size'', vs) \<in> set ?ui"
    then have "vs = PDict [(''type'', PStr ''dict''), (''schema'', PDict ?ws)]" by simp
    then show "validate_entry (config_with [k] (PBool b) c) ''window_size'' vs =
               validate_entry (config_with [k] (PInt n) c) ''window_size'' vs"
      by (simp only: 2)
  qed
  have 4: "validate_entry (config_with [''window_size'', k] (PBool b) c) key
             (PDict [(''type'', PStr ''dict''), (''schema'', PDict ?ui)]) =
           validate_entry (config_with [''window_size'', k] (PInt n) c) key
             (PDict [(''type'', PStr ''dict''), (''schema'', PDict ?ui)])" for c key
    by (rule validate_entry_dict_config_with) (rule 3)
  obtain items where s: "get_config_schema = PDict items"
    and u: "\<And>vs. (''ui'', vs) \<in> set items \<Longrightarrow>
              vs = PDict [(''type'', PStr ''dict''), (''schema'', PDict ?ui)]"
    by (auto simp: get_config_schema_def)
  have "validate_items (config_with [''ui'', ''window_size'', k] (PBool b) cfg) items =
        validate_items (config_with [''ui'', ''window_size'', k] (PInt n) cfg) items"
  proof (rule validate_items_config_with)
    fix vs c
    assume "(''ui'', vs) \<in> set items"
    then have "vs = PDict [(''type'', PStr ''dict''), (''schema'', PDict ?ui)]" by (rule u)
    then show "validate_entry (config_with [''window_size'', k] (PBool b) c) ''ui'' vs =
               validate_entry (config_with [''window_size'', k] (PInt n) c) ''ui'' vs"
      by (simp only: 4)
  qed
  then show ?thesis by (simp add: validate_def s)
qed

lemma validate_refresh_interval_bool:
  "validate get_config_schema (config_with [''process'', ''refresh_interval''] (PBool b) cfg) =
   validate get_config_schema (config_with [''process'', ''refresh_interval''] (PInt n) cfg)"
proof -
  let ?pr = "[(''refresh_interval'', PDict [(''type'', PStr ''int'')]),
              (''show_system_processes'', PDict [(''type'', PStr ''bool'')])]"
  have 1: "validate_items (config_with [''refresh_interval''] (PBool b) c) ?pr =
           validate_items (config_with [''refresh_interval''] (PInt n) c) ?pr" for c
  proof (rule validate_items_config_with)
    fix vs c
    assume "(''refresh_interval'', vs) \<in> set ?pr"
    then have "vs = PDict [(''type'', PStr ''int'')]" by simp
    then show "validate_entry (config_with [] (PBool b) c) ''refresh_interval'' vs =
               validate_entry (config_with [] (PInt n) c) ''refresh_interval'' vs"
      by (simp only: validate_entry_bool_for_int)
  qed
  have 2: "validate_entry (config_with [''refresh_interval''] (PBool b) c) key
             (PDict [(''type'', PStr ''dict''), (''schema'', PDict ?pr)]) =
           validate_entry (config_with [''refresh_interval''] (PInt n) c) key
             (PDict [(''type'', PStr ''dict''), (''schema'', PDict ?pr)])" for c key
    by (rule validate_entry_dict_config_with) (rule 1)
  obtain items where s: "get_config_schema = PDict items"
    and u: "\<And>vs. (''process'', vs) \<in> set items \<Longrightarrow>
              vs = PDict [(''type'', PStr ''dict''), (''schema'', PDict ?pr)]"
    by (auto simp: get_config_schema_def)
  have "validate_items (config_with [''process'', ''refresh_interval''] (PBool b) cfg) items =
        validate_items (config_with [''process'', ''refresh_interval''] (PInt n) cfg) items"
  proof (rule validate_items_config_with)
    fix vs c
    assume "(''process'', vs) \<in> set items"
    then have "vs = PDict [(''type'', PStr ''dict''), (''schema'', PDict ?pr)]" by (rule u)
    then show "validate_entry (config_with [''refresh_interval''] (PBool b) c) ''process'' vs =
               validate_entry (config_with [''refresh_interval''] (PInt n) c) ''process'' vs"
      by (simp only: 2)
  qed
  then show ?thesis by (simp add: validate_def s)
qed

lemma default_with_bool_width_valid:
  "validate get_config_schema
     (config_with [''ui'', ''window_size'', ''width''] (PBool b) get_default_config) = Inr True"
  by (simp add: validate_def get_config_schema_def get_default_config_def default_items_def
      validate_values_def)

lemma extends_ret: "extends (ret v)"
  by (simp add: extends_def ret_def)

lemma extends_raise: "extends (raise e)"
  by (simp add: extends_def raise_def)

lemma extends_lift: "extends (lift r)"
  by (simp add: extends_def lift_def)

lemma extends_native: "extends (native env c)"
  by (simp add: extends_def native_def)

lemma extends_threads_of: "extends (threads_of env pid)"
  by (simp add: extends_def threads_of_def)

lemma extends_config_get: "extends (config_get cfg sect key)"
  unfolding config_get_def by (rule extends_lift)

lemma extends_hide_thread: "extends (hide_thread h)"
  unfolding hide_thread_def by (rule extends_ret)

lemma extends_protect_memory: "extends (protect_memory h addr sz)"
  unfolding protect_memory_def by (rule extends_ret)

lemma extends_and_then:
  assumes "extends m" and "\<And>v. extends (f v)"
  shows "extends (and_then m f)"
  unfolding extends_def
proof
  fix tr
  obtain r tr' where m: "m tr = (r, tr')" by (cases "m tr")
  from assms(1) obtain a where a: "tr' = tr @ a"
    unfolding extends_def by (metis m snd_conv)
  show "\<exists>more. snd (and_then m f tr) = tr @ more"
  proof (cases r)
    case (Inl e)
    then show ?thesis by (simp add: and_then_def m a)
  next
    case (Inr v)
    from assms(2) [of v] obtain b where "snd (f v tr') = tr' @ b"
      unfolding extends_def by blast
    then show ?thesis by (simp add: and_then_def m Inr a)
  qed
qed

lemma extends_encrypt_shellcode: "extends (encrypt_shellcode cfg sc)"
  unfolding encrypt_shellcode_def
  by (auto intro!: extends_and_then extends_config_get extends_ret)

lemma extends_try_except:
  assumes "extends m" and "\<And>e. extends (h e)"
  shows "extends (try_except m h)"
  unfolding extends_def
proof
  fix tr
  obtain r tr' where m: "m tr = (r, tr')" by (cases "m tr")
  from assms(1) obtain a where a: "tr' = tr @ a"
    unfolding extends_def by (metis m snd_conv)
  show "\<exists>more. snd (try_except m h tr) = tr @ more"
  proof (cases r)
    case (Inr v)
    then show ?thesis by (simp add: try_except_def m a)
  next
    case (Inl e)
    from assms(2) [of e] obtain b where "snd (h e tr') = tr' @ b"
      unfolding extends_def by blast
    then show ?thesis by (simp add: try_except_def m Inl a)
  qed
qed

lemma try_finally_trace:
  "snd (try_finally m fin tr) = snd (fin (snd (m tr)))"
  by (simp add: try_finally_def split: prod.splits sum.splits)

lemma extends_try_finally:
  assumes "extends m" and "extends fin"
  shows "extends (try_finally m fin)"
  unfolding extends_def try_finally_trace
  using assms unfolding extends_def by (metis append.assoc)

lemma finally_closes:
  assumes "extends m"
  shows "\<exists>mid. snd (try_finally m (native env c) tr) = tr @ mid @ [c]"
proof -
  from assms obtain mid where "snd (m tr) = tr @ mid" unfolding extends_def by blast
  then show ?thesis by (simp add: try_finally_trace native_def)
qed

lemma extends_open_threads: "extends (open_threads env ts)"
  by (induction ts) (auto intro!: extends_ret extends_and_then extends_native)

lemma extends_queue_apcs: "extends (queue_apcs env addr hs success)"
  by (induction hs arbitrary: success)
     (auto intro!: extends_ret extends_and_then extends_native)

lemma extends_first_thread: "extends (first_thread env ts)"
  by (induction ts) (auto intro!: extends_ret extends_and_then extends_native)

lemma extends_classic: "extends (classic_injection env cfg h addr)"
  unfolding classic_injection_def
  by (auto intro!: extends_try_except extends_and_then extends_native extends_ret
      extends_config_get extends_hide_thread)

lemma extends_apc: "extends (apc_injection env h addr pid)"
  unfolding apc_injection_def
  by (auto intro!: extends_try_except extends_and_then extends_threads_of
      extends_open_threads extends_queue_apcs extends_ret)

lemma extends_hijack: "extends (thread_hijack env cfg h addr pid)"
  unfolding thread_hijack_def
  by (auto intro!: extends_try_except extends_and_then extends_threads_of
      extends_first_thread extends_try_finally extends_native extends_ret
      extends_config_get extends_hide_thread
      split: option.splits)

lemma extends_module: "extends (module_injection h addr)"
  unfolding module_injection_def by (rule extends_ret)

lemma extends_inject_with_handle: "extends (inject_with_handle env cfg pid h sc)"
  unfolding inject_with_handle_def
  by (auto intro!: extends_and_then extends_native extends_raise extends_ret
      extends_classic extends_apc extends_hijack extends_module
      extends_config_get extends_encrypt_shellcode extends_protect_memory)

lemma inject_body_closes:
  assumes "path_exists env shellcode_file" "pid_exists env pid" "read_file env shellcode_file = Inr sc"
    and "kernel32 env [] (OpenProcess PROCESS_ALL_ACCESS False pid) = Inr h" "h \<noteq> 0"
  shows "\<exists>mid. snd (inject_body env cfg pid shellcode_file []) =
           OpenProcess PROCESS_ALL_ACCESS False pid # mid @ [CloseHandle h]"
proof -
  let ?open = "OpenProcess PROCESS_ALL_ACCESS False pid"
  obtain mid where mid: "snd (try_finally (inject_with_handle env cfg pid h sc)
                          (native env (CloseHandle h)) [?open]) =
                        [?open] @ mid @ [CloseHandle h]"
    using finally_closes [OF extends_inject_with_handle] by blast
  have "snd (inject_body env cfg pid shellcode_file []) =
        snd (try_finally (inject_with_handle env cfg pid h sc)
               (native env (CloseHandle h)) [?open])"
    using assms
    by (simp add: inject_body_def try_except_def and_then_def lift_def native_def raise_def
        split: prod.splits sum.splits)
  with mid show ?thesis by simp
qed

lemma inject_body_no_call_without_open:
  assumes "snd (inject_body env cfg pid shellcode_file []) \<noteq> []"
  shows "path_exists env shellcode_file \<and> pid_exists env pid \<and> (\<exists>sc. read_file env shellcode_file = Inr sc) \<and>
         hd (snd (inject_body env cfg pid shellcode_file [])) = OpenProcess PROCESS_ALL_ACCESS False pid"
proof -
  let ?open = "OpenProcess PROCESS_ALL_ACCESS False pid"
  have pre: "path_exists env shellcode_file \<and> pid_exists env pid \<and> (\<exists>sc. read_file env shellcode_file = Inr sc)"
  proof (rule ccontr)
    assume "\<not> ?thesis"
    then have "snd (inject_body env cfg pid shellcode_file []) = []"
      by (cases "read_file env shellcode_file")
         (auto simp: inject_body_def try_except_def and_then_def lift_def raise_def)
    with assms show False by simp
  qed
  then obtain sc where sc: "read_file env shellcode_file = Inr sc" by blast
  have "hd (snd (inject_body env cfg pid shellcode_file [])) = ?open"
  proof (cases "kernel32 env [] ?open")
    case (Inl e)
    then show ?thesis using pre sc
      by (simp add: inject_body_def try_except_def and_then_def lift_def raise_def native_def)
  next
    case (Inr h)
    show ?thesis
    proof (cases "h = 0")
      case True
      then show ?thesis using pre sc Inr
        by (simp add: inject_body_def try_except_def and_then_def lift_def raise_def
            native_def)
    next
      case False
      from inject_body_closes [OF _ _ sc Inr False] pre
      obtain mid where "snd (inject_body env cfg pid shellcode_file []) = ?open # mid @ [CloseHandle h]"
        by blast
      then show ?thesis by simp
    qed
  qed
  with pre show ?thesis by simp
qed


lemma classic_config_lookups:
  "config_lookup classic_config ''injection'' ''encryption'' = Inr (PStr ''xor'')"
  "config_lookup classic_config ''injection'' ''method'' = Inr (PStr ''classic'')"
  "config_lookup classic_config ''protection'' ''hide_thread'' = Inr (PBool True)"
  "config_lookup classic_config ''protection'' ''protect_memory'' = Inr (PBool True)"
  by (simp_all add: config_lookup_def classic_config_def)

lemma manager_object_lookup:
  "config_lookup ConfigManagerObject sect key = Inl not_subscriptable"
  by (simp add: config_lookup_def)

section \<open>Verified claims\<close>

text \<open>
  C1 (as amended). While the status is not ready, the body of \<^verbatim>\<open>execute\<close> raises an
  Operation error whose message holds the tool's name and the current status, leaves
  the tool unchanged and does not depend on \<^verbatim>\<open>_execute\<close>; the decorated \<^verbatim>\<open>execute\<close>
  returns that error to its caller as an error result with code \<open>ERR_OPERATION\<close>.
  When the status is ready, \<^verbatim>\<open>_execute\<close> runs on a tool whose status is running; if it
  returns, the status is set to ready and its value is returned; if it raises, the
  status is set to error, the exception is stored as the last error and the body
  re-raises it; the decorated \<^verbatim>\<open>execute\<close> leaves the tool in that state and, for an
  exception that is a \<^verbatim>\<open>BedToolsError\<close> or whose class name has no registered handler,
  returns the error result \<open>handle_error\<close> builds for it, which carries the message of
  the exception.
\<close>

theorem execute_status_machine:
  "(status self \<noteq> READY \<longrightarrow>
      execute_body impl now args self =
        (Inl (OperationError (msg_state_incorrect (tool_name self) (status self))), self) \<and>
      execute_body impl' now args self = execute_body impl now args self \<and>
      (\<exists>pre mid. msg_state_incorrect (tool_name self) (status self) =
                    pre @ tool_name self @ mid @ status_str (status self)) \<and>
      execute impl now args self =
        (Inr (ErrorResult
           \<lparr>res_status = ''error'', res_error_code = ''ERR_OPERATION'',
            res_message = msg_state_incorrect (tool_name self) (status self),
            res_type = ''operation'', res_severity = ''ERROR'',
            res_category = ''BUSINESS''\<rparr>), self)) \<and>
   (status self = READY \<longrightarrow>
      status (self\<lparr>status := RUNNING, progress := progress_start now (progress self)\<rparr>) =
        RUNNING \<and>
      (\<forall>r self'.
         impl args (self\<lparr>status := RUNNING, progress := progress_start now (progress self)\<rparr>) =
           (Inr r, self') \<longrightarrow>
         execute_body impl now args self = (Inr r, self'\<lparr>status := READY\<rparr>) \<and>
         execute impl now args self = (Inr (Value r), self'\<lparr>status := READY\<rparr>)) \<and>
      (\<forall>e self'.
         impl args (self\<lparr>status := RUNNING, progress := progress_start now (progress self)\<rparr>) =
           (Inl e, self') \<longrightarrow>
         execute_body impl now args self =
           (Inl e, self'\<lparr>status := ERROR, last_error := Some e\<rparr>) \<and>
         snd (execute impl now args self) = self'\<lparr>status := ERROR, last_error := Some e\<rparr> \<and>
         (is_bedtools_error e \<or> handler_kind (class_name e) = None \<longrightarrow>
            (\<exists>r. handle_error e = Inr r \<and> res_status r = ''error'' \<and>
                 res_message r = exn_str e \<and>
                 execute impl now args self =
                   (Inr (ErrorResult r),
                    self'\<lparr>status := ERROR, last_error := Some e\<rparr>)))))"
proof (intro conjI impI allI)
  assume n: "status self \<noteq> READY"
  show b: "execute_body impl now args self =
        (Inl (OperationError (msg_state_incorrect (tool_name self) (status self))), self)"
    using n by (simp add: execute_body_def)
  show "execute_body impl' now args self = execute_body impl now args self"
    using n by (simp add: execute_body_def)
  show "\<exists>pre mid. msg_state_incorrect (tool_name self) (status self) =
                    pre @ tool_name self @ mid @ status_str (status self)"
    unfolding msg_state_incorrect_def
    by (metis append.assoc)
  show "execute impl now args self =
        (Inr (ErrorResult
           \<lparr>res_status = ''error'', res_error_code = ''ERR_OPERATION'',
            res_message = msg_state_incorrect (tool_name self) (status self),
            res_type = ''operation'', res_severity = ''ERROR'',
            res_category = ''BUSINESS''\<rparr>), self)"
    unfolding execute_def b by (simp add: error_handler_def)
next
  show "status (self\<lparr>status := RUNNING, progress := progress_start now (progress self)\<rparr>) =
        RUNNING"
    by simp
next
  fix r self'
  assume rdy: "status self = READY"
    and ok: "impl args (self\<lparr>status := RUNNING,
                progress := progress_start now (progress self)\<rparr>) = (Inr r, self')"
  show b: "execute_body impl now args self = (Inr r, self'\<lparr>status := READY\<rparr>)"
    using rdy ok by (simp add: execute_body_def Let_def)
  show "execute impl now args self = (Inr (Value r), self'\<lparr>status := READY\<rparr>)"
    unfolding execute_def b by (simp add: error_handler_def)
next
  fix e self'
  assume rdy: "status self = READY"
    and bad: "impl args (self\<lparr>status := RUNNING,
                progress := progress_start now (progress self)\<rparr>) = (Inl e, self')"
  show b: "execute_body impl now args self =
           (Inl e, self'\<lparr>status := ERROR, last_error := Some e\<rparr>)"
    using rdy bad by (simp add: execute_body_def Let_def)
  show "snd (execute impl now args self) = self'\<lparr>status := ERROR, last_error := Some e\<rparr>"
    unfolding execute_def b by (simp add: error_handler_def split: sum.splits)
  assume "is_bedtools_error e \<or> handler_kind (class_name e) = None"
  then obtain r where r: "handle_error e = Inr r" "res_status r = ''error''"
      "res_message r = exn_str e"
    using handle_error_returns by blast
  have "execute impl now args self =
          (Inr (ErrorResult r), self'\<lparr>status := ERROR, last_error := Some e\<rparr>)"
    unfolding execute_def b by (simp add: error_handler_def r(1))
  with r show "\<exists>r. handle_error e = Inr r \<and> res_status r = ''error'' \<and>
                 res_message r = exn_str e \<and>
                 execute impl now args self =
                   (Inr (ErrorResult r),
                    self'\<lparr>status := ERROR, last_error := Some e\<rparr>)"
    by blast
qed

theorem execute_status_machine_witness:
  "status (fresh_tool ''Code Obfuscator'') \<noteq> READY \<and>
   execute counting_execute 7 [''in'', ''out'']
       (fresh_tool ''Code Obfuscator'') =
     (Inr (ErrorResult
        \<lparr>res_status = ''error'', res_error_code = ''ERR_OPERATION'',
         res_message = msg_state_incorrect ''Code Obfuscator'' UNINITIALIZED,
         res_type = ''operation'', res_severity = ''ERROR'', res_category = ''BUSINESS''\<rparr>),
      fresh_tool ''Code Obfuscator'') \<and>
   status ((fresh_tool ''Code Obfuscator'')\<lparr>status := READY\<rparr>) = READY \<and>
   execute counting_execute 7 [''in'', ''out'']
       ((fresh_tool ''Code Obfuscator'')\<lparr>status := READY\<rparr>) =
     (Inr (Value 2),
      (fresh_tool ''Code Obfuscator'')
        \<lparr>status := READY,
         progress := progress_start 7 (progress (fresh_tool ''Code Obfuscator''))\<rparr>) \<and>
   execute failing_execute 7
       [''in'', ''out''] ((fresh_tool ''Code Obfuscator'')\<lparr>status := READY\<rparr>) =
     (Inr (ErrorResult
        \<lparr>res_status = ''error'', res_error_code = ''ERR_UNKNOWN'', res_message = ''bad'',
         res_type = ''unknown'', res_severity = ''ERROR'', res_category = ''SYSTEM''\<rparr>),
      (fresh_tool ''Code Obfuscator'')
        \<lparr>status := ERROR,
         progress := progress_start 7 (progress (fresh_tool ''Code Obfuscator'')),
         last_error := Some (OtherException ''ValueError'' ''bad'')\<rparr>)"
proof -
  let ?ok = counting_execute
  let ?bad = failing_execute
  let ?fresh = "fresh_tool ''Code Obfuscator''"
  let ?ready = "?fresh\<lparr>status := READY\<rparr>"
  have n: "status ?fresh \<noteq> READY" by (simp add: fresh_tool_def)
  have r: "status ?ready = READY" by simp
  note a = execute_status_machine
    [where self = ?fresh and impl = ?ok and impl' = ?ok and now = 7 and args = "[''in'', ''out'']"]
  note b = execute_status_machine
    [where self = ?ready and impl = ?ok and impl' = ?ok and now = 7
       and args = "[''in'', ''out'']"]
  note c = execute_status_machine
    [where self = ?ready and impl = ?bad and impl' = ?bad and now = 7
       and args = "[''in'', ''out'']"]
  from a n have 1: "execute ?ok 7 [''in'', ''out''] ?fresh =
     (Inr (ErrorResult
        \<lparr>res_status = ''error'', res_error_code = ''ERR_OPERATION'',
         res_message = msg_state_incorrect ''Code Obfuscator'' UNINITIALIZED,
         res_type = ''operation'', res_severity = ''ERROR'', res_category = ''BUSINESS''\<rparr>),
      ?fresh)"
    by (simp add: fresh_tool_def)
  from b r have 2: "execute ?ok 7 [''in'', ''out''] ?ready =
     (Inr (Value 2), ?fresh\<lparr>status := READY, progress := progress_start 7 (progress ?fresh)\<rparr>)"
    by (simp add: fresh_tool_def counting_execute_def)
  from c r have 3: "execute ?bad 7 [''in'', ''out''] ?ready =
     (Inr (ErrorResult
        \<lparr>res_status = ''error'', res_error_code = ''ERR_UNKNOWN'', res_message = ''bad'',
         res_type = ''unknown'', res_severity = ''ERROR'', res_category = ''SYSTEM''\<rparr>),
      ?fresh\<lparr>status := ERROR, progress := progress_start 7 (progress ?fresh),
         last_error := Some (OtherException ''ValueError'' ''bad'')\<rparr>)"
    by (simp add: fresh_tool_def failing_execute_def handler_kind_def handle_error_unregistered)
  from n r 1 2 3 show ?thesis by blast
qed

theorem execute_uninitialized_counterexample:
  "fst (execute counting_execute 7 [''in'', ''out'']
          (fresh_tool ''Code Obfuscator'')) \<noteq>
     Inl (OperationError (msg_state_incorrect ''Code Obfuscator'' UNINITIALIZED)) \<and>
   fst (execute counting_execute 7 [''in'', ''out'']
          (fresh_tool ''Code Obfuscator'')) =
     Inr (ErrorResult
        \<lparr>res_status = ''error'', res_error_code = ''ERR_OPERATION'',
         res_message = msg_state_incorrect ''Code Obfuscator'' UNINITIALIZED,
         res_type = ''operation'', res_severity = ''ERROR'', res_category = ''BUSINESS''\<rparr>)"
  by (simp add: execute_def execute_body_def error_handler_def fresh_tool_def)

text \<open>
  C2 (as amended). Let A be loaded. The dependents of A are exactly the names in the
  metadata cache whose metadata lists A among its dependencies. If there is one,
  \<^verbatim>\<open>unload_plugin\<close> fails with a Plugin error (returned by the decorator as an error
  result with code \<open>ERR_PLUGIN\<close>) whose message holds the name of every dependent,
  and the manager, so also the registry entry of A, is unchanged. If there is none,
  A's \<^verbatim>\<open>cleanup\<close> is called; when it returns, A is removed from the registry, the
  metadata cache and the file-watch table and the call returns true; when it raises,
  the call fails with a Plugin error that quotes the exception and A stays in all
  three tables.
\<close>

theorem unload_plugin_dependents:
  "plugin_name \<in> fst ` set (plugins self) \<longrightarrow>
     set (find_dependent_plugins self plugin_name) =
       {n. \<exists>md. (n, md) \<in> set (metadata_cache self) \<and>
                plugin_name \<in> fst ` set (dependencies md)} \<and>
     (find_dependent_plugins self plugin_name \<noteq> [] \<longrightarrow>
        (\<exists>r. unload_plugin plugin_name self = (Inr (ErrorResult r), self) \<and>
             res_error_code r = ''ERR_PLUGIN'' \<and>
             (\<forall>n md. (n, md) \<in> set (metadata_cache self) \<and>
                     plugin_name \<in> fst ` set (dependencies md) \<longrightarrow>
                     (\<exists>pre post. res_message r = pre @ n @ post)))) \<and>
     (find_dependent_plugins self plugin_name = [] \<longrightarrow>
        (\<forall>plugin. map_of (plugins self) plugin_name = Some plugin \<longrightarrow>
           (cleanup_outcome plugin = None \<longrightarrow>
              unload_plugin plugin_name self =
                (Inr (Value True),
                 self\<lparr>cleanup_calls := cleanup_calls self @ [plugin_name],
                      plugins := AList.delete plugin_name (plugins self),
                      metadata_cache := AList.delete plugin_name (metadata_cache self),
                      file_watchers := AList.delete plugin_name (file_watchers self)\<rparr>) \<and>
              plugin_name \<notin> fst ` set (plugins (snd (unload_plugin plugin_name self))) \<and>
              plugin_name \<notin> fst ` set (metadata_cache (snd (unload_plugin plugin_name self))) \<and>
              plugin_name \<notin> fst ` set (file_watchers (snd (unload_plugin plugin_name self)))) \<and>
           (\<forall>e. cleanup_outcome plugin = Some e \<longrightarrow>
              unload_plugin plugin_name self =
                (Inr (ErrorResult
                        \<lparr>res_status = ''error'', res_error_code = ''ERR_PLUGIN'',
                         res_message = msg_unload_failed plugin_name (exn_str e),
                         res_type = ''plugin'', res_severity = ''ERROR'',
                         res_category = ''PLUGIN''\<rparr>),
                 self\<lparr>cleanup_calls := cleanup_calls self @ [plugin_name]\<rparr>))))"
proof (intro impI conjI allI)
  show "set (find_dependent_plugins self plugin_name) =
       {n. \<exists>md. (n, md) \<in> set (metadata_cache self) \<and>
                plugin_name \<in> fst ` set (dependencies md)}"
    by (simp add: find_dependent_plugins_def find_dependent_loop_set)
next
  assume l: "plugin_name \<in> fst ` set (plugins self)"
    and d: "find_dependent_plugins self plugin_name \<noteq> []"
  let ?m = "msg_unload_failed plugin_name
        (msg_cannot_unload plugin_name (find_dependent_plugins self plugin_name))"
  let ?r = "\<lparr>res_status = ''error'', res_error_code = ''ERR_PLUGIN'', res_message = ?m,
             res_type = ''plugin'', res_severity = ''ERROR'', res_category = ''PLUGIN''\<rparr>"
  have "unload_plugin plugin_name self = (Inr (ErrorResult ?r), self)"
    unfolding unload_plugin_def unload_blocked [OF l d]
    by (simp add: error_handler_def)
  moreover have "res_error_code ?r = ''ERR_PLUGIN''"
    by simp
  moreover have "\<forall>n md. (n, md) \<in> set (metadata_cache self) \<and>
                     plugin_name \<in> fst ` set (dependencies md) \<longrightarrow>
                     (\<exists>pre post. res_message ?r = pre @ n @ post)"
  proof (intro allI impI)
    fix n md
    assume h: "(n, md) \<in> set (metadata_cache self) \<and>
               plugin_name \<in> fst ` set (dependencies md)"
    have "\<exists>pre post. ?m = pre @ n @ post"
      by (rule blocked_message_names [OF conjunct1 [OF h] conjunct2 [OF h]])
    then show "\<exists>pre post. res_message ?r = pre @ n @ post"
      by simp
  qed
  ultimately show "\<exists>r. unload_plugin plugin_name self = (Inr (ErrorResult r), self) \<and>
             res_error_code r = ''ERR_PLUGIN'' \<and>
             (\<forall>n md. (n, md) \<in> set (metadata_cache self) \<and>
                     plugin_name \<in> fst ` set (dependencies md) \<longrightarrow>
                     (\<exists>pre post. res_message r = pre @ n @ post))"
    by blast
next
  fix plugin
  assume l: "plugin_name \<in> fst ` set (plugins self)"
    and d: "find_dependent_plugins self plugin_name = []"
    and p: "map_of (plugins self) plugin_name = Some plugin"
    and c: "cleanup_outcome plugin = None"
  show u: "unload_plugin plugin_name self =
                (Inr (Value True),
                 self\<lparr>cleanup_calls := cleanup_calls self @ [plugin_name],
                      plugins := AList.delete plugin_name (plugins self),
                      metadata_cache := AList.delete plugin_name (metadata_cache self),
                      file_watchers := AList.delete plugin_name (file_watchers self)\<rparr>)"
    using l d p c
    by (simp add: unload_plugin_def unload_plugin_body_def unload_plugin_try_def Let_def
        error_handler_def)
  show "plugin_name \<notin> fst ` set (plugins (snd (unload_plugin plugin_name self)))"
    unfolding u by (simp add: delete_notin_dom)
  show "plugin_name \<notin> fst ` set (metadata_cache (snd (unload_plugin plugin_name self)))"
    unfolding u by (simp add: delete_notin_dom)
  show "plugin_name \<notin> fst ` set (file_watchers (snd (unload_plugin plugin_name self)))"
    unfolding u by (simp add: delete_notin_dom)
next
  fix plugin e
  assume l: "plugin_name \<in> fst ` set (plugins self)"
    and d: "find_dependent_plugins self plugin_name = []"
    and p: "map_of (plugins self) plugin_name = Some plugin"
    and c: "cleanup_outcome plugin = Some e"
  show "unload_plugin plugin_name self =
                (Inr (ErrorResult
                        \<lparr>res_status = ''error'', res_error_code = ''ERR_PLUGIN'',
                         res_message = msg_unload_failed plugin_name (exn_str e),
                         res_type = ''plugin'', res_severity = ''ERROR'',
                         res_category = ''PLUGIN''\<rparr>),
                 self\<lparr>cleanup_calls := cleanup_calls self @ [plugin_name]\<rparr>)"
    using l d p c
    by (simp add: unload_plugin_def unload_plugin_body_def unload_plugin_try_def Let_def
        error_handler_def)
qed

theorem unload_plugin_dependents_witness:
  "''A'' \<in> fst ` set (plugins (manager_with
      [plugin_named ''A'' [] None, plugin_named ''B'' [(''A'', ''1.0.0'')] None])) \<and>
   find_dependent_plugins (manager_with
      [plugin_named ''A'' [] None, plugin_named ''B'' [(''A'', ''1.0.0'')] None]) ''A'' =
     [''B''] \<and>
   snd (unload_plugin ''A'' (manager_with
      [plugin_named ''A'' [] None, plugin_named ''B'' [(''A'', ''1.0.0'')] None])) =
     manager_with [plugin_named ''A'' [] None, plugin_named ''B'' [(''A'', ''1.0.0'')] None] \<and>
   find_dependent_plugins (manager_with
      [plugin_named ''A'' [] None, plugin_named ''B'' [(''A'', ''1.0.0'')] None]) ''B'' = [] \<and>
   fst (unload_plugin ''B'' (manager_with
      [plugin_named ''A'' [] None, plugin_named ''B'' [(''A'', ''1.0.0'')] None])) =
     Inr (Value True) \<and>
   ''B'' \<notin> fst ` set (plugins (snd (unload_plugin ''B'' (manager_with
      [plugin_named ''A'' [] None, plugin_named ''B'' [(''A'', ''1.0.0'')] None]))))"
proof -
  define M where
    "M = manager_with [plugin_named ''A'' [] None, plugin_named ''B'' [(''A'', ''1.0.0'')] None]"
  have la: "''A'' \<in> fst ` set (plugins M)"
    by (simp add: M_def manager_with_def plugin_named_def)
  have lb: "''B'' \<in> fst ` set (plugins M)"
    by (simp add: M_def manager_with_def plugin_named_def)
  have da: "find_dependent_plugins M ''A'' = [''B'']"
    by (simp add: M_def manager_with_def plugin_named_def find_dependent_plugins_def)
  have db: "find_dependent_plugins M ''B'' = []"
    by (simp add: M_def manager_with_def plugin_named_def find_dependent_plugins_def)
  have pb: "map_of (plugins M) ''B'' = Some (plugin_named ''B'' [(''A'', ''1.0.0'')] None)"
    by (simp add: M_def manager_with_def plugin_named_def)
  have cb: "cleanup_outcome (plugin_named ''B'' [(''A'', ''1.0.0'')] None) = None"
    by (simp add: plugin_named_def)
  note a = unload_plugin_dependents [where plugin_name = "''A''" and self = M]
  note b = unload_plugin_dependents [where plugin_name = "''B''" and self = M]
  have na: "find_dependent_plugins M ''A'' \<noteq> []" by (simp add: da)
  from a [THEN mp, OF la, THEN conjunct2, THEN conjunct1, THEN mp, OF na]
  obtain r where "unload_plugin ''A'' M = (Inr (ErrorResult r), M)" by blast
  then have 1: "snd (unload_plugin ''A'' M) = M" by simp
  note b' = b [THEN mp, OF lb, THEN conjunct2, THEN conjunct2, THEN mp, OF db,
      THEN spec, THEN mp, OF pb, THEN conjunct1, THEN mp, OF cb]
  have 2: "fst (unload_plugin ''B'' M) = Inr (Value True)"
    "''B'' \<notin> fst ` set (plugins (snd (unload_plugin ''B'' M)))"
    using conjunct1 [OF b'] conjunct1 [OF conjunct2 [OF b']] by (simp, blast)
  from la da 1 db 2 show ?thesis unfolding M_def by blast
qed

theorem unload_plugin_cleanup_raises_counterexample:
  "''A'' \<in> fst ` set (plugins (manager_with
      [plugin_named ''A'' [] (Some (OtherException ''RuntimeError'' ''busy''))])) \<and>
   find_dependent_plugins (manager_with
      [plugin_named ''A'' [] (Some (OtherException ''RuntimeError'' ''busy''))]) ''A'' = [] \<and>
   fst (unload_plugin ''A'' (manager_with
      [plugin_named ''A'' [] (Some (OtherException ''RuntimeError'' ''busy''))])) \<noteq>
     Inr (Value True) \<and>
   ''A'' \<in> fst ` set (plugins (snd (unload_plugin ''A'' (manager_with
      [plugin_named ''A'' [] (Some (OtherException ''RuntimeError'' ''busy''))]))))"
  by (simp add: manager_with_def plugin_named_def find_dependent_plugins_def
      unload_plugin_def unload_plugin_body_def unload_plugin_try_def error_handler_def)

text \<open>
  C3 (as amended). For a stored file that is a dictionary whose \<^verbatim>\<open>_version\<close> is absent
  or differs from \<open>1.0.0\<close>, \<^verbatim>\<open>_migrate_config\<close> produces a dictionary with exactly the
  keys of the default configuration, in their order, where a key holds the old file's
  value if it is a default key, occurs in the old file and does not start with an
  underscore, and the default value otherwise. If this migrated configuration passes
  schema validation, \<^verbatim>\<open>load_config\<close> keeps it and saves it with \<^verbatim>\<open>_version\<close> set to
  \<open>1.0.0\<close>. If it does not, \<^verbatim>\<open>load_config\<close> fails with an error result, leaves the
  plain default configuration in memory and does not write the file.
\<close>

theorem load_config_migrates:
  "distinct (map fst old) \<and> map_of old ''_version'' \<noteq> Some (PStr current_version) \<and>
   settings self = Stored (PDict old) \<longrightarrow>
     migrate_config (PDict old) = Inr (PDict (fold migrate_step old default_items)) \<and>
     map fst (fold migrate_step old default_items) = map fst default_items \<and>
     (\<forall>k. map_of (fold migrate_step old default_items) k =
          (if k \<in> fst ` set default_items \<and> \<not> startswith_underscore k \<and> k \<in> fst ` set old
           then map_of old k else map_of default_items k)) \<and>
     (validate get_config_schema (PDict (fold migrate_step old default_items)) = Inr True \<longrightarrow>
        load_config self =
          (Inr (Value ()),
           self\<lparr>config := PDict (fold migrate_step old default_items),
                settings := Stored (PDict (AList.update ''_version'' (PStr current_version)
                                             (fold migrate_step old default_items)))\<rparr>)) \<and>
     (validate get_config_schema (PDict (fold migrate_step old default_items)) \<noteq> Inr True \<longrightarrow>
        (\<exists>r. load_config self =
               (Inr (ErrorResult r), self\<lparr>config := get_default_config\<rparr>)))"
proof (intro impI conjI allI)
  show "migrate_config (PDict old) = Inr (PDict (fold migrate_step old default_items))"
    by simp
next
  show "map fst (fold migrate_step old default_items) = map fst default_items"
    by (rule migrate_fold_keys)
next
  fix k
  assume "distinct (map fst old) \<and> map_of old ''_version'' \<noteq> Some (PStr current_version) \<and>
   settings self = Stored (PDict old)"
  then have "distinct (map fst old)" by simp
  then show "map_of (fold migrate_step old default_items) k =
          (if k \<in> fst ` set default_items \<and> \<not> startswith_underscore k \<and> k \<in> fst ` set old
           then map_of old k else map_of default_items k)"
    by (rule migrate_fold_lookup)
next
  assume h: "distinct (map fst old) \<and> map_of old ''_version'' \<noteq> Some (PStr current_version) \<and>
   settings self = Stored (PDict old)"
    and ok: "validate get_config_schema (PDict (fold migrate_step old default_items)) = Inr True"
  from h have s: "settings self = Stored (PDict old)"
    and v: "map_of old ''_version'' \<noteq> Some (PStr current_version)" by simp_all
  show "load_config self =
          (Inr (Value ()),
           self\<lparr>config := PDict (fold migrate_step old default_items),
                settings := Stored (PDict (AList.update ''_version'' (PStr current_version)
                                             (fold migrate_step old default_items)))\<rparr>)"
    using s v ok by (rule load_config_stale_valid)
next
  assume h: "distinct (map fst old) \<and> map_of old ''_version'' \<noteq> Some (PStr current_version) \<and>
   settings self = Stored (PDict old)"
    and bad: "validate get_config_schema (PDict (fold migrate_step old default_items)) \<noteq> Inr True"
  from h have s: "settings self = Stored (PDict old)"
    and v: "map_of old ''_version'' \<noteq> Some (PStr current_version)" by simp_all
  show "\<exists>r. load_config self =
               (Inr (ErrorResult r), self\<lparr>config := get_default_config\<rparr>)"
    using s v bad by (rule load_config_stale_invalid)
qed

theorem load_config_migrates_witness:
  "distinct (map fst stale_settings) \<and>
   map_of stale_settings ''_version'' \<noteq> Some (PStr current_version) \<and>
   fold migrate_step stale_settings default_items = migrated_settings \<and>
   validate get_config_schema (PDict migrated_settings) = Inr True \<and>
   load_config \<lparr>config = PDict [], settings = Stored (PDict stale_settings)\<rparr> =
     (Inr (Value ()),
      \<lparr>config = PDict migrated_settings,
       settings = Stored (PDict (migrated_settings @ [(''_version'', PStr ''1.0.0'')]))\<rparr>) \<and>
   distinct (map fst broken_settings) \<and>
   map_of broken_settings ''_version'' \<noteq> Some (PStr current_version) \<and>
   validate get_config_schema (PDict (fold migrate_step broken_settings default_items)) \<noteq>
     Inr True \<and>
   snd (load_config \<lparr>config = PDict [], settings = Stored (PDict broken_settings)\<rparr>) =
     \<lparr>config = get_default_config, settings = Stored (PDict broken_settings)\<rparr>"
proof -
  let ?s1 = "\<lparr>config = PDict [], settings = Stored (PDict stale_settings)\<rparr>"
  let ?s2 = "\<lparr>config = PDict [], settings = Stored (PDict broken_settings)\<rparr>"
  have d1: "distinct (map fst stale_settings)" by (simp add: stale_settings_def)
  have v1: "map_of stale_settings ''_version'' \<noteq> Some (PStr current_version)"
    by (simp add: stale_settings_def current_version_def)
  have m1: "fold migrate_step stale_settings default_items = migrated_settings"
    by (simp add: stale_settings_def default_items_def migrated_settings_def
        migrate_step_def startswith_underscore_def)
  have ok1: "validate get_config_schema (PDict migrated_settings) = Inr True"
    by (simp add: validate_def get_config_schema_def migrated_settings_def
        validate_values_def)
  have d2: "distinct (map fst broken_settings)" by (simp add: broken_settings_def)
  have v2: "map_of broken_settings ''_version'' \<noteq> Some (PStr current_version)"
    by (simp add: broken_settings_def current_version_def)
  have bad2: "validate get_config_schema
      (PDict (fold migrate_step broken_settings default_items)) \<noteq> Inr True"
    by (simp add: validate_def get_config_schema_def broken_settings_def default_items_def
        migrate_step_def startswith_underscore_def)
  note a = load_config_migrates [where old = stale_settings and self = ?s1]
  note b = load_config_migrates [where old = broken_settings and self = ?s2]
  from a d1 v1 ok1 have 1: "load_config ?s1 =
     (Inr (Value ()),
      \<lparr>config = PDict migrated_settings,
       settings = Stored (PDict (migrated_settings @ [(''_version'', PStr ''1.0.0'')]))\<rparr>)"
    by (simp add: m1) (simp add: migrated_settings_def current_version_def)
  from b d2 v2 bad2 obtain r where
    "load_config ?s2 = (Inr (ErrorResult r), ?s2\<lparr>config := get_default_config\<rparr>)"
    by auto
  then have 2: "snd (load_config ?s2) =
      \<lparr>config = get_default_config, settings = Stored (PDict broken_settings)\<rparr>"
    by simp
  from d1 v1 m1 ok1 1 d2 v2 bad2 2 show ?thesis by blast
qed

theorem load_config_invalid_overlay_counterexample:
  "map_of broken_settings ''_version'' \<noteq> Some (PStr ''1.0.0'') \<and>
   map_of broken_settings ''ui'' = Some (PInt 5) \<and>
   ''ui'' \<in> fst ` set default_items \<and> \<not> startswith_underscore ''ui'' \<and>
   py_getitem
     (config (snd (load_config
        \<lparr>config = PDict [], settings = Stored (PDict broken_settings)\<rparr>))) ''ui'' \<noteq>
     Inr (PInt 5) \<and>
   settings (snd (load_config
        \<lparr>config = PDict [], settings = Stored (PDict broken_settings)\<rparr>)) =
     Stored (PDict broken_settings)"
  by (simp add: broken_settings_def default_items_def startswith_underscore_def
      load_config_def load_config_body_def load_config_try_def load_config_read_def
      validate_version_def current_version_def migrate_step_def
      validate_def get_config_schema_def get_default_config_def error_handler_def)

text \<open>
  C4. For every 16-byte key and every plaintext, \<^verbatim>\<open>_rc4_encrypt\<close> computes the
  RC4 cipher of the reference definition: the outputs are equal, the output has the
  length of the plaintext, and output byte \<open>n\<close> is plaintext byte \<open>n\<close> XORed with
  byte \<open>n\<close> of the reference keystream for that key.
\<close>

theorem rc4_encrypt_is_rc4:
  "length key = 16 \<longrightarrow>
     rc4_encrypt key data = rc4_reference key data \<and>
     length (rc4_encrypt key data) = length data \<and>
     (\<forall>n < length data.
        rc4_encrypt key data ! n =
        data ! n XOR rc4_reference_keystream key (length data) ! n)"
proof (intro impI)
  assume k: "length key = 16"
  have e: "rc4_encrypt key data = rc4_reference key data"
    using k by (rule rc4_refines)
  show "rc4_encrypt key data = rc4_reference key data \<and>
     length (rc4_encrypt key data) = length data \<and>
     (\<forall>n < length data.
        rc4_encrypt key data ! n =
        data ! n XOR rc4_reference_keystream key (length data) ! n)"
    unfolding e
    by (simp add: rc4_reference_def rc4_reference_keystream_def ref_keystream_length)
qed

theorem rc4_encrypt_is_rc4_witness:
  "length [1, 2, 3, 4, 5, 6, 7, 8, 9, 10, 11, 12, 13, 14, 15, 16 :: byte] = 16 \<and>
   rc4_encrypt [1, 2, 3, 4, 5, 6, 7, 8, 9, 10, 11, 12, 13, 14, 15, 16] [0, 0, 0, 0] =
     [0x9a, 0xc7, 0xcc, 0x9a] \<and>
   rc4_reference [1, 2, 3, 4, 5, 6, 7, 8, 9, 10, 11, 12, 13, 14, 15, 16] [0, 0, 0, 0] =
     [0x9a, 0xc7, 0xcc, 0x9a]"
  using rc4_encrypt_is_rc4
    [where key = "[1, 2, 3, 4, 5, 6, 7, 8, 9, 10, 11, 12, 13, 14, 15, 16]"
       and data = "[0, 0, 0, 0]"]
    rc4_encrypt_known_answer
  by simp

text \<open>
  C5. Applying the single-byte XOR transform twice with the same key byte gives the
  payload back, for every key byte (so in particular for the keys 1..255 the source
  draws). With a 4-byte key the rolling transform keeps the length, byte \<open>i\<close> of its
  output is \<open>input[i] XOR key[i mod 4]\<close>, and applying it twice with the same key
  gives the payload back.
\<close>

theorem xor_transforms_involutive:
  "xor_encrypt k (xor_encrypt k data) = data \<and>
   (length key = 4 \<longrightarrow>
      length (custom_xor_encrypt key data) = length data \<and>
      (\<forall>i < length data. custom_xor_encrypt key data ! i = data ! i XOR key ! (i mod 4)) \<and>
      custom_xor_encrypt key (custom_xor_encrypt key data) = data)"
proof (intro conjI impI allI)
  show "xor_encrypt k (xor_encrypt k data) = data"
    by (simp add: xor_encrypt_def o_def xor_twice)
next
  show "length (custom_xor_encrypt key data) = length data"
    by (simp add: custom_xor_encrypt_def custom_xor_loop_length)
next
  fix i
  assume "length key = 4" and "i < length data"
  then show "custom_xor_encrypt key data ! i = data ! i XOR key ! (i mod 4)"
    by (simp add: custom_xor_encrypt_def custom_xor_loop_nth)
next
  show "custom_xor_encrypt key (custom_xor_encrypt key data) = data"
    by (simp add: custom_xor_encrypt_def custom_xor_loop_twice)
qed

theorem xor_transforms_involutive_witness:
  "length [0x11, 0x22, 0x33, 0x44 :: byte] = 4 \<and>
   custom_xor_encrypt [0x11, 0x22, 0x33, 0x44]
     (custom_xor_encrypt [0x11, 0x22, 0x33, 0x44] [0x90, 0xCC, 0x00, 0xFF, 0x41]) =
     [0x90, 0xCC, 0x00, 0xFF, 0x41] \<and>
   xor_encrypt 0xAA (xor_encrypt 0xAA [0x90, 0xCC, 0x00, 0xFF, 0x41]) =
     [0x90, 0xCC, 0x00, 0xFF, 0x41]"
  using xor_transforms_involutive
    [where k = "0xAA" and key = "[0x11, 0x22, 0x33, 0x44]"
       and data = "[0x90, 0xCC, 0x00, 0xFF, 0x41]"]
  by simp

text \<open>
  C6. When \<open>to_addr - (from_addr + 5)\<close> fits a signed 32-bit value,
  \<^verbatim>\<open>_create_return_jump\<close> returns five bytes: \<open>0xE9\<close>, then four bytes that read
  back, little-endian and signed, as that difference. For \<open>from_addr = 0x2000\<close> and
  \<open>to_addr = 0x1000\<close> the bytes are \<open>E9 FB EF FF FF\<close>, the encoding of
  \<open>0x1000 - 0x2005\<close>.
\<close>

theorem create_return_jump_encoding:
  "(- (2 ^ 31) \<le> to_addr - (from_addr + 5) \<and> to_addr - (from_addr + 5) < 2 ^ 31 \<longrightarrow>
     (\<exists>bs. create_return_jump from_addr to_addr = Inr (0xE9 # bs) \<and> length bs = 4 \<and>
           from_bytes4_le_signed bs = to_addr - (from_addr + 5)))
   \<and> create_return_jump 0x2000 0x1000 = Inr [0xE9, 0xFB, 0xEF, 0xFF, 0xFF]
   \<and> from_bytes4_le_signed [0xFB, 0xEF, 0xFF, 0xFF] = 0x1000 - 0x2005"
proof (intro conjI impI)
  assume r: "- (2 ^ 31) \<le> to_addr - (from_addr + 5) \<and> to_addr - (from_addr + 5) < 2 ^ 31"
  then have "from_bytes4_le_signed (le_bytes 4 ((to_addr - (from_addr + 5)) mod 2 ^ 32)) =
      to_addr - (from_addr + 5)"
    by (intro from_to_bytes4) simp_all
  then show "\<exists>bs. create_return_jump from_addr to_addr = Inr (0xE9 # bs) \<and> length bs = 4 \<and>
           from_bytes4_le_signed bs = to_addr - (from_addr + 5)"
    using r by (simp add: create_return_jump_def to_bytes4_le_signed_def le_bytes_length)
next
  show "create_return_jump 0x2000 0x1000 = Inr [0xE9, 0xFB, 0xEF, 0xFF, 0xFF]"
    by (simp add: create_return_jump_def to_bytes4_le_signed_def eval_nat_numeral)
next
  show "from_bytes4_le_signed [0xFB, 0xEF, 0xFF, 0xFF] = 0x1000 - 0x2005"
    by (simp add: from_bytes4_le_signed_def)
qed

theorem create_return_jump_encoding_witness:
  "- (2 ^ 31) \<le> (0x3000 :: int) - (0x1000 + 5) \<and> (0x3000 :: int) - (0x1000 + 5) < 2 ^ 31 \<and>
   (\<exists>bs. create_return_jump 0x1000 0x3000 = Inr (0xE9 # bs) \<and> length bs = 4 \<and>
         from_bytes4_le_signed bs = 0x1FFB)"
  using create_return_jump_encoding [where from_addr = "0x1000" and to_addr = "0x3000"]
  by simp

text \<open>
  C7 (as amended). For a requested size of at least 1, \<^verbatim>\<open>_find_code_cave\<close> returns no
  match exactly when no executable section holds a run of that many bytes equal to
  \<open>0x00\<close> or \<open>0xCC\<close>; a match is the virtual address of the first position, in the
  first executable section that has one, where such a run starts, and the reported
  length equals the requested size. An executable section made of bytes that are
  neither \<open>0x00\<close> nor \<open>0xCC\<close>, then 40 zero bytes, then again bytes that are neither,
  gives the offset of the zero run with length 35 for size 35, and no match for size
  41. When no cave of payload length + 5 exists, \<^verbatim>\<open>_inject_code_cave\<close> returns
  \<open>False\<close> and leaves the image alone, the strategy check of \<^verbatim>\<open>inject\<close> raises an
  Operation error, and the decorator hands it to the caller as an error result with
  code \<open>ERR_OPERATION\<close>.
\<close>

theorem find_code_cave_first_run:
  "(0 < sz \<longrightarrow>
      (find_code_cave ss sz = None \<longleftrightarrow>
         (\<forall>s \<in> set ss. is_executable s \<longrightarrow> (\<forall>p. \<not> cave_at (section_data s) (nat sz) p))) \<and>
      (\<forall>va n. find_code_cave ss sz = Some (va, n) \<longrightarrow>
         (\<exists>before s after p. ss = before @ s # after \<and> is_executable s \<and>
            (\<forall>t \<in> set before. is_executable t \<longrightarrow>
               (\<forall>q. \<not> cave_at (section_data t) (nat sz) q)) \<and>
            cave_at (section_data s) (nat sz) p \<and>
            (\<forall>q < p. \<not> cave_at (section_data s) (nat sz) q) \<and>
            va = VirtualAddress s + p \<and> int n = sz))) \<and>
   ((\<forall>b \<in> set pre \<union> set post. \<not> is_filler b) \<and> is_executable x \<and>
    section_data x = pre @ replicate 40 0 @ post \<longrightarrow>
      find_code_cave [x] 35 = Some (VirtualAddress x + length pre, 35) \<and>
      find_code_cave [x] 41 = None) \<and>
   ((\<forall>s \<in> set (sections pe). is_executable s \<longrightarrow>
        (\<forall>p. \<not> cave_at (section_data s) (length shellcode + 5) p)) \<longrightarrow>
      inject_code_cave off cfg pe shellcode = (False, pe) \<and>
      inject_strategy ns es off ''code_cave'' cfg pe shellcode =
        Inl (OperationError msg_injection_failed) \<and>
      fst (error_handler
             (inject_strategy ns es off ''code_cave'' cfg pe shellcode, pe)) =
        Inr (ErrorResult
          \<lparr>res_status = ''error'', res_error_code = ''ERR_OPERATION'',
           res_message = msg_injection_failed, res_type = ''operation'',
           res_severity = ''ERROR'', res_category = ''BUSINESS''\<rparr>))"
proof (intro conjI impI allI)
  assume "0 < sz"
  then show "find_code_cave ss sz = None \<longleftrightarrow>
         (\<forall>s \<in> set ss. is_executable s \<longrightarrow> (\<forall>p. \<not> cave_at (section_data s) (nat sz) p))"
    by (rule find_code_cave_None)
next
  fix va n
  assume "0 < sz" and "find_code_cave ss sz = Some (va, n)"
  then show "\<exists>before s after p. ss = before @ s # after \<and> is_executable s \<and>
            (\<forall>t \<in> set before. is_executable t \<longrightarrow>
               (\<forall>q. \<not> cave_at (section_data t) (nat sz) q)) \<and>
            cave_at (section_data s) (nat sz) p \<and>
            (\<forall>q < p. \<not> cave_at (section_data s) (nat sz) q) \<and>
            va = VirtualAddress s + p \<and> int n = sz"
    by (rule find_code_cave_Some)
next
  assume h: "(\<forall>b \<in> set pre \<union> set post. \<not> is_filler b) \<and> is_executable x \<and>
    section_data x = pre @ replicate 40 0 @ post"
  then show "find_code_cave [x] 35 = Some (VirtualAddress x + length pre, 35)"
    by (intro padded_section_search(1)) simp_all
  from h show "find_code_cave [x] 41 = None"
    by (intro padded_section_search(2) [of pre post]) simp_all
next
  assume "\<forall>s \<in> set (sections pe). is_executable s \<longrightarrow>
        (\<forall>p. \<not> cave_at (section_data s) (length shellcode + 5) p)"
  then have none: "find_code_cave (sections pe) (int (length shellcode) + 5) = None"
    using find_code_cave_None [of "int (length shellcode) + 5" "sections pe"]
    by (simp add: nat_add_distrib)
  show "inject_code_cave off cfg pe shellcode = (False, pe)"
    using none by (rule no_cave_injection_fails(1))
  show r: "inject_strategy ns es off ''code_cave'' cfg pe shellcode =
        Inl (OperationError msg_injection_failed)"
    using none by (rule no_cave_injection_fails(2))
  show "fst (error_handler
             (inject_strategy ns es off ''code_cave'' cfg pe shellcode, pe)) =
        Inr (ErrorResult
          \<lparr>res_status = ''error'', res_error_code = ''ERR_OPERATION'',
           res_message = msg_injection_failed, res_type = ''operation'',
           res_severity = ''ERROR'', res_category = ''BUSINESS''\<rparr>)"
    unfolding r by (simp add: error_handler_def)
qed

theorem find_code_cave_first_run_witness:
  "(0 :: int) < 3 \<and>
   find_code_cave
     [\<lparr>Characteristics = 0x60000020, VirtualAddress = 0x1000,
       section_data = [0x41, 0, 0, 0x41, 0xCC, 0, 0, 0x41]\<rparr>] 3 \<noteq> None \<and>
   is_executable
     \<lparr>Characteristics = 0x60000020, VirtualAddress = 0x1000,
      section_data = [0x41] @ replicate 40 0 @ [0x42]\<rparr> \<and>
   \<not> is_filler 0x41 \<and> \<not> is_filler 0x42 \<and>
   find_code_cave
     [\<lparr>Characteristics = 0x60000020, VirtualAddress = 0x1000,
       section_data = [0x41] @ replicate 40 0 @ [0x42]\<rparr>] 35 = Some (0x1001, 35) \<and>
   find_code_cave
     [\<lparr>Characteristics = 0x60000020, VirtualAddress = 0x1000,
       section_data = [0x41] @ replicate 40 0 @ [0x42]\<rparr>] 41 = None \<and>
   inject_code_cave (\<lambda>rva. Inr rva) pe_default_config
     \<lparr>sections = [\<lparr>Characteristics = 0x60000020, VirtualAddress = 0x1000,
                    section_data = [0x41, 0, 0x42]\<rparr>],
      image_data = [0x41, 0, 0x42], AddressOfEntryPoint = 0x1000\<rparr> [0x90] =
     (False,
      \<lparr>sections = [\<lparr>Characteristics = 0x60000020, VirtualAddress = 0x1000,
                    section_data = [0x41, 0, 0x42]\<rparr>],
       image_data = [0x41, 0, 0x42], AddressOfEntryPoint = 0x1000\<rparr>)"
proof -
  define s1 :: pe_section where
    "s1 = \<lparr>Characteristics = 0x60000020, VirtualAddress = 0x1000,
           section_data = [0x41, 0, 0, 0x41, 0xCC, 0, 0, 0x41]\<rparr>"
  define s2 :: pe_section where
    "s2 = \<lparr>Characteristics = 0x60000020, VirtualAddress = 0x1000,
           section_data = [0x41] @ replicate 40 0 @ [0x42]\<rparr>"
  define im :: pe_image where
    "im = \<lparr>sections = [\<lparr>Characteristics = 0x60000020, VirtualAddress = 0x1000,
                    section_data = [0x41, 0, 0x42]\<rparr>],
           image_data = [0x41, 0, 0x42], AddressOfEntryPoint = 0x1000\<rparr>"
  note t = find_code_cave_first_run
    [where sz = 3 and ss = "[s1]" and pre = "[0x41]" and post = "[0x42]" and x = s2
       and pe = im and shellcode = "[0x90]" and off = "\<lambda>rva. Inr rva" and cfg = pe_default_config]
  have pos: "(0 :: int) < 3" by simp
  have ex1: "is_executable s1" by (simp add: s1_def is_executable_def)
  have ex2: "is_executable s2" by (simp add: s2_def is_executable_def)
  have nf: "\<forall>b \<in> set [0x41 :: byte] \<union> set [0x42]. \<not> is_filler b"
    by (simp add: is_filler_def)
  have d2: "section_data s2 = [0x41] @ replicate 40 0 @ [0x42]" by (simp add: s2_def)
  have cave: "cave_at (section_data s1) (nat 3) 4"
    by (simp add: s1_def cave_at_def is_filler_def numeral_3_eq_3 less_Suc_eq)
  have nocave: "\<forall>s \<in> set (sections im). is_executable s \<longrightarrow>
        (\<forall>p. \<not> cave_at (section_data s) (length [0x90 :: byte] + 5) p)"
    by (simp add: im_def cave_at_def)
  from t pos ex1 cave have a: "find_code_cave [s1] 3 \<noteq> None" by auto
  from t nf ex2 d2 have b: "find_code_cave [s2] 35 = Some (VirtualAddress s2 + length [0x41 :: byte], 35)"
    "find_code_cave [s2] 41 = None" by blast+
  from t nocave have c: "inject_code_cave (\<lambda>rva. Inr rva) pe_default_config im [0x90] = (False, im)"
    by blast
  have va: "VirtualAddress s2 + length [0x41 :: byte] = 0x1001" by (simp add: s2_def)
  have b': "find_code_cave [s2] 35 = Some (0x1001, 35)" using b(1) unfolding va .
  have nf': "\<not> is_filler 0x41" "\<not> is_filler 0x42" by (simp_all add: is_filler_def)
  show ?thesis
    using pos a ex2 nf' b' b(2) c unfolding s1_def s2_def im_def by blast
qed

theorem find_code_cave_int3_neighbours_counterexample:
  "(0xCC :: byte) \<noteq> 0 \<and>
   find_code_cave
     [\<lparr>Characteristics = 0x60000020, VirtualAddress = 0x1000,
       section_data = [0xCC] @ replicate 40 0 @ [0xCC]\<rparr>] 41 = Some (0x1000, 41)"
  by code_simp

text \<open>
  C8. \<^verbatim>\<open>inject\<close> makes a native call only after the file and the process were found
  and the file was read, and its first call is \<^verbatim>\<open>OpenProcess\<close>. Whenever that call
  returns a handle other than null, the last native call of \<^verbatim>\<open>inject\<close> is
  \<^verbatim>\<open>CloseHandle\<close> on that handle, whatever the configuration holds, whatever the
  later calls answer and whether \<^verbatim>\<open>inject\<close> ends with its value or with an error.
\<close>

theorem inject_closes_process_handle:
  "(path_exists env shellcode_file \<and> pid_exists env pid \<and> read_file env shellcode_file = Inr sc \<and>
    kernel32 env [] (OpenProcess PROCESS_ALL_ACCESS False pid) = Inr h \<and> h \<noteq> 0 \<longrightarrow>
      (\<exists>mid. snd (inject env cfg pid shellcode_file) =
               OpenProcess PROCESS_ALL_ACCESS False pid # mid @ [CloseHandle h])) \<and>
   (snd (inject env cfg pid shellcode_file) \<noteq> [] \<longrightarrow>
      path_exists env shellcode_file \<and> pid_exists env pid \<and> (\<exists>sc. read_file env shellcode_file = Inr sc) \<and>
      hd (snd (inject env cfg pid shellcode_file)) = OpenProcess PROCESS_ALL_ACCESS False pid)"
proof -
  have t: "snd (inject env cfg pid shellcode_file) = snd (inject_body env cfg pid shellcode_file [])"
    by (simp add: inject_def error_handler_def split: sum.splits)
  show ?thesis
    unfolding t
    using inject_body_closes [of env shellcode_file pid sc h cfg]
      inject_body_no_call_without_open [of env cfg pid shellcode_file]
    by blast
qed

theorem inject_closes_process_handle_witness:
  "path_exists cooperative_env ''payload.bin'' \<and> pid_exists cooperative_env 4242 \<and>
   read_file cooperative_env ''payload.bin'' = Inr [0x90, 0xC3] \<and>
   kernel32 cooperative_env [] (OpenProcess PROCESS_ALL_ACCESS False 4242) = Inr 77 \<and>
   fst (inject cooperative_env classic_config 4242 ''payload.bin'') = Inr (Value True) \<and>
   last (snd (inject cooperative_env classic_config 4242 ''payload.bin'')) = CloseHandle 77 \<and>
   path_exists failing_alloc_env ''payload.bin'' \<and> pid_exists failing_alloc_env 4242 \<and>
   read_file failing_alloc_env ''payload.bin'' = Inr [0x90, 0xC3] \<and>
   kernel32 failing_alloc_env [] (OpenProcess PROCESS_ALL_ACCESS False 4242) = Inr 77 \<and>
   fst (inject failing_alloc_env classic_config 4242 ''payload.bin'') =
     Inr (ErrorResult
        \<lparr>res_status = ''error'', res_error_code = ''ERR_OPERATION'',
         res_message = msg_alloc_failed, res_type = ''operation'', res_severity = ''ERROR'',
         res_category = ''BUSINESS''\<rparr>) \<and>
   last (snd (inject failing_alloc_env classic_config 4242 ''payload.bin'')) = CloseHandle 77 \<and>
   fst (inject cooperative_env ConfigManagerObject 4242 ''payload.bin'') =
     Inr (ErrorResult
        \<lparr>res_status = ''error'', res_error_code = ''ERR_UNKNOWN'',
         res_message = exn_str not_subscriptable, res_type = ''unknown'',
         res_severity = ''ERROR'', res_category = ''SYSTEM''\<rparr>) \<and>
   snd (inject cooperative_env ConfigManagerObject 4242 ''payload.bin'') =
     [OpenProcess PROCESS_ALL_ACCESS False 4242, CloseHandle 77]"
proof -
  have c: "path_exists cooperative_env ''payload.bin''" "pid_exists cooperative_env 4242"
    "read_file cooperative_env ''payload.bin'' = Inr [0x90, 0xC3]"
    "kernel32 cooperative_env [] (OpenProcess PROCESS_ALL_ACCESS False 4242) = Inr 77"
    by (simp_all add: cooperative_env_def)
  have f: "path_exists failing_alloc_env ''payload.bin''" "pid_exists failing_alloc_env 4242"
    "read_file failing_alloc_env ''payload.bin'' = Inr [0x90, 0xC3]"
    "kernel32 failing_alloc_env [] (OpenProcess PROCESS_ALL_ACCESS False 4242) = Inr 77"
    by (simp_all add: failing_alloc_env_def)
  have nz: "(77 :: int) \<noteq> 0" by simp
  note a = inject_closes_process_handle
    [where env = cooperative_env and cfg = classic_config and pid = 4242
       and shellcode_file = "''payload.bin''" and sc = "[0x90, 0xC3]" and h = 77, THEN conjunct1]
  note b = inject_closes_process_handle
    [where env = failing_alloc_env and cfg = classic_config and pid = 4242
       and shellcode_file = "''payload.bin''" and sc = "[0x90, 0xC3]" and h = 77, THEN conjunct1]
  from a c nz obtain mid where
    "snd (inject cooperative_env classic_config 4242 ''payload.bin'') =
       OpenProcess PROCESS_ALL_ACCESS False 4242 # mid @ [CloseHandle 77]" by blast
  then have 1: "last (snd (inject cooperative_env classic_config 4242 ''payload.bin'')) =
      CloseHandle 77" by simp
  from b f nz obtain mid' where
    "snd (inject failing_alloc_env classic_config 4242 ''payload.bin'') =
       OpenProcess PROCESS_ALL_ACCESS False 4242 # mid' @ [CloseHandle 77]" by blast
  then have 2: "last (snd (inject failing_alloc_env classic_config 4242 ''payload.bin'')) =
      CloseHandle 77" by simp
  note run = inject_def inject_body_def inject_with_handle_def classic_injection_def
    encrypt_shellcode_def hide_thread_def protect_memory_def config_get_def
    classic_config_lookups manager_object_lookup error_handler_def try_except_def
    try_finally_def and_then_def lift_def native_def raise_def ret_def
  have 3: "fst (inject cooperative_env classic_config 4242 ''payload.bin'') = Inr (Value True)"
    by (simp add: run cooperative_env_def)
  have 4: "fst (inject failing_alloc_env classic_config 4242 ''payload.bin'') =
     Inr (ErrorResult
        \<lparr>res_status = ''error'', res_error_code = ''ERR_OPERATION'',
         res_message = msg_alloc_failed, res_type = ''operation'', res_severity = ''ERROR'',
         res_category = ''BUSINESS''\<rparr>)"
    by (simp add: run failing_alloc_env_def)
  have 5: "fst (inject cooperative_env ConfigManagerObject 4242 ''payload.bin'') =
     Inr (ErrorResult
        \<lparr>res_status = ''error'', res_error_code = ''ERR_UNKNOWN'',
         res_message = exn_str not_subscriptable, res_type = ''unknown'',
         res_severity = ''ERROR'', res_category = ''SYSTEM''\<rparr>)"
    by (simp add: run cooperative_env_def not_subscriptable_def handle_error_def
        handler_kind_def default_handler_result_def)
  have 6: "snd (inject cooperative_env ConfigManagerObject 4242 ''payload.bin'') =
     [OpenProcess PROCESS_ALL_ACCESS False 4242, CloseHandle 77]"
    by (simp add: run cooperative_env_def not_subscriptable_def handle_error_def
        handler_kind_def default_handler_result_def)
  from c f 1 2 3 4 5 6 show ?thesis by blast
qed

text \<open>
  C9 (as amended). A boolean passes the type check against \<open>int\<close>, in the configuration
  validator and in the tool framework alike. For the configuration schema of the
  repository, putting a boolean under a key declared \<open>int\<close> (\<open>ui.window_size.width\<close>,
  \<open>ui.window_size.height\<close>, \<open>process.refresh_interval\<close>) gives the verdict that an
  integer under that key gives, whatever the rest of the configuration is; the default
  configuration with a boolean width is accepted.
\<close>

theorem validator_accepts_bool_for_int:
  "validate_type (PBool b) (PStr ''int'') key = Inr () \<and>
   tool_validate_type (PBool b) (PStr ''int'') key = Inr () \<and>
   validate get_config_schema (config_with [''ui'', ''window_size'', ''width''] (PBool b) cfg) =
     validate get_config_schema (config_with [''ui'', ''window_size'', ''width''] (PInt n) cfg) \<and>
   validate get_config_schema (config_with [''ui'', ''window_size'', ''height''] (PBool b) cfg) =
     validate get_config_schema (config_with [''ui'', ''window_size'', ''height''] (PInt n) cfg) \<and>
   validate get_config_schema (config_with [''process'', ''refresh_interval''] (PBool b) cfg) =
     validate get_config_schema (config_with [''process'', ''refresh_interval''] (PInt n) cfg) \<and>
   validate get_config_schema
     (config_with [''ui'', ''window_size'', ''width''] (PBool b) get_default_config) = Inr True"
proof (intro conjI)
  show "validate_type (PBool b) (PStr ''int'') key = Inr ()" by simp
  show "tool_validate_type (PBool b) (PStr ''int'') key = Inr ()" by simp
  show "validate get_config_schema
          (config_with [''ui'', ''window_size'', ''width''] (PBool b) cfg) =
        validate get_config_schema
          (config_with [''ui'', ''window_size'', ''width''] (PInt n) cfg)"
    by (rule validate_window_size_bool) simp
  show "validate get_config_schema
          (config_with [''ui'', ''window_size'', ''height''] (PBool b) cfg) =
        validate get_config_schema
          (config_with [''ui'', ''window_size'', ''height''] (PInt n) cfg)"
    by (rule validate_window_size_bool) simp
  show "validate get_config_schema
          (config_with [''process'', ''refresh_interval''] (PBool b) cfg) =
        validate get_config_schema
          (config_with [''process'', ''refresh_interval''] (PInt n) cfg)"
    by (rule validate_refresh_interval_bool)
  show "validate get_config_schema
     (config_with [''ui'', ''window_size'', ''width''] (PBool b) get_default_config) = Inr True"
    by (rule default_with_bool_width_valid)
qed


text \<open>
  A configuration with a boolean under an \<open>int\<close> key is not accepted for that alone:
  the default configuration with the theme \<open>purple\<close> and a boolean width is rejected,
  and so is a configuration that holds a boolean width and nothing else.
\<close>

theorem validator_rejects_with_bool_width_counterexample:
  "validate get_config_schema
     (config_with [''ui'', ''window_size'', ''width''] (PBool True)
        (config_with [''ui'', ''theme''] (PStr ''purple'') get_default_config)) = Inr False \<and>
   validate get_config_schema
     (config_with [''ui'', ''window_size'', ''width''] (PBool True) (PDict [])) = Inr False"
  by (simp add: validate_def get_config_schema_def get_default_config_def default_items_def
      validate_values_def)

text \<open>
  C10. For a history of \<open>n\<close> entries and \<open>limit > 0\<close>, \<^verbatim>\<open>get_recent_errors\<close> returns
  the last \<open>min limit n\<close> entries; for \<open>limit = 0\<close> it returns the whole history,
  not the empty list.
\<close>

theorem get_recent_errors_limit:
  "(0 < limit \<longrightarrow>
      get_recent_errors h limit = drop (length h - nat (min limit (int (length h)))) h \<and>
      int (length (get_recent_errors h limit)) = min limit (int (length h)))
   \<and> get_recent_errors h 0 = h"
  by (auto simp: get_recent_errors_def py_slice_from_def Let_def min_def max_def
      nat_diff_distrib)

theorem get_recent_errors_limit_witness:
  "(0 :: int) < 2 \<and> get_recent_errors [10, 20, 30 :: nat] 2 = [20, 30] \<and>
   get_recent_errors [10, 20, 30 :: nat] 0 = [10, 20, 30]"
  using get_recent_errors_limit [where limit = 2 and h = "[10, 20, 30 :: nat]"]
  by simp

end
